(* ===== verification/Prelude.thy ===== *)
theory Prelude
  imports Main "HOL-Library.Word" "HOL-Library.List_Lexorder" "HOL-Library.AList"
begin

text \<open>
  Shared vocabulary of the development: machine integers and their big-endian byte
  encodings, the saturating and checked arithmetic of the standard library that the
  sources call, results with early return, slices of byte buffers, sizes of finite maps,
  and the collections of simplification rules the component proofs use.

  \<open>usize\<close> is a natural number with the bound of a 64-bit target written out
  (\<open>USIZE_MAX\<close>); fixed-width integers are words.
\<close>

unbundle bit_operations_syntax

named_theorems wire_simps \<open>unfolding rules of the wire encodings\<close>
named_theorems result_simps \<open>unfolding rules of fallible operations\<close>

subsection \<open>Machine types\<close>

type_synonym byte = "8 word"
type_synonym u8 = "8 word"
type_synonym u16 = "16 word"
type_synonym u32 = "32 word"
type_synonym u64 = "64 word"
type_synonym u128 = "128 word"
type_synonym usize = nat

definition USIZE_MAX :: nat where
  "USIZE_MAX = 2 ^ 64 - 1"

definition checked_add :: "usize \<Rightarrow> usize \<Rightarrow> usize option" where
  "checked_add a b = (if a + b \<le> USIZE_MAX then Some (a + b) else None)"

definition saturating_mul :: "usize \<Rightarrow> usize \<Rightarrow> usize" where
  "saturating_mul a b = min (a * b) USIZE_MAX"

definition saturating_add :: "usize \<Rightarrow> usize \<Rightarrow> usize" where
  "saturating_add a b = min USIZE_MAX (a + b)"

definition checked_mul :: "usize \<Rightarrow> usize \<Rightarrow> usize option" where
  "checked_mul a b = (if a * b \<le> USIZE_MAX then Some (a * b) else None)"

text \<open>\<open>usize\<close> subtraction of an optimized build: it wraps.\<close>

definition wrapping_sub :: "usize \<Rightarrow> usize \<Rightarrow> usize" where
  "wrapping_sub a b = (if b \<le> a then a - b else a + (USIZE_MAX + 1) - b)"

definition div_ceil :: "nat \<Rightarrow> nat \<Rightarrow> nat" where
  "div_ceil a b = (if a mod b = 0 then a div b else a div b + 1)"

definition sat_add_word :: "'a::len word \<Rightarrow> 'a word \<Rightarrow> 'a word" where
  "sat_add_word a b = (if unat a + unat b < 2 ^ LENGTH('a) then a + b else - 1)"

definition sat_sub_word :: "'a::len word \<Rightarrow> 'a word \<Rightarrow> 'a word" where
  "sat_sub_word a b = (if b \<le> a then a - b else 0)"

definition sat_mul_word :: "'a::len word \<Rightarrow> 'a word \<Rightarrow> 'a word" where
  "sat_mul_word a b = (if unat a * unat b < 2 ^ LENGTH('a) then a * b else - 1)"

definition checked_add_word :: "'a::len word \<Rightarrow> 'a word \<Rightarrow> 'a word option" where
  "checked_add_word a b = (if unat a + unat b < 2 ^ LENGTH('a) then Some (a + b) else None)"

lemma checked_add_Some_iff [simp]:
  "checked_add a b = Some c \<longleftrightarrow> c = a + b \<and> a + b \<le> USIZE_MAX"
  by (auto simp: checked_add_def)

lemma checked_mul_Some_iff [simp]:
  "checked_mul a b = Some c \<longleftrightarrow> c = a * b \<and> a * b \<le> USIZE_MAX"
  by (auto simp: checked_mul_def)

lemma unat_max_word: "unat (- 1 :: 'a::len word) = 2 ^ LENGTH('a) - 1"
  by (simp add: unsigned_minus_1_eq_mask mask_eq_exp_minus_1)

lemma unat_le_max: "unat (a :: 'a::len word) \<le> 2 ^ LENGTH('a) - 1"
  using unsigned_less [of a, where ?'a = nat] by linarith

lemma unat_sat_add_word:
  "unat (sat_add_word a (b :: 'a::len word)) = min (2 ^ LENGTH('a) - 1) (unat a + unat b)"
  by (auto simp: sat_add_word_def unat_word_ariths unat_max_word min_def)

lemma sat_add_word_ge: "a \<le> sat_add_word a b"
  using unat_le_max [of a] by (simp add: word_le_nat_alt unat_sat_add_word)

lemma div_ceil_eq: "0 < b \<Longrightarrow> div_ceil a b = (a + b - 1) div b"
proof -
  assume b: "0 < b"
  let ?q = "a div b" and ?r = "a mod b"
  have "a + b - 1 = ?q * b + (?r + b - 1)"
    using b by (simp add: algebra_simps)
  then have "(a + b - 1) div b = ?q + (?r + b - 1) div b"
    using b by (metis div_mult_self3 less_not_refl mult.commute add.commute)
  moreover have "(?r + b - 1) div b = (if ?r = 0 then 0 else 1)"
  proof (cases "?r = 0")
    case False
    then obtain k where k: "?r = Suc k" by (cases ?r) auto
    with mod_less_divisor [OF b, of a] have "k < b" by simp
    with b k False show ?thesis by (simp add: div_add_self2)
  qed (use b in simp)
  ultimately show ?thesis by (simp add: div_ceil_def)
qed

lemma div_ceil_le_iff: "0 < b \<Longrightarrow> div_ceil a b \<le> n \<longleftrightarrow> a \<le> n * b"
  by (auto simp: div_ceil_eq less_Suc_eq_le [symmetric] div_less_iff_less_mult)

lemma less_div_ceil_iff: "0 < b \<Longrightarrow> n < div_ceil a b \<longleftrightarrow> n * b < a"
  using div_ceil_le_iff [of b a n] by linarith

subsection \<open>Big-endian byte encodings\<close>

text \<open>
  \<open>to_be_bytes n w\<close> is \<open>w.to_be_bytes()\<close> for an \<open>n\<close>-byte integer and
  \<open>from_be_bytes\<close> is its inverse \<open>uN::from_be_bytes\<close>.
\<close>

definition to_be_bytes :: "nat \<Rightarrow> 'a::len word \<Rightarrow> byte list" where
  "to_be_bytes n w = map (\<lambda>i. ucast (drop_bit (8 * i) w)) (rev [0..<n])"

definition from_be_bytes :: "byte list \<Rightarrow> 'a::len word" where
  "from_be_bytes bs = fold (\<lambda>b acc. push_bit 8 acc OR ucast b) bs 0"

lemma length_to_be_bytes [simp]: "length (to_be_bytes n w) = n"
  by (simp add: to_be_bytes_def)

lemma to_be_bytes_Suc:
  "to_be_bytes (Suc n) w = ucast (drop_bit (8 * n) w) # to_be_bytes n w"
  by (simp add: to_be_bytes_def)

lemma bit_from_be_bytes:
  "bit (from_be_bytes bs :: 'a::len word) k \<longleftrightarrow>
     k < LENGTH('a) \<and> k div 8 < length bs \<and> bit (bs ! (length bs - 1 - k div 8)) (k mod 8)"
proof (induction bs arbitrary: k rule: rev_induct)
  case Nil
  show ?case by (simp add: from_be_bytes_def)
next
  case (snoc b bs)
  have step: "from_be_bytes (bs @ [b]) = push_bit 8 (from_be_bytes bs) OR (ucast b :: 'a word)"
    by (simp add: from_be_bytes_def)
  show ?case
  proof (cases "k < 8")
    case True
    then show ?thesis
      by (auto simp: step bit_simps nth_append)
  next
    case False
    then obtain j where k: "k = 8 + j" by (metis le_add_diff_inverse linorder_not_less)
    have nob: "\<not> bit b (8 + j)" using bit_imp_le_length [of b "8 + j"] by auto
    have d: "(8 + j) div 8 = Suc (j div 8)" by simp
    show ?thesis
      by (auto simp: step k bit_simps nob snoc.IH nth_append d simp del: div_add_self1)
  qed
qed

lemma from_to_be_bytes:
  assumes "LENGTH('a::len) = 8 * n"
  shows "from_be_bytes (to_be_bytes n w) = (w :: 'a word)"
proof (rule bit_word_eqI)
  fix k assume k: "k < LENGTH('a)"
  then have d: "k div 8 < n" using assms by (simp add: div_less_iff_less_mult mult.commute)
  have "to_be_bytes n w ! (n - 1 - k div 8) = ucast (drop_bit (8 * (k div 8)) w)"
    using d by (simp add: to_be_bytes_def rev_nth)
  then show "bit (from_be_bytes (to_be_bytes n w) :: 'a word) k = bit w k"
    using k d by (simp add: bit_from_be_bytes bit_simps mult.commute)
qed

lemma to_from_be_bytes:
  assumes "length bs = n" and "LENGTH('a::len) = 8 * n"
  shows "to_be_bytes n (from_be_bytes bs :: 'a word) = bs"
proof (rule nth_equalityI)
  show "length (to_be_bytes n (from_be_bytes bs :: 'a word)) = length bs"
    using assms by simp
next
  fix i assume "i < length (to_be_bytes n (from_be_bytes bs :: 'a word))"
  then have i: "i < n" by simp
  have "to_be_bytes n (from_be_bytes bs :: 'a word) ! i
      = ucast (drop_bit (8 * (n - 1 - i)) (from_be_bytes bs :: 'a word))"
    using i by (simp add: to_be_bytes_def rev_nth)
  also have "\<dots> = bs ! i"
  proof (rule bit_word_eqI)
    fix k assume k: "k < LENGTH(8)"
    have e: "(8 * (n - Suc i) + k) div 8 = n - Suc i" "(8 * (n - Suc i) + k) mod 8 = k"
      using k by simp_all
    have l: "8 * (n - Suc i) + k < 8 * n" using k i by simp
    have s: "n - Suc (n - Suc i) = i" using i by simp
    show "bit (ucast (drop_bit (8 * (n - 1 - i)) (from_be_bytes bs :: 'a word)) :: byte) k
        = bit (bs ! i) k"
      using k i assms e l s by (simp add: bit_simps bit_from_be_bytes)
  qed
  finally show "to_be_bytes n (from_be_bytes bs :: 'a word) ! i = bs ! i" .
qed

lemmas from_to_be_bytes_widths [simp] =
  from_to_be_bytes [where 'a = 16 and n = 2, simplified]
  from_to_be_bytes [where 'a = 32 and n = 4, simplified]
  from_to_be_bytes [where 'a = 64 and n = 8, simplified]
  from_to_be_bytes [where 'a = 128 and n = 16, simplified]

subsection \<open>Slices of a buffer\<close>

text \<open>
  \<open>slice a b xs\<close> is \<open>&xs[a..b]\<close> and \<open>copy_into a bs xs\<close> is
  \<open>xs[a..a + bs.len()].copy_from_slice(bs)\<close>, both for ranges inside the buffer.
\<close>

definition slice :: "nat \<Rightarrow> nat \<Rightarrow> 'a list \<Rightarrow> 'a list" where
  "slice a b xs = take (b - a) (drop a xs)"

definition copy_into :: "nat \<Rightarrow> 'a list \<Rightarrow> 'a list \<Rightarrow> 'a list" where
  "copy_into a bs xs = take a xs @ bs @ drop (a + length bs) xs"

lemma length_slice [simp]: "length (slice a b xs) = min (b - a) (length xs - a)"
  by (simp add: slice_def min.commute)

lemma length_copy_into [simp]:
  "a + length bs \<le> length xs \<Longrightarrow> length (copy_into a bs xs) = length xs"
  by (simp add: copy_into_def)

lemma nth_slice: "i < b - a \<Longrightarrow> a + i < length xs \<Longrightarrow> slice a b xs ! i = xs ! (a + i)"
  by (simp add: slice_def)

lemma slice_copy_into_same:
  "a + length bs \<le> length xs \<Longrightarrow> b = a + length bs \<Longrightarrow> slice a b (copy_into a bs xs) = bs"
  by (simp add: slice_def copy_into_def)

lemma slice_copy_into_before:
  "a + length bs \<le> length xs \<Longrightarrow> d \<le> a \<Longrightarrow> slice c d (copy_into a bs xs) = slice c d xs"
  by (simp add: slice_def copy_into_def drop_take)

lemma slice_copy_into_after:
  assumes "a + length bs \<le> length xs" and "a + length bs \<le> c"
  shows "slice c d (copy_into a bs xs) = slice c d xs"
proof -
  have "drop c (copy_into a bs xs) = drop c xs"
    using assms by (simp add: copy_into_def)
  then show ?thesis by (simp add: slice_def)
qed

subsection \<open>Results with early return\<close>

text \<open>The \<open>?\<close> operator: an error leaves the function with that error.\<close>

definition bind_res :: "'e + 'a \<Rightarrow> ('a \<Rightarrow> 'e + 'b) \<Rightarrow> 'e + 'b" where
  "bind_res r f = (case r of Inl e \<Rightarrow> Inl e | Inr x \<Rightarrow> f x)"

lemma bind_res_simps [simp]:
  "bind_res (Inl e) f = Inl e"
  "bind_res (Inr x) f = f x"
  by (simp_all add: bind_res_def)

lemma bind_res_eq_Inr:
  "bind_res r f = Inr y \<longleftrightarrow> (\<exists>x. r = Inr x \<and> f x = Inr y)"
  by (cases r) simp_all

lemma bind_res_eq_Inl:
  "bind_res r f = Inl e \<longleftrightarrow> r = Inl e \<or> (\<exists>x. r = Inr x \<and> f x = Inl e)"
  by (cases r) simp_all

text \<open>\<open>Result::expect\<close>: the panic of an unexpected error is \<open>None\<close>.\<close>

definition expect :: "'e + 'a \<Rightarrow> 'a option" where
  "expect r = (case r of Inl _ \<Rightarrow> None | Inr x \<Rightarrow> Some x)"

lemma expect_simps [simp]:
  "expect (Inl e) = None"
  "expect (Inr x) = Some x"
  by (simp_all add: expect_def)

definition ok_or :: "'e \<Rightarrow> 'a option \<Rightarrow> 'e + 'a" where
  "ok_or e x = (case x of None \<Rightarrow> Inl e | Some v \<Rightarrow> Inr v)"

lemma ok_or_simps [simp]:
  "ok_or e None = Inl e"
  "ok_or e (Some v) = Inr v"
  by (simp_all add: ok_or_def)

text \<open>Early return from an operation that also threads a state.\<close>

definition try_st :: "'e + 'a \<Rightarrow> 's \<Rightarrow> ('a \<Rightarrow> ('e + 'b) \<times> 's) \<Rightarrow> ('e + 'b) \<times> 's" where
  "try_st r s f = (case r of Inl e \<Rightarrow> (Inl e, s) | Inr x \<Rightarrow> f x)"

lemma try_st_simps [simp]:
  "try_st (Inl e) s f = (Inl e, s)"
  "try_st (Inr x) s f = f x"
  by (simp_all add: try_st_def)

lemma word_less_succ: "(a :: 'a::len word) \<noteq> - 1 \<Longrightarrow> a < a + 1"
  using inc_less_eq_self_iff_eq [of a] by (meson not_le)

subsection \<open>Operations over an invariant\<close>

text \<open>
  The contract every stateful component meets: its operations keep its invariant, so the
  invariant holds after any sequence of operations. The components instantiate it with their
  own operations.
\<close>

locale invariant_ops =
  fixes inv :: "'s \<Rightarrow> bool"
    and apply_op :: "'op \<Rightarrow> 's \<Rightarrow> 's"
  assumes preserves: "inv s \<Longrightarrow> inv (apply_op oper s)"
begin

lemma inv_fold: "inv s \<Longrightarrow> inv (fold apply_op opers s)"
  by (induction opers arbitrary: s) (simp_all add: preserves)

end

text \<open>
  An invariant of a step relation holds in every world reachable from the initial one.
\<close>

locale invariant_steps =
  fixes start :: 'w and step :: "'w \<Rightarrow> 'w \<Rightarrow> bool" and inv :: "'w \<Rightarrow> bool"
  assumes start_inv: "inv start" and step_inv: "step w w' \<Longrightarrow> inv w \<Longrightarrow> inv w'"
begin

lemma inv_reachable: "step\<^sup>*\<^sup>* start w \<Longrightarrow> inv w"
  by (induction rule: rtranclp_induct) (auto intro: start_inv step_inv)

end

text \<open>
  A quantity that no operation decreases in the given preorder does not decrease over a
  sequence of them.
\<close>

locale monotone_ops = invariant_ops inv apply_op
  for inv :: "'s \<Rightarrow> bool" and apply_op :: "'op \<Rightarrow> 's \<Rightarrow> 's" +
  fixes below :: "'s \<Rightarrow> 's \<Rightarrow> bool"
  assumes below_refl: "below s s"
    and below_trans: "below s t \<Longrightarrow> below t u \<Longrightarrow> below s u"
    and step_below: "inv s \<Longrightarrow> below s (apply_op oper s)"
begin

lemma fold_below: "inv s \<Longrightarrow> below s (fold apply_op opers s)"
proof (induction opers arbitrary: s)
  case (Cons oper opers)
  then have "below (apply_op oper s) (fold apply_op opers (apply_op oper s))"
    by (simp add: preserves)
  with Cons.prems show ?case by (auto intro: below_trans step_below)
qed (simp add: below_refl)

end

subsection \<open>Hash maps\<close>

text \<open>
  A hash map that the code iterates over is an association list with distinct keys, whose
  order stands for the unspecified iteration order. \<open>val_sum f m\<close> is the sum of \<open>f\<close> over
  the values.
\<close>

definition val_sum :: "('v \<Rightarrow> nat) \<Rightarrow> ('k \<times> 'v) list \<Rightarrow> nat" where
  "val_sum f m = sum_list (map (f \<circ> snd) m)"

abbreviation keys_distinct :: "('k \<times> 'v) list \<Rightarrow> bool" where
  "keys_distinct m \<equiv> distinct (map fst m)"

lemma val_sum_simps [simp]:
  "val_sum f [] = 0"
  "val_sum f (kv # m) = f (snd kv) + val_sum f m"
  by (simp_all add: val_sum_def)

lemma val_sum_append [simp]: "val_sum f (m @ n) = val_sum f m + val_sum f n"
  by (simp add: val_sum_def)

lemma val_sum_update_new:
  "map_of m k = None \<Longrightarrow> val_sum f (AList.update k v m) = val_sum f m + f v"
  by (induction m) auto

lemma val_sum_update_old:
  "map_of m k = Some w \<Longrightarrow> val_sum f (AList.update k v m) + f w = val_sum f m + f v"
  by (induction m) (auto split: if_splits)

lemma val_sum_ge: "map_of m k = Some w \<Longrightarrow> f w \<le> val_sum f m"
  by (induction m) (auto split: if_splits)

lemma delete_fresh: "map_of m k = None \<Longrightarrow> AList.delete k m = m"
  by (induction m) (auto simp: AList.delete_eq split: if_splits)

lemma val_sum_delete:
  "keys_distinct m \<Longrightarrow> map_of m k = Some w \<Longrightarrow> val_sum f (AList.delete k m) + f w = val_sum f m"
proof (induction m)
  case (Cons kv m)
  show ?case
  proof (cases "fst kv = k")
    case True
    then have "map_of m k = None" using Cons.prems(1) by (auto simp: map_of_eq_None_iff)
    with True Cons.prems show ?thesis by (cases kv) (simp add: delete_fresh)
  qed (use Cons in \<open>cases kv, auto\<close>)
qed simp

lemma length_update_new: "map_of m k = None \<Longrightarrow> length (AList.update k v m) = length m + 1"
  by (induction m) auto

lemma length_update_old: "map_of m k = Some w \<Longrightarrow> length (AList.update k v m) = length m"
  by (induction m) (auto split: if_splits)

lemma length_delete_le: "length (AList.delete k m) \<le> length m"
  by (simp add: AList.delete_eq)

lemma keys_distinct_delete: "keys_distinct m \<Longrightarrow> keys_distinct (AList.delete k m)"
  by (simp add: AList.distinct_delete)

lemma keys_distinct_update: "keys_distinct m \<Longrightarrow> keys_distinct (AList.update k v m)"
  by (simp add: AList.distinct_update)

lemma map_of_filter_keys: "map_of (filter (\<lambda>(k, _). P k) m) k = (if P k then map_of m k else None)"
  by (induction m) auto

declare map_of_eq_Some_iff [simp del]

lemmas alist_lookup [simp] = AList.update_conv' AList.delete_conv'

end
