(* ===== verification/Wire_Types.thy ===== *)
theory Wire_Types
  imports Prelude
begin

text \<open>
  The crate-wide types of \<^verbatim>\<open>src/lib.rs\<close>: identities, message types, the streaming header
  and the error type; and the socket addresses of the standard library that the address
  filters and the discovery tables use as keys.

  Diagnostic texts carried by errors are not modelled: an \<open>io::Error\<close> is its kind. Ed25519
  validity of key bytes belongs to the crate \<^verbatim>\<open>ed25519-dalek\<close> and is a parameter
  (\<open>valid_key\<close>) of the constructors that check it.
\<close>

subsection \<open>Socket addresses\<close>

datatype SocketAddr =
    SocketAddrV4 u32 u16
  | SocketAddrV6 u128 u16 u32 u32

text \<open>The derived order of \<open>std::net::SocketAddr\<close>: IPv4 before IPv6, then the fields in turn.\<close>

fun socket_key :: "SocketAddr \<Rightarrow> nat list" where
  "socket_key (SocketAddrV4 ip port) = [0, unat ip, unat port]"
| "socket_key (SocketAddrV6 ip port flow scope) = [1, unat ip, unat port, unat flow, unat scope]"

lemma socket_key_inj: "socket_key a = socket_key b \<Longrightarrow> a = b"
  by (cases a; cases b) (simp_all add: word_unat_eq_iff)

instantiation SocketAddr :: linorder
begin

definition less_eq_SocketAddr :: "SocketAddr \<Rightarrow> SocketAddr \<Rightarrow> bool" where
  "less_eq_SocketAddr a b = (socket_key a \<le> socket_key b)"

definition less_SocketAddr :: "SocketAddr \<Rightarrow> SocketAddr \<Rightarrow> bool" where
  "less_SocketAddr a b = (socket_key a < socket_key b)"

instance
  by intro_classes
    (auto simp: less_eq_SocketAddr_def less_SocketAddr_def intro: socket_key_inj)

end

subsection \<open>Identities\<close>

text \<open>\<open>PublicKey\<close> (alias \<open>GossipNodeId\<close>) and \<open>PeerId\<close>: 32 bytes of an Ed25519 public key.\<close>

datatype PublicKey = PublicKey (key_bytes: "byte list")

datatype PeerId = PeerId (peer_bytes: "byte list")

type_synonym GossipNodeId = PublicKey

text \<open>\<open>PublicKey\<close> derives \<open>Ord\<close>: the lexicographic order of its bytes.\<close>

instantiation PublicKey :: linorder
begin

definition less_eq_PublicKey :: "PublicKey \<Rightarrow> PublicKey \<Rightarrow> bool" where
  "less_eq_PublicKey a b = (key_bytes a \<le> key_bytes b)"

definition less_PublicKey :: "PublicKey \<Rightarrow> PublicKey \<Rightarrow> bool" where
  "less_PublicKey a b = (key_bytes a < key_bytes b)"

instance
  by intro_classes
    (auto simp: less_eq_PublicKey_def less_PublicKey_def intro: PublicKey.expand)

end

subsection \<open>Errors\<close>

datatype AskNackReason = UnknownActor | HandlerError | NoDispatcher | Backpressure | Unsupported

text \<open>
  An \<open>io::Error\<close> is its kind. \<open>OrderlyPeerClose\<close> is the kind \<open>UnexpectedEof\<close> carrying the
  marker of that name, which the reader tells apart from a truncated frame.
\<close>

datatype IoErrorKind =
    InvalidData | InvalidInput | ResourceBusy | QuotaExceeded | NotFound | BrokenPipe
  | AlreadyExists | WouldBlock | UnexpectedEof | OrderlyPeerClose
  | TimedOut | OtherIo

datatype GossipError =
    Network IoErrorKind
  | Serialization
  | MessageTooLarge usize usize
  | Timeout
  | ConnectionDropped
  | PeerNotFound SocketAddr
  | TlsError
  | TlsConfigError
  | ActorNotFound string
  | Shutdown
  | ConnectionClosed SocketAddr
  | WriteQueueFull
  | InvalidKeyPair
  | InvalidSignature
  | AuthenticationFailed
  | TlsHandshakeFailed
  | DeltaTooOld u64 u64
  | FullSyncRequired
  | ConnectionExists
  | ClientOnlyPeer PeerId
  | ActorAlreadyExists string
  | InvalidConfig
  | NonZeroCopyPath
  | CorrelationTrackerExhausted
  | AskNacked AskNackReason

type_synonym 'a result = "GossipError + 'a"

fun error_ask_nack_reason :: "GossipError \<Rightarrow> AskNackReason" where
  "error_ask_nack_reason (ActorNotFound _) = UnknownActor"
| "error_ask_nack_reason (AskNacked reason) = reason"
| "error_ask_nack_reason _ = HandlerError"

subsection \<open>Key and peer identity conversions\<close>

definition PublicKey_from_bytes :: "(byte list \<Rightarrow> bool) \<Rightarrow> byte list \<Rightarrow> PublicKey result" where
  "PublicKey_from_bytes valid_key bytes =
     (if length bytes \<noteq> 32 then Inl InvalidKeyPair
      else if \<not> valid_key bytes then Inl InvalidKeyPair
      else Inr (PublicKey bytes))"

definition PeerId_from_bytes :: "(byte list \<Rightarrow> bool) \<Rightarrow> byte list \<Rightarrow> PeerId result" where
  "PeerId_from_bytes valid_key bytes =
     (if length bytes \<noteq> 32 then Inl InvalidKeyPair
      else if \<not> valid_key bytes then Inl InvalidKeyPair
      else Inr (PeerId bytes))"

definition PeerId_from_public_key :: "PublicKey \<Rightarrow> PeerId" where
  "PeerId_from_public_key key = PeerId (key_bytes key)"

text \<open>Both conversions end in \<open>expect\<close>: \<open>None\<close> is the panic of a failed validation.\<close>

definition to_peer_id :: "(byte list \<Rightarrow> bool) \<Rightarrow> PublicKey \<Rightarrow> PeerId option" where
  "to_peer_id valid_key key =
     (case PeerId_from_bytes valid_key (key_bytes key) of Inl _ \<Rightarrow> None | Inr p \<Rightarrow> Some p)"

definition to_node_id :: "(byte list \<Rightarrow> bool) \<Rightarrow> PeerId \<Rightarrow> GossipNodeId option" where
  "to_node_id valid_key peer =
     (case PublicKey_from_bytes valid_key (peer_bytes peer) of Inl _ \<Rightarrow> None | Inr k \<Rightarrow> Some k)"

lemma PeerId_from_bytes_Inr:
  "PeerId_from_bytes v bs = Inr p \<longleftrightarrow> length bs = 32 \<and> v bs \<and> p = PeerId bs"
  by (auto simp: PeerId_from_bytes_def)

lemma PublicKey_from_bytes_Inr:
  "PublicKey_from_bytes v bs = Inr k \<longleftrightarrow> length bs = 32 \<and> v bs \<and> k = PublicKey bs"
  by (auto simp: PublicKey_from_bytes_def)

subsection \<open>Message types\<close>

datatype MessageType =
    MT_Gossip | MT_Ask | MT_Response | MT_ActorTell | MT_ActorAsk
  | MT_StreamStart | MT_StreamData | MT_StreamEnd
  | MT_StreamResponseStart | MT_StreamResponseData | MT_StreamResponseEnd
  | MT_DirectAsk | MT_DirectResponse | MT_PubSub

fun message_type_byte :: "MessageType \<Rightarrow> u8" where
  "message_type_byte MT_Gossip = 0"
| "message_type_byte MT_Ask = 1"
| "message_type_byte MT_Response = 2"
| "message_type_byte MT_ActorTell = 3"
| "message_type_byte MT_ActorAsk = 4"
| "message_type_byte MT_StreamStart = 0x10"
| "message_type_byte MT_StreamData = 0x11"
| "message_type_byte MT_StreamEnd = 0x12"
| "message_type_byte MT_StreamResponseStart = 0x13"
| "message_type_byte MT_StreamResponseData = 0x14"
| "message_type_byte MT_StreamResponseEnd = 0x15"
| "message_type_byte MT_DirectAsk = 0x20"
| "message_type_byte MT_DirectResponse = 0x21"
| "message_type_byte MT_PubSub = 0x30"

definition message_type_from_byte :: "u8 \<Rightarrow> MessageType option" where
  "message_type_from_byte b =
     (if b = 0 then Some MT_Gossip
      else if b = 1 then Some MT_Ask
      else if b = 2 then Some MT_Response
      else if b = 3 then Some MT_ActorTell
      else if b = 4 then Some MT_ActorAsk
      else if b = 0x10 then Some MT_StreamStart
      else if b = 0x11 then Some MT_StreamData
      else if b = 0x12 then Some MT_StreamEnd
      else if b = 0x13 then Some MT_StreamResponseStart
      else if b = 0x14 then Some MT_StreamResponseData
      else if b = 0x15 then Some MT_StreamResponseEnd
      else if b = 0x20 then Some MT_DirectAsk
      else if b = 0x21 then Some MT_DirectResponse
      else if b = 0x30 then Some MT_PubSub
      else None)"

definition is_streaming_response :: "MessageType \<Rightarrow> bool" where
  "is_streaming_response t \<longleftrightarrow>
     t \<in> {MT_StreamResponseStart, MT_StreamResponseData, MT_StreamResponseEnd}"

definition is_streaming_request :: "MessageType \<Rightarrow> bool" where
  "is_streaming_request t \<longleftrightarrow> t \<in> {MT_StreamStart, MT_StreamData, MT_StreamEnd}"

lemma message_type_byte_from_byte:
  "message_type_from_byte b = Some t \<longleftrightarrow> b = message_type_byte t"
  by (cases t) (auto simp: message_type_from_byte_def)

subsection \<open>Streaming header\<close>

record StreamHeader =
  sh_stream_id :: u64
  sh_total_size :: u64
  sh_chunk_size :: u32
  sh_chunk_index :: u32
  sh_type_hash :: u32
  sh_actor_id :: u64

definition STREAM_HEADER_SERIALIZED_SIZE :: usize where
  "STREAM_HEADER_SERIALIZED_SIZE = 8 + 8 + 4 + 4 + 4 + 8"

definition stream_header_to_bytes :: "StreamHeader \<Rightarrow> byte list" where
  "stream_header_to_bytes h =
     to_be_bytes 8 (sh_stream_id h) @ to_be_bytes 8 (sh_total_size h) @
     to_be_bytes 4 (sh_chunk_size h) @ to_be_bytes 4 (sh_chunk_index h) @
     to_be_bytes 4 (sh_type_hash h) @ to_be_bytes 8 (sh_actor_id h)"

definition stream_header_from_bytes :: "byte list \<Rightarrow> StreamHeader option" where
  "stream_header_from_bytes bytes =
     (if length bytes < STREAM_HEADER_SERIALIZED_SIZE then None
      else Some
        \<lparr> sh_stream_id = from_be_bytes (slice 0 8 bytes),
          sh_total_size = from_be_bytes (slice 8 16 bytes),
          sh_chunk_size = from_be_bytes (slice 16 20 bytes),
          sh_chunk_index = from_be_bytes (slice 20 24 bytes),
          sh_type_hash = from_be_bytes (slice 24 28 bytes),
          sh_actor_id = from_be_bytes (slice 28 36 bytes) \<rparr>)"

text \<open>A header survives serialization, whatever bytes follow it in the buffer.\<close>

lemma stream_header_roundtrip:
  "stream_header_from_bytes (stream_header_to_bytes h @ rest) = Some h"
  by (simp add: stream_header_from_bytes_def stream_header_to_bytes_def
      STREAM_HEADER_SERIALIZED_SIZE_def slice_def)

lemma stream_header_to_bytes_from_bytes:
  assumes "length bytes = STREAM_HEADER_SERIALIZED_SIZE"
    and "stream_header_from_bytes bytes = Some h"
  shows "stream_header_to_bytes h = bytes"
proof -
  have l: "length bytes = 36" using assms(1) by (simp add: STREAM_HEADER_SERIALIZED_SIZE_def)
  have "bytes = slice 0 8 bytes @ slice 8 16 bytes @ slice 16 20 bytes @ slice 20 24 bytes @
      slice 24 28 bytes @ slice 28 36 bytes"
    by (rule nth_equalityI) (auto simp: l nth_append nth_slice)
  moreover have "stream_header_to_bytes h = slice 0 8 bytes @ slice 8 16 bytes @
      slice 16 20 bytes @ slice 20 24 bytes @ slice 24 28 bytes @ slice 28 36 bytes"
    using assms(2) l
    by (auto simp: stream_header_from_bytes_def stream_header_to_bytes_def
        STREAM_HEADER_SERIALIZED_SIZE_def to_from_be_bytes)
  ultimately show ?thesis by simp
qed

end
