(* ===== verification/Aligned.thy ===== *)
theory Aligned
  imports Wire_Types
begin

text \<open>
  Aligned receive buffers and their pool, \<^verbatim>\<open>src/aligned.rs\<close>. A buffer is the block it
  occupies, its capacity and its initialized bytes. Allocation belongs to \<open>rkyv::AlignedVec\<close>:
  \<open>with_capacity\<close> and \<open>reserve\<close> are the fields of an \<open>allocator\<close> passed to the operations
  that allocate, and \<open>allocator_ok\<close> states what its documentation promises.

  The lemmas show the accounting of the pool (the retained-bytes counter is the sum of the
  idle capacities and stays within the budget, the queue within its capacity), that a buffer
  taken from the pool holds no bytes of its previous use, and when a payload view is
  accepted.
\<close>

subsection \<open>Buffers\<close>

definition PAYLOAD_ALIGNMENT :: usize where "PAYLOAD_ALIGNMENT = 16"
definition DEFAULT_ALIGNED_POOL_SIZE :: usize where "DEFAULT_ALIGNED_POOL_SIZE = 64"
definition MAX_POOLED_ALIGNED_CAPACITY :: usize where
  "MAX_POOLED_ALIGNED_CAPACITY = 8 * 1024 * 1024"
definition DEFAULT_ALIGNED_BUFFER_CAPACITY :: usize where "DEFAULT_ALIGNED_BUFFER_CAPACITY = 256"
definition DEFAULT_ALIGNED_POOL_BYTE_BUDGET :: usize where
  "DEFAULT_ALIGNED_POOL_BYTE_BUDGET = 64 * 1024 * 1024"

text \<open>
  The address of an \<open>AlignedVec<16>\<close> is a multiple of the alignment, except that a vector
  without allocation holds the dangling address 1.
\<close>

record AlignedBuffer =
  ab_block :: nat
  ab_capacity :: usize
  ab_data :: "byte list"

definition ab_addr :: "AlignedBuffer \<Rightarrow> nat" where
  "ab_addr b = (if ab_capacity b = 0 then 1 else PAYLOAD_ALIGNMENT * ab_block b)"

record allocator =
  al_with_capacity :: "usize \<Rightarrow> AlignedBuffer"
  al_reserve :: "usize \<Rightarrow> AlignedBuffer \<Rightarrow> AlignedBuffer"

text \<open>
  \<open>with_capacity\<close> gives an empty vector with room for the request; \<open>reserve\<close> makes room
  for that many more bytes and keeps the contents.
\<close>

definition allocator_ok :: "allocator \<Rightarrow> bool" where
  "allocator_ok al \<longleftrightarrow>
     (\<forall>n. ab_data (al_with_capacity al n) = [] \<and> n \<le> ab_capacity (al_with_capacity al n)) \<and>
     (\<forall>n b. ab_data (al_reserve al n b) = ab_data b \<and>
          length (ab_data b) + n \<le> ab_capacity (al_reserve al n b))"

definition buffer_clear :: "AlignedBuffer \<Rightarrow> AlignedBuffer" where
  "buffer_clear b = b \<lparr> ab_data := [] \<rparr>"

text \<open>\<open>AlignedVec::resize\<close>, for a length within the capacity.\<close>

definition buffer_resize :: "usize \<Rightarrow> byte \<Rightarrow> AlignedBuffer \<Rightarrow> AlignedBuffer" where
  "buffer_resize len v b =
     b \<lparr> ab_data := take len (ab_data b) @ replicate (len - length (ab_data b)) v \<rparr>"

subsection \<open>The pool\<close>

record AlignedBytesPool =
  pool_queue :: "AlignedBuffer list"
  pool_queue_cap :: usize
  pool_retained :: usize
  pool_budget :: usize

text \<open>The compare-and-swap loops of the reservation counter as single atomic steps.\<close>

definition pool_try_reserve :: "usize \<Rightarrow> AlignedBytesPool \<Rightarrow> bool \<times> AlignedBytesPool" where
  "pool_try_reserve bytes p =
     (case checked_add (pool_retained p) bytes of
        None \<Rightarrow> (False, p)
      | Some next \<Rightarrow>
          if next > pool_budget p then (False, p)
          else (True, p \<lparr> pool_retained := next \<rparr>))"

definition release_reservation :: "usize \<Rightarrow> AlignedBytesPool \<Rightarrow> AlignedBytesPool" where
  "release_reservation bytes p = p \<lparr> pool_retained := pool_retained p - bytes \<rparr>"

text \<open>The bounded lock-free queue: a full queue refuses the push.\<close>

definition queue_push :: "AlignedBuffer \<Rightarrow> AlignedBytesPool \<Rightarrow> bool \<times> AlignedBytesPool" where
  "queue_push b p =
     (if length (pool_queue p) < pool_queue_cap p
      then (True, p \<lparr> pool_queue := pool_queue p @ [b] \<rparr>) else (False, p))"

fun pool_fill :: "allocator \<Rightarrow> nat \<Rightarrow> AlignedBytesPool \<Rightarrow> AlignedBytesPool" where
  "pool_fill al 0 p = p"
| "pool_fill al (Suc n) p =
     (let buffer = al_with_capacity al DEFAULT_ALIGNED_BUFFER_CAPACITY;
          cap = ab_capacity buffer
      in case pool_try_reserve cap p of
           (False, p) \<Rightarrow> p
         | (True, p) \<Rightarrow>
             (case queue_push buffer p of
                (False, p) \<Rightarrow> release_reservation cap p
              | (True, p) \<Rightarrow> pool_fill al n p))"

definition new_with_budget :: "allocator \<Rightarrow> usize \<Rightarrow> usize \<Rightarrow> AlignedBytesPool" where
  "new_with_budget al pool_size budget =
     pool_fill al pool_size
       \<lparr> pool_queue = [], pool_queue_cap = max pool_size 1, pool_retained = 0,
         pool_budget = budget \<rparr>"

definition pool_new :: "allocator \<Rightarrow> usize \<Rightarrow> AlignedBytesPool" where
  "pool_new al pool_size = new_with_budget al pool_size DEFAULT_ALIGNED_POOL_BYTE_BUDGET"

definition get_buffer :: "allocator \<Rightarrow> usize \<Rightarrow> AlignedBytesPool \<Rightarrow> AlignedBuffer \<times> AlignedBytesPool" where
  "get_buffer al min_capacity p =
     (case pool_queue p of
        buffer # rest \<Rightarrow>
          let p = release_reservation (ab_capacity buffer) (p \<lparr> pool_queue := rest \<rparr>);
              buffer = (if ab_capacity buffer < min_capacity
                        then al_reserve al (min_capacity - length (ab_data buffer)) buffer
                        else buffer)
          in (buffer_clear buffer, p)
      | [] \<Rightarrow> (buffer_clear (al_with_capacity al min_capacity), p))"

definition return_buffer :: "AlignedBuffer \<Rightarrow> AlignedBytesPool \<Rightarrow> AlignedBytesPool" where
  "return_buffer buffer p =
     (let buffer = buffer_clear buffer;
          cap = ab_capacity buffer
      in if cap > MAX_POOLED_ALIGNED_CAPACITY then p
         else case pool_try_reserve cap p of
                (False, p) \<Rightarrow> p
              | (True, p) \<Rightarrow>
                  (case queue_push buffer p of
                     (True, p) \<Rightarrow> p
                   | (False, p) \<Rightarrow> release_reservation cap p))"

definition available_count :: "AlignedBytesPool \<Rightarrow> usize" where
  "available_count p = length (pool_queue p)"

subsection \<open>Pooled buffers and payload views\<close>

text \<open>
  A \<open>PooledAlignedBuffer\<close> is its buffer; the pool is threaded, and dropping one is
  \<open>return_buffer\<close>.
\<close>

definition with_len :: "allocator \<Rightarrow> usize \<Rightarrow> AlignedBytesPool \<Rightarrow> AlignedBuffer \<times> AlignedBytesPool" where
  "with_len al len p =
     (let (buffer, p) = get_buffer al len p in
      (if length (ab_data buffer) \<noteq> len then buffer_resize len 0 buffer else buffer, p))"

definition pooled_from_slice ::
  "allocator \<Rightarrow> byte list \<Rightarrow> AlignedBytesPool \<Rightarrow> AlignedBuffer \<times> AlignedBytesPool" where
  "pooled_from_slice al data p =
     (let (buffer, p) = get_buffer al (length data) p in
      (buffer \<lparr> ab_data := ab_data buffer @ data \<rparr>, p))"

definition pooled_truncate :: "usize \<Rightarrow> AlignedBuffer \<Rightarrow> AlignedBuffer" where
  "pooled_truncate len b =
     (let new_len = min len (length (ab_data b)) in
      if length (ab_data b) > new_len then buffer_resize new_len 0 b else b)"

datatype AlignedBytesInner =
    InnerBytes nat "byte list"
  | InnerPooled AlignedBuffer

record AlignedBytes =
  aby_inner :: AlignedBytesInner
  aby_offset :: usize
  aby_len :: usize

definition AlignedBytes_from_bytes :: "nat \<Rightarrow> byte list \<Rightarrow> AlignedBytes result" where
  "AlignedBytes_from_bytes addr data =
     (if addr mod PAYLOAD_ALIGNMENT \<noteq> 0 then Inl (Network InvalidData)
      else Inr \<lparr> aby_inner = InnerBytes addr data, aby_offset = 0, aby_len = length data \<rparr>)"

definition from_pooled_buffer_range :: "AlignedBuffer \<Rightarrow> usize \<Rightarrow> usize \<Rightarrow> AlignedBytes result" where
  "from_pooled_buffer_range buffer offset len =
     (let buf_len = length (ab_data buffer);
          stop = saturating_add offset len
      in if stop > buf_len then Inl (Network InvalidData)
         else if len = 0
         then Inr \<lparr> aby_inner = InnerPooled buffer, aby_offset = offset, aby_len = 0 \<rparr>
         else if (ab_addr buffer + offset) mod PAYLOAD_ALIGNMENT \<noteq> 0 then Inl (Network InvalidData)
         else Inr \<lparr> aby_inner = InnerPooled buffer, aby_offset = offset, aby_len = len \<rparr>)"

definition AlignedBytes_from_pooled_buffer :: "AlignedBuffer \<Rightarrow> AlignedBytes option" where
  "AlignedBytes_from_pooled_buffer buffer =
     expect (from_pooled_buffer_range buffer 0 (length (ab_data buffer)))"

definition AlignedBytes_as_ref :: "AlignedBytes \<Rightarrow> byte list" where
  "AlignedBytes_as_ref a =
     (case aby_inner a of
        InnerBytes _ data \<Rightarrow> data
      | InnerPooled buffer \<Rightarrow> slice (aby_offset a) (aby_offset a + aby_len a) (ab_data buffer))"

subsection \<open>Payload views\<close>

lemma ab_addr_aligned: "0 < ab_capacity b \<Longrightarrow> ab_addr b mod PAYLOAD_ALIGNMENT = 0"
  by (simp add: ab_addr_def)

lemma from_pooled_buffer_range_ok:
  assumes "offset + len \<le> length (ab_data b)" "length (ab_data b) \<le> USIZE_MAX"
    "0 < ab_capacity b" "offset mod PAYLOAD_ALIGNMENT = 0"
  shows "from_pooled_buffer_range b offset len =
    Inr \<lparr> aby_inner = InnerPooled b, aby_offset = offset, aby_len = len \<rparr>"
proof -
  have "(ab_addr b + offset) mod PAYLOAD_ALIGNMENT = 0"
    using assms(3,4) by (metis ab_addr_aligned add_0 mod_add_eq mod_0)
  with assms(1,2) show ?thesis
    by (simp add: from_pooled_buffer_range_def saturating_add_def Let_def)
qed

lemma from_pooled_buffer_range_view:
  assumes "from_pooled_buffer_range b offset len = Inr a"
  shows "AlignedBytes_as_ref a = slice offset (offset + len) (ab_data b)"
    and "aby_len a = len"
  using assms by (auto simp: from_pooled_buffer_range_def Let_def AlignedBytes_as_ref_def
      split: if_splits)

lemma from_pooled_buffer_range_error:
  "from_pooled_buffer_range b offset len = Inl e \<Longrightarrow> e = Network InvalidData"
  by (auto simp: from_pooled_buffer_range_def Let_def split: if_splits)

subsection \<open>Pool accounting\<close>

definition pool_inv :: "AlignedBytesPool \<Rightarrow> bool" where
  "pool_inv p \<longleftrightarrow>
     pool_retained p = sum_list (map ab_capacity (pool_queue p)) \<and>
     pool_retained p \<le> pool_budget p \<and>
     length (pool_queue p) \<le> pool_queue_cap p \<and>
     (\<forall>b \<in> set (pool_queue p). ab_data b = [])"

lemma pool_inv_get_buffer:
  "pool_inv p \<Longrightarrow> pool_inv (snd (get_buffer al n p))"
  by (auto simp: pool_inv_def get_buffer_def release_reservation_def Let_def split: list.split)

text \<open>Offering a buffer to the pool: the body both \<open>return_buffer\<close> and \<open>pool_fill\<close> run.\<close>

lemma pool_offer_cases:
  assumes "pool_inv p" "ab_data b = []"
  obtains (refused) "pool_try_reserve (ab_capacity b) p = (False, p)"
  | (full) q where "pool_try_reserve (ab_capacity b) p = (True, q)" "queue_push b q = (False, q)"
      "release_reservation (ab_capacity b) q = p"
  | (kept) q r where "pool_try_reserve (ab_capacity b) p = (True, q)" "queue_push b q = (True, r)"
      "pool_inv r" "pool_queue r = pool_queue p @ [b]" "pool_budget r = pool_budget p"
      "pool_queue_cap r = pool_queue_cap p"
proof (cases "pool_retained p + ab_capacity b \<le> USIZE_MAX \<and>
    pool_retained p + ab_capacity b \<le> pool_budget p")
  case True
  let ?q = "p \<lparr> pool_retained := pool_retained p + ab_capacity b \<rparr>"
  have q: "pool_try_reserve (ab_capacity b) p = (True, ?q)"
    using True by (simp add: pool_try_reserve_def checked_add_def)
  show ?thesis
  proof (cases "length (pool_queue p) < pool_queue_cap p")
    case room: True
    show ?thesis
      by (rule kept [OF q, of "?q \<lparr> pool_queue := pool_queue p @ [b] \<rparr>"])
        (use room True assms in \<open>auto simp: queue_push_def pool_inv_def\<close>)
  next
    case False
    show ?thesis
      by (rule full [OF q]) (use False in \<open>auto simp: queue_push_def release_reservation_def\<close>)
  qed
next
  case False
  then show ?thesis
    by (intro refused) (auto simp: pool_try_reserve_def checked_add_def)
qed

lemma pool_inv_return_buffer: "pool_inv p \<Longrightarrow> pool_inv (return_buffer b p)"
  by (rule pool_offer_cases [of p "buffer_clear b"])
    (auto simp: return_buffer_def Let_def buffer_clear_def)

lemma pool_inv_pool_fill:
  "allocator_ok al \<Longrightarrow> pool_inv p \<Longrightarrow> pool_inv (pool_fill al n p)"
proof (induction n arbitrary: p)
  case (Suc n)
  have e: "ab_data (al_with_capacity al DEFAULT_ALIGNED_BUFFER_CAPACITY) = []"
    using Suc.prems(1) by (simp add: allocator_ok_def)
  show ?case
    by (rule pool_offer_cases [OF Suc.prems(2) e])
      (use Suc in \<open>auto simp: Let_def\<close>)
qed simp

lemma pool_inv_new_with_budget: "allocator_ok al \<Longrightarrow> pool_inv (new_with_budget al n budget)"
  unfolding new_with_budget_def by (rule pool_inv_pool_fill) (simp_all add: pool_inv_def)

datatype pool_op = GetBuffer usize | ReturnBuffer AlignedBuffer

fun pool_step :: "allocator \<Rightarrow> pool_op \<Rightarrow> AlignedBytesPool \<Rightarrow> AlignedBytesPool" where
  "pool_step al (GetBuffer n) p = snd (get_buffer al n p)"
| "pool_step al (ReturnBuffer b) p = return_buffer b p"

interpretation pool: invariant_ops pool_inv "pool_step al" for al
  by unfold_locales (metis pool_inv_get_buffer pool_inv_return_buffer pool_op.exhaust pool_step.simps)

subsection \<open>Buffers handed out\<close>

lemma get_buffer_empty: "ab_data (fst (get_buffer al n p)) = []"
  by (auto simp: get_buffer_def buffer_clear_def Let_def split: list.split)

lemma get_buffer_capacity:
  assumes "allocator_ok al" "pool_inv p"
  shows "n \<le> ab_capacity (fst (get_buffer al n p))"
proof (cases "pool_queue p")
  case Nil
  then show ?thesis using assms by (simp add: get_buffer_def buffer_clear_def allocator_ok_def)
next
  case (Cons b bs)
  have "length (ab_data b) + (n - length (ab_data b))
      \<le> ab_capacity (al_reserve al (n - length (ab_data b)) b)"
    using assms(1) by (auto simp: allocator_ok_def)
  moreover have "ab_data b = []" using assms(2) Cons by (simp add: pool_inv_def)
  ultimately show ?thesis
    by (simp add: get_buffer_def buffer_clear_def Let_def Cons)
qed

lemma with_len_data: "ab_data (fst (with_len al n p)) = replicate n 0"
  using get_buffer_empty [of al n p]
  by (auto simp: with_len_def buffer_resize_def split: prod.split)

lemma pooled_from_slice_data: "ab_data (fst (pooled_from_slice al data p)) = data"
  using get_buffer_empty [of al "length data" p]
  by (auto simp: pooled_from_slice_def split: prod.split)

lemma pooled_truncate_data: "ab_data (pooled_truncate n b) = take n (ab_data b)"
  by (auto simp: pooled_truncate_def Let_def buffer_resize_def min_def)

subsection \<open>Correctness\<close>

text \<open>
  C8. The receive pool accounts exactly for what it retains: after any sequence of takes and
  returns, by any buffers and request sizes, the counter is the sum of the idle capacities,
  stays within the budget, and the queue within its capacity.
\<close>

theorem pool_accounting_exact:
  assumes "allocator_ok al"
  shows "let p = fold (pool_step al) ops (new_with_budget al pool_size budget)
    in pool_retained p = sum_list (map ab_capacity (pool_queue p)) \<and>
       pool_retained p \<le> budget \<and> available_count p \<le> max pool_size 1"
proof -
  have caps: "pool_budget (pool_step al x p) = pool_budget p \<and>
      pool_queue_cap (pool_step al x p) = pool_queue_cap p" for x p
    by (cases x) (auto simp: get_buffer_def return_buffer_def Let_def pool_try_reserve_def
        queue_push_def release_reservation_def split: list.split option.split)
  have fill: "pool_budget (pool_fill al n p) = pool_budget p \<and>
      pool_queue_cap (pool_fill al n p) = pool_queue_cap p" for n p
    by (induction n arbitrary: p) (auto simp: Let_def pool_try_reserve_def queue_push_def
        release_reservation_def split: option.split)
  let ?p0 = "new_with_budget al pool_size budget"
  have "pool_budget (fold (pool_step al) ops p) = pool_budget p \<and>
      pool_queue_cap (fold (pool_step al) ops p) = pool_queue_cap p" for p
    by (induction ops arbitrary: p) (simp_all add: caps)
  moreover have "pool_budget ?p0 = budget" "pool_queue_cap ?p0 = max pool_size 1"
    by (simp_all add: new_with_budget_def fill)
  moreover have "pool_inv (fold (pool_step al) ops ?p0)"
    by (rule pool.inv_fold [OF pool_inv_new_with_budget [OF assms]])
  ultimately show ?thesis by (simp add: pool_inv_def Let_def available_count_def)
qed

theorem pool_accounting_exact_witness:
  "let al = \<lparr> al_with_capacity = (\<lambda>n. \<lparr> ab_block = 1, ab_capacity = n, ab_data = [] \<rparr>),
             al_reserve = (\<lambda>n b. b \<lparr> ab_capacity := length (ab_data b) + n \<rparr>) \<rparr>;
       big = \<lparr> ab_block = 2, ab_capacity = 1024, ab_data = [1] \<rparr>;
       p = fold (pool_step al) [GetBuffer 10, ReturnBuffer big] (new_with_budget al 2 1500)
   in allocator_ok al \<and> pool_retained p = sum_list (map ab_capacity (pool_queue p)) \<and>
      pool_retained p \<le> 1500 \<and> available_count p \<le> 2"
proof -
  let ?al = "\<lparr> al_with_capacity = (\<lambda>n. \<lparr> ab_block = 1, ab_capacity = n, ab_data = [] \<rparr>),
    al_reserve = (\<lambda>n b. b \<lparr> ab_capacity := length (ab_data b) + n \<rparr>) \<rparr>"
  have al: "allocator_ok ?al" by (simp add: allocator_ok_def)
  have m: "max 2 1 = (2 :: nat)" by simp
  from pool_accounting_exact [OF al, of "[GetBuffer 10, ReturnBuffer
      \<lparr> ab_block = 2, ab_capacity = 1024, ab_data = [1] \<rparr>]" 2 1500] al
  show ?thesis unfolding Let_def m by blast
qed

text \<open>
  C15. A receive buffer carries nothing over: a buffer taken for a frame has exactly the
  requested length, is zeroed whatever its previous user left in it, lies at an address whose
  payload offsets are aligned, and taking it keeps the pool's accounting.
\<close>

theorem receive_buffer_is_clean:
  assumes "allocator_ok al" "pool_inv p" "0 < n"
  shows "case with_len al n p of (b, p') \<Rightarrow>
    ab_data b = replicate n 0 \<and> ab_addr b mod PAYLOAD_ALIGNMENT = 0 \<and> pool_inv p'"
proof -
  obtain b p' where w: "with_len al n p = (b, p')" by (rule prod.exhaust)
  have "n \<le> ab_capacity b"
    using get_buffer_capacity [OF assms(1,2), of n] w
    by (auto simp: with_len_def buffer_resize_def split: prod.splits if_splits)
  moreover have "pool_inv p'"
    using pool_inv_get_buffer [OF assms(2), of al n] w by (auto simp: with_len_def split: prod.splits)
  moreover have "ab_data b = replicate n 0" using with_len_data [of al n p] w by simp
  ultimately show ?thesis using assms(3) by (simp add: w ab_addr_aligned)
qed

theorem receive_buffer_is_clean_witness:
  "let al = \<lparr> al_with_capacity = (\<lambda>n. \<lparr> ab_block = 1, ab_capacity = n, ab_data = [] \<rparr>),
             al_reserve = (\<lambda>n b. b \<lparr> ab_capacity := length (ab_data b) + n \<rparr>) \<rparr>;
       p = return_buffer \<lparr> ab_block = 2, ab_capacity = 8, ab_data = [9, 9] \<rparr>
             (new_with_budget al 0 100)
   in allocator_ok al \<and> pool_inv p \<and> ab_data (fst (with_len al 3 p)) = replicate 3 0"
proof -
  let ?al = "\<lparr> al_with_capacity = (\<lambda>n. \<lparr> ab_block = 1, ab_capacity = n, ab_data = [] \<rparr>),
    al_reserve = (\<lambda>n b. b \<lparr> ab_capacity := length (ab_data b) + n \<rparr>) \<rparr>"
  let ?p = "return_buffer \<lparr> ab_block = 2, ab_capacity = 8, ab_data = [9, 9] \<rparr>
    (new_with_budget ?al 0 100)"
  have al: "allocator_ok ?al" by (simp add: allocator_ok_def)
  have p: "pool_inv ?p" by (rule pool_inv_return_buffer [OF pool_inv_new_with_budget [OF al]])
  show ?thesis
    using receive_buffer_is_clean [OF al p, of 3] al p
    unfolding Let_def by (auto split: prod.splits)
qed

end
