(* ===== verification/Correlation.thy ===== *)
theory Correlation
  imports Aligned
begin

text \<open>
  The correlation tracker of \<^verbatim>\<open>src/connection_pool/correlation.rs\<close>: the ring of response
  slots that pairs an ask with its reply. Every thread that touches a slot is a small program
  of atomic accesses (\<open>pc\<close>), and \<open>thread_step\<close> executes the next one; the world interleaves the
  threads in any order. A compare-and-swap, a load or a store of an atomic is one access; the
  identifier and the response cell are only written while the slot is \<open>SLOT_WRITING\<close>, so the
  check of the identifier and the use of the response are one access. The registration gate
  makes the wake and the install of \<open>allocate\<close> one access and the check and the registration of
  \<open>register_if_owner\<close> another. An \<open>AtomicWaker\<close> holds the thread registered last; waking takes
  it. An executor polls a parked waiter only after it was woken.

  The boxed slice of slots is a function on indices; the ids are the wrapping 32-bit counter.
\<close>

subsection \<open>Outcomes\<close>

definition PENDING_RESPONSES_SIZE :: usize where "PENDING_RESPONSES_SIZE = 8192"
definition PENDING_RESPONSES_MASK :: usize where "PENDING_RESPONSES_MASK = PENDING_RESPONSES_SIZE - 1"

definition SLOT_EMPTY :: u8 where "SLOT_EMPTY = 0"
definition SLOT_WAITING :: u8 where "SLOT_WAITING = 1"
definition SLOT_WRITING :: u8 where "SLOT_WRITING = 2"
definition SLOT_READY :: u8 where "SLOT_READY = 3"

lemma slot_states_distinct [simp]:
  "SLOT_EMPTY \<noteq> SLOT_WAITING" "SLOT_WAITING \<noteq> SLOT_EMPTY" "SLOT_EMPTY \<noteq> SLOT_WRITING"
  "SLOT_WRITING \<noteq> SLOT_EMPTY" "SLOT_EMPTY \<noteq> SLOT_READY" "SLOT_READY \<noteq> SLOT_EMPTY"
  "SLOT_WAITING \<noteq> SLOT_WRITING" "SLOT_WRITING \<noteq> SLOT_WAITING" "SLOT_WAITING \<noteq> SLOT_READY"
  "SLOT_READY \<noteq> SLOT_WAITING" "SLOT_WRITING \<noteq> SLOT_READY" "SLOT_READY \<noteq> SLOT_WRITING"
  by (simp_all add: SLOT_EMPTY_def SLOT_WAITING_def SLOT_WRITING_def SLOT_READY_def)

datatype CorrelationOutcome =
    Response AlignedBytes
  | Attributed AlignedBytes PeerId
  | Nack AskNackReason

fun into_result :: "CorrelationOutcome \<Rightarrow> AlignedBytes result" where
  "into_result (Response bytes) = Inr bytes"
| "into_result (Attributed bytes peer) = Inr bytes"
| "into_result (Nack reason) = Inl (AskNacked reason)"

fun into_attributed_result :: "CorrelationOutcome \<Rightarrow> (PeerId \<times> AlignedBytes) result" where
  "into_attributed_result (Attributed bytes peer) = Inr (peer, bytes)"
| "into_attributed_result (Response bytes) = Inl AuthenticationFailed"
| "into_attributed_result (Nack reason) = Inl (AskNacked reason)"

subsection \<open>The tracker\<close>

record PendingResponseSlot =
  slot_state :: u8
  slot_id :: u32
  slot_response :: "CorrelationOutcome option"
  slot_waker :: "nat option"

record CorrelationTracker =
  next_id :: u32
  pending :: "usize \<Rightarrow> PendingResponseSlot"

definition slot_index :: "u32 \<Rightarrow> usize" where
  "slot_index correlation_id = unat correlation_id AND PENDING_RESPONSES_MASK"

definition CorrelationTracker_new :: CorrelationTracker where
  "CorrelationTracker_new =
     \<lparr>next_id = 1,
      pending = (\<lambda>_. \<lparr>slot_state = SLOT_EMPTY, slot_id = 0, slot_response = None, slot_waker = None\<rparr>)\<rparr>"

text \<open>The outcome \<open>complete_attributed\<close> publishes for the response it was given, if any.\<close>

definition completion_outcome :: "AlignedBytes option \<Rightarrow> PeerId option \<Rightarrow> CorrelationOutcome option" where
  "completion_outcome response completed_by =
     map_option (\<lambda>bytes. case completed_by of
                           Some peer \<Rightarrow> Attributed bytes peer
                         | None \<Rightarrow> Response bytes) response"

subsection \<open>Programs\<close>

text \<open>
  The attempts of \<open>try_take_ready\<close> in a poll: before and after the registration, and after
  the timeout.
\<close>

datatype phase = First | Second | Late

text \<open>
  The next access of a thread: \<open>A\<close> of \<open>allocate\<close>, \<open>C\<close> of a completion, \<open>W\<close> of a wait (the flag
  says whether a timeout is armed), \<open>X\<close> of \<open>cancel\<close>, \<open>K\<close> of \<open>cancel_all\<close> at a slot. \<open>Undefined\<close> is
  reading or dropping a response cell that holds no response, undefined behaviour of Rust.
\<close>

datatype allocate_pc =
    Allocate_Next nat
  | Allocate_Claim u32 nat
  | Allocate_Install u32
  | Allocate_Publish u32
  | Allocate_Allocated "u32 option"

datatype complete_pc =
    Complete_Claim u32 "CorrelationOutcome option"
  | Complete_Check u32 "CorrelationOutcome option"
  | Complete_Restore u32 "CorrelationOutcome option"
  | Complete_Ready u32 CorrelationOutcome
  | Complete_Empty u32
  | Complete_Wake u32 "CorrelationOutcome option"
  | Complete_Done u32 "CorrelationOutcome option" bool

datatype wait_pc =
    Wait_Claim u32 phase bool
  | Wait_Check u32
  | Wait_Restore u32
  | Wait_Foreign u32
  | Wait_Release u32 CorrelationOutcome
  | Wait_Load u32 phase bool
  | Wait_Register u32 bool
  | Wait_Parked u32 bool
  | Wait_TimeoutClaim u32
  | Wait_TimeoutCheck u32
  | Wait_TimeoutRestore u32
  | Wait_TimeoutEmpty u32
  | Wait_Done u32 "CorrelationOutcome result"

datatype cancel_pc =
    Cancel_Load u32
  | Cancel_ClaimWaiting u32
  | Cancel_CheckWaiting u32
  | Cancel_RestoreWaiting u32
  | Cancel_ClaimReady u32
  | Cancel_CheckReady u32
  | Cancel_RestoreReady u32
  | Cancel_Empty u32
  | Cancel_Wake u32
  | Cancel_Done u32

datatype cancel_all_pc =
    CancelAll_Load usize
  | CancelAll_ClaimWaiting usize
  | CancelAll_ClaimReady usize
  | CancelAll_Drop usize
  | CancelAll_Empty usize
  | CancelAll_Wake usize
  | CancelAll_Done

datatype pc =
    Allocate allocate_pc
  | Complete complete_pc
  | Wait wait_pc
  | Cancel cancel_pc
  | CancelAll cancel_all_pc
  | Undefined

abbreviation ANext where "ANext a \<equiv> Allocate (Allocate_Next a)"
abbreviation ACas where "ACas a b \<equiv> Allocate (Allocate_Claim a b)"
abbreviation AInstall where "AInstall a \<equiv> Allocate (Allocate_Install a)"
abbreviation APublish where "APublish a \<equiv> Allocate (Allocate_Publish a)"
abbreviation ADone where "ADone a \<equiv> Allocate (Allocate_Allocated a)"
abbreviation CClaim where "CClaim a b \<equiv> Complete (Complete_Claim a b)"
abbreviation CCheck where "CCheck a b \<equiv> Complete (Complete_Check a b)"
abbreviation CRestore where "CRestore a b \<equiv> Complete (Complete_Restore a b)"
abbreviation CReady where "CReady a b \<equiv> Complete (Complete_Ready a b)"
abbreviation CEmpty where "CEmpty a \<equiv> Complete (Complete_Empty a)"
abbreviation CWake where "CWake a b \<equiv> Complete (Complete_Wake a b)"
abbreviation CDone where "CDone a b c \<equiv> Complete (Complete_Done a b c)"
abbreviation WClaim where "WClaim a b c \<equiv> Wait (Wait_Claim a b c)"
abbreviation WCheck where "WCheck a \<equiv> Wait (Wait_Check a)"
abbreviation WRestore where "WRestore a \<equiv> Wait (Wait_Restore a)"
abbreviation WForeign where "WForeign a \<equiv> Wait (Wait_Foreign a)"
abbreviation WRelease where "WRelease a b \<equiv> Wait (Wait_Release a b)"
abbreviation WLoad where "WLoad a b c \<equiv> Wait (Wait_Load a b c)"
abbreviation WRegister where "WRegister a b \<equiv> Wait (Wait_Register a b)"
abbreviation WParked where "WParked a b \<equiv> Wait (Wait_Parked a b)"
abbreviation WTimeoutCas where "WTimeoutCas a \<equiv> Wait (Wait_TimeoutClaim a)"
abbreviation WTimeoutCheck where "WTimeoutCheck a \<equiv> Wait (Wait_TimeoutCheck a)"
abbreviation WTimeoutRestore where "WTimeoutRestore a \<equiv> Wait (Wait_TimeoutRestore a)"
abbreviation WTimeoutEmpty where "WTimeoutEmpty a \<equiv> Wait (Wait_TimeoutEmpty a)"
abbreviation WDone where "WDone a b \<equiv> Wait (Wait_Done a b)"
abbreviation XLoad where "XLoad a \<equiv> Cancel (Cancel_Load a)"
abbreviation XCasW where "XCasW a \<equiv> Cancel (Cancel_ClaimWaiting a)"
abbreviation XCheckW where "XCheckW a \<equiv> Cancel (Cancel_CheckWaiting a)"
abbreviation XRestoreW where "XRestoreW a \<equiv> Cancel (Cancel_RestoreWaiting a)"
abbreviation XCasR where "XCasR a \<equiv> Cancel (Cancel_ClaimReady a)"
abbreviation XCheckR where "XCheckR a \<equiv> Cancel (Cancel_CheckReady a)"
abbreviation XRestoreR where "XRestoreR a \<equiv> Cancel (Cancel_RestoreReady a)"
abbreviation XEmpty where "XEmpty a \<equiv> Cancel (Cancel_Empty a)"
abbreviation XWake where "XWake a \<equiv> Cancel (Cancel_Wake a)"
abbreviation XDone where "XDone a \<equiv> Cancel (Cancel_Done a)"
abbreviation KLoad where "KLoad a \<equiv> CancelAll (CancelAll_Load a)"
abbreviation KCasW where "KCasW a \<equiv> CancelAll (CancelAll_ClaimWaiting a)"
abbreviation KCasR where "KCasR a \<equiv> CancelAll (CancelAll_ClaimReady a)"
abbreviation KDrop where "KDrop a \<equiv> CancelAll (CancelAll_Drop a)"
abbreviation KEmpty where "KEmpty a \<equiv> CancelAll (CancelAll_Empty a)"
abbreviation KWake where "KWake a \<equiv> CancelAll (CancelAll_Wake a)"
abbreviation KDone where "KDone \<equiv> CancelAll CancelAll_Done"

definition set_slot :: "usize \<Rightarrow> PendingResponseSlot \<Rightarrow> CorrelationTracker \<Rightarrow> CorrelationTracker" where
  "set_slot i s tr = tr\<lparr>pending := (pending tr)(i := s)\<rparr>"

definition store_state :: "usize \<Rightarrow> u8 \<Rightarrow> CorrelationTracker \<Rightarrow> CorrelationTracker" where
  "store_state i v tr = set_slot i ((pending tr i)\<lparr>slot_state := v\<rparr>) tr"

definition cas_state :: "usize \<Rightarrow> u8 \<Rightarrow> u8 \<Rightarrow> CorrelationTracker \<Rightarrow> bool \<times> CorrelationTracker" where
  "cas_state i old new tr =
     (if slot_state (pending tr i) = old then (True, store_state i new tr) else (False, tr))"

text \<open>\<open>AtomicWaker::wake\<close> on slot \<open>i\<close>: the registered thread is taken and woken.\<close>

definition wake :: "usize \<Rightarrow> CorrelationTracker \<Rightarrow> nat set \<Rightarrow> CorrelationTracker \<times> nat set" where
  "wake i tr woken =
     (case slot_waker (pending tr i) of
        None \<Rightarrow> (tr, woken)
      | Some t \<Rightarrow> (set_slot i ((pending tr i)\<lparr>slot_waker := None\<rparr>) tr, insert t woken))"

definition done_slot :: "usize \<Rightarrow> pc" where
  "done_slot i = (if Suc i < PENDING_RESPONSES_SIZE then KLoad (Suc i) else KDone)"

fun allocate_step :: "nat \<Rightarrow> allocate_pc \<Rightarrow> CorrelationTracker \<Rightarrow> nat set \<Rightarrow> pc \<times> CorrelationTracker \<times> nat set" where
  "allocate_step t (Allocate_Next n) tr wk =
     (case n of
        0 \<Rightarrow> (ADone None, tr, wk)
      | Suc m \<Rightarrow>
          let cid = next_id tr; tr' = tr\<lparr>next_id := cid + 1\<rparr>
          in if cid = 0 then (ANext m, tr', wk) else (ACas cid m, tr', wk))"
| "allocate_step t (Allocate_Claim cid m) tr wk =
     (case cas_state (slot_index cid) SLOT_EMPTY SLOT_WRITING tr of
        (ok, tr') \<Rightarrow> (if ok then AInstall cid else ANext m, tr', wk))"
| "allocate_step t (Allocate_Install cid) tr wk =
     (case wake (slot_index cid) tr wk of
        (tr', wk') \<Rightarrow>
          (APublish cid, set_slot (slot_index cid) ((pending tr' (slot_index cid))\<lparr>slot_id := cid\<rparr>) tr', wk'))"
| "allocate_step t (Allocate_Publish cid) tr wk =
     (ADone (Some cid), store_state (slot_index cid) SLOT_WAITING tr, wk)"
| "allocate_step t (Allocate_Allocated r) tr wk = (ADone r, tr, wk)"

fun complete_step :: "nat \<Rightarrow> complete_pc \<Rightarrow> CorrelationTracker \<Rightarrow> nat set \<Rightarrow> pc \<times> CorrelationTracker \<times> nat set" where
  "complete_step t (Complete_Claim cid out) tr wk =
     (case cas_state (slot_index cid) SLOT_WAITING SLOT_WRITING tr of
        (ok, tr') \<Rightarrow> (if ok then CCheck cid out else CDone cid out False, tr', wk))"
| "complete_step t (Complete_Check cid out) tr wk =
     (let i = slot_index cid; s = pending tr i
      in if slot_id s \<noteq> cid then (CRestore cid out, tr, wk)
         else case out of
                None \<Rightarrow> (CEmpty cid, tr, wk)
              | Some x \<Rightarrow> (CReady cid x, set_slot i (s\<lparr>slot_response := Some x\<rparr>) tr, wk))"
| "complete_step t (Complete_Restore cid out) tr wk =
     (CDone cid out False, store_state (slot_index cid) SLOT_WAITING tr, wk)"
| "complete_step t (Complete_Ready cid x) tr wk =
     (CWake cid (Some x), store_state (slot_index cid) SLOT_READY tr, wk)"
| "complete_step t (Complete_Empty cid) tr wk =
     (CWake cid None, store_state (slot_index cid) SLOT_EMPTY tr, wk)"
| "complete_step t (Complete_Wake cid out) tr wk =
     (CDone cid out (out \<noteq> None), wake (slot_index cid) tr wk)"
| "complete_step t (Complete_Done cid out r) tr wk = (CDone cid out r, tr, wk)"

fun wait_step :: "nat \<Rightarrow> wait_pc \<Rightarrow> CorrelationTracker \<Rightarrow> nat set \<Rightarrow> pc \<times> CorrelationTracker \<times> nat set" where
  "wait_step t (Wait_Claim cid ph timed) tr wk =
     (case cas_state (slot_index cid) SLOT_READY SLOT_WRITING tr of
        (ok, tr') \<Rightarrow> (if ok then WCheck cid else WLoad cid ph timed, tr', wk))"
| "wait_step t (Wait_Check cid) tr wk =
     (let i = slot_index cid; s = pending tr i
      in if slot_id s \<noteq> cid then (WRestore cid, tr, wk)
         else case slot_response s of
                None \<Rightarrow> (Undefined, tr, wk)
              | Some x \<Rightarrow> (WRelease cid x, set_slot i (s\<lparr>slot_response := None\<rparr>) tr, wk))"
| "wait_step t (Wait_Restore cid) tr wk =
     (WForeign cid, store_state (slot_index cid) SLOT_READY tr, wk)"
| "wait_step t (Wait_Foreign cid) tr wk =
     (WDone cid (Inl ConnectionDropped), wake (slot_index cid) tr wk)"
| "wait_step t (Wait_Release cid x) tr wk =
     (WDone cid (Inr x), store_state (slot_index cid) SLOT_EMPTY tr, wk)"
| "wait_step t (Wait_Load cid ph timed) tr wk =
     (let v = slot_state (pending tr (slot_index cid))
      in if v = SLOT_EMPTY then (WDone cid (Inl ConnectionDropped), tr, wk)
         else case ph of
                First \<Rightarrow> (WRegister cid timed, tr, wk)
              | Second \<Rightarrow> (WParked cid timed, tr, wk)
              | Late \<Rightarrow> if v = SLOT_WRITING then (WClaim cid First False, tr, wk)
                       else (WDone cid (Inl Timeout), tr, wk))"
| "wait_step t (Wait_Register cid timed) tr wk =
     (let i = slot_index cid; s = pending tr i
      in if slot_id s \<noteq> cid then (WDone cid (Inl ConnectionDropped), tr, wk)
         else (WClaim cid Second timed, set_slot i (s\<lparr>slot_waker := Some t\<rparr>) tr, wk))"
| "wait_step t (Wait_Parked cid timed) tr wk =
     (if t \<in> wk then (WClaim cid First timed, tr, wk - {t}) else (WParked cid timed, tr, wk))"
| "wait_step t (Wait_TimeoutClaim cid) tr wk =
     (case cas_state (slot_index cid) SLOT_WAITING SLOT_WRITING tr of
        (ok, tr') \<Rightarrow> (if ok then WTimeoutCheck cid else WClaim cid Late False, tr', wk))"
| "wait_step t (Wait_TimeoutCheck cid) tr wk =
     (if slot_id (pending tr (slot_index cid)) \<noteq> cid then (WTimeoutRestore cid, tr, wk)
      else (WTimeoutEmpty cid, tr, wk))"
| "wait_step t (Wait_TimeoutRestore cid) tr wk =
     (WClaim cid Late False, store_state (slot_index cid) SLOT_WAITING tr, wk)"
| "wait_step t (Wait_TimeoutEmpty cid) tr wk =
     (WDone cid (Inl Timeout), store_state (slot_index cid) SLOT_EMPTY tr, wk)"
| "wait_step t (Wait_Done cid r) tr wk = (WDone cid r, tr, wk)"

fun cancel_step :: "nat \<Rightarrow> cancel_pc \<Rightarrow> CorrelationTracker \<Rightarrow> nat set \<Rightarrow> pc \<times> CorrelationTracker \<times> nat set" where
  "cancel_step t (Cancel_Load cid) tr wk =
     (let v = slot_state (pending tr (slot_index cid))
      in if v = SLOT_WAITING then (XCasW cid, tr, wk)
         else if v = SLOT_READY then (XCasR cid, tr, wk)
         else if v = SLOT_WRITING then (XLoad cid, tr, wk)
         else (XDone cid, tr, wk))"
| "cancel_step t (Cancel_ClaimWaiting cid) tr wk =
     (case cas_state (slot_index cid) SLOT_WAITING SLOT_WRITING tr of
        (ok, tr') \<Rightarrow> (if ok then XCheckW cid else XLoad cid, tr', wk))"
| "cancel_step t (Cancel_CheckWaiting cid) tr wk =
     (if slot_id (pending tr (slot_index cid)) \<noteq> cid then (XRestoreW cid, tr, wk)
      else (XEmpty cid, tr, wk))"
| "cancel_step t (Cancel_RestoreWaiting cid) tr wk = (XDone cid, store_state (slot_index cid) SLOT_WAITING tr, wk)"
| "cancel_step t (Cancel_ClaimReady cid) tr wk =
     (case cas_state (slot_index cid) SLOT_READY SLOT_WRITING tr of
        (ok, tr') \<Rightarrow> (if ok then XCheckR cid else XLoad cid, tr', wk))"
| "cancel_step t (Cancel_CheckReady cid) tr wk =
     (let i = slot_index cid; s = pending tr i
      in if slot_id s \<noteq> cid then (XRestoreR cid, tr, wk)
         else case slot_response s of
                None \<Rightarrow> (Undefined, tr, wk)
              | Some x \<Rightarrow> (XEmpty cid, set_slot i (s\<lparr>slot_response := None\<rparr>) tr, wk))"
| "cancel_step t (Cancel_RestoreReady cid) tr wk = (XDone cid, store_state (slot_index cid) SLOT_READY tr, wk)"
| "cancel_step t (Cancel_Empty cid) tr wk = (XWake cid, store_state (slot_index cid) SLOT_EMPTY tr, wk)"
| "cancel_step t (Cancel_Wake cid) tr wk = (XDone cid, wake (slot_index cid) tr wk)"
| "cancel_step t (Cancel_Done cid) tr wk = (XDone cid, tr, wk)"

fun cancel_all_step :: "nat \<Rightarrow> cancel_all_pc \<Rightarrow> CorrelationTracker \<Rightarrow> nat set \<Rightarrow> pc \<times> CorrelationTracker \<times> nat set" where
  "cancel_all_step t (CancelAll_Load i) tr wk =
     (let v = slot_state (pending tr i)
      in if v = SLOT_WAITING then (KCasW i, tr, wk)
         else if v = SLOT_READY then (KCasR i, tr, wk)
         else if v = SLOT_WRITING then (KLoad i, tr, wk)
         else (done_slot i, tr, wk))"
| "cancel_all_step t (CancelAll_ClaimWaiting i) tr wk =
     (case cas_state i SLOT_WAITING SLOT_EMPTY tr of
        (ok, tr') \<Rightarrow> (if ok then KWake i else KLoad i, tr', wk))"
| "cancel_all_step t (CancelAll_ClaimReady i) tr wk =
     (case cas_state i SLOT_READY SLOT_WRITING tr of
        (ok, tr') \<Rightarrow> (if ok then KDrop i else KLoad i, tr', wk))"
| "cancel_all_step t (CancelAll_Drop i) tr wk =
     (case slot_response (pending tr i) of
        None \<Rightarrow> (Undefined, tr, wk)
      | Some x \<Rightarrow> (KEmpty i, set_slot i ((pending tr i)\<lparr>slot_response := None\<rparr>) tr, wk))"
| "cancel_all_step t (CancelAll_Empty i) tr wk = (KWake i, store_state i SLOT_EMPTY tr, wk)"
| "cancel_all_step t (CancelAll_Wake i) tr wk = (done_slot i, wake i tr wk)"
| "cancel_all_step t CancelAll_Done tr wk = (KDone, tr, wk)"

fun thread_step :: "nat \<Rightarrow> pc \<Rightarrow> CorrelationTracker \<Rightarrow> nat set \<Rightarrow> pc \<times> CorrelationTracker \<times> nat set" where
  "thread_step t (Allocate p) tr wk = allocate_step t p tr wk"
| "thread_step t (Complete p) tr wk = complete_step t p tr wk"
| "thread_step t (Wait p) tr wk = wait_step t p tr wk"
| "thread_step t (Cancel p) tr wk = cancel_step t p tr wk"
| "thread_step t (CancelAll p) tr wk = cancel_all_step t p tr wk"
| "thread_step t Undefined tr wk = (Undefined, tr, wk)"

lemma pc_cases [case_names ANext ACas AInstall APublish ADone CClaim CCheck CRestore CReady CEmpty CWake CDone WClaim WCheck WRestore WForeign WRelease WLoad WRegister WParked WTimeoutCas WTimeoutCheck WTimeoutRestore WTimeoutEmpty WDone XLoad XCasW XCheckW XRestoreW XCasR XCheckR XRestoreR XEmpty XWake XDone KLoad KCasW KCasR KDrop KEmpty KWake KDone Undefined]:
  assumes "(\<And>a. p = ANext a \<Longrightarrow> P)"
    and "(\<And>a b. p = ACas a b \<Longrightarrow> P)"
    and "(\<And>a. p = AInstall a \<Longrightarrow> P)"
    and "(\<And>a. p = APublish a \<Longrightarrow> P)"
    and "(\<And>a. p = ADone a \<Longrightarrow> P)"
    and "(\<And>a b. p = CClaim a b \<Longrightarrow> P)"
    and "(\<And>a b. p = CCheck a b \<Longrightarrow> P)"
    and "(\<And>a b. p = CRestore a b \<Longrightarrow> P)"
    and "(\<And>a b. p = CReady a b \<Longrightarrow> P)"
    and "(\<And>a. p = CEmpty a \<Longrightarrow> P)"
    and "(\<And>a b. p = CWake a b \<Longrightarrow> P)"
    and "(\<And>a b c. p = CDone a b c \<Longrightarrow> P)"
    and "(\<And>a b c. p = WClaim a b c \<Longrightarrow> P)"
    and "(\<And>a. p = WCheck a \<Longrightarrow> P)"
    and "(\<And>a. p = WRestore a \<Longrightarrow> P)"
    and "(\<And>a. p = WForeign a \<Longrightarrow> P)"
    and "(\<And>a b. p = WRelease a b \<Longrightarrow> P)"
    and "(\<And>a b c. p = WLoad a b c \<Longrightarrow> P)"
    and "(\<And>a b. p = WRegister a b \<Longrightarrow> P)"
    and "(\<And>a b. p = WParked a b \<Longrightarrow> P)"
    and "(\<And>a. p = WTimeoutCas a \<Longrightarrow> P)"
    and "(\<And>a. p = WTimeoutCheck a \<Longrightarrow> P)"
    and "(\<And>a. p = WTimeoutRestore a \<Longrightarrow> P)"
    and "(\<And>a. p = WTimeoutEmpty a \<Longrightarrow> P)"
    and "(\<And>a b. p = WDone a b \<Longrightarrow> P)"
    and "(\<And>a. p = XLoad a \<Longrightarrow> P)"
    and "(\<And>a. p = XCasW a \<Longrightarrow> P)"
    and "(\<And>a. p = XCheckW a \<Longrightarrow> P)"
    and "(\<And>a. p = XRestoreW a \<Longrightarrow> P)"
    and "(\<And>a. p = XCasR a \<Longrightarrow> P)"
    and "(\<And>a. p = XCheckR a \<Longrightarrow> P)"
    and "(\<And>a. p = XRestoreR a \<Longrightarrow> P)"
    and "(\<And>a. p = XEmpty a \<Longrightarrow> P)"
    and "(\<And>a. p = XWake a \<Longrightarrow> P)"
    and "(\<And>a. p = XDone a \<Longrightarrow> P)"
    and "(\<And>a. p = KLoad a \<Longrightarrow> P)"
    and "(\<And>a. p = KCasW a \<Longrightarrow> P)"
    and "(\<And>a. p = KCasR a \<Longrightarrow> P)"
    and "(\<And>a. p = KDrop a \<Longrightarrow> P)"
    and "(\<And>a. p = KEmpty a \<Longrightarrow> P)"
    and "(\<And>a. p = KWake a \<Longrightarrow> P)"
    and "(p = KDone \<Longrightarrow> P)"
    and "p = Undefined \<Longrightarrow> P"
  shows P
proof (cases p)
  case (Allocate a)
  then show ?thesis using assms by (cases a) simp_all
next
  case (Complete a)
  then show ?thesis using assms by (cases a) simp_all
next
  case (Wait a)
  then show ?thesis using assms by (cases a) simp_all
next
  case (Cancel a)
  then show ?thesis using assms by (cases a) simp_all
next
  case (CancelAll a)
  then show ?thesis using assms by (cases a) simp_all
qed (use assms in blast)

subsection \<open>The world\<close>

record corr_world =
  tracker :: CorrelationTracker
  threads :: "pc list"
  woken :: "nat set"

definition new_world :: corr_world where
  "new_world = \<lparr>tracker = CorrelationTracker_new, threads = [], woken = {}\<rparr>"

text \<open>
  The calls of the tracker's interface, as the first access of the thread that makes them:
  \<open>allocate\<close>, \<open>complete_attributed\<close>, \<open>complete_nack\<close>, the two waits, \<open>cancel\<close> (which the drop of a
  \<open>SlotGuard\<close> and a wait with a zero timeout also call) and \<open>cancel_all\<close>.
\<close>

definition allocate :: pc where "allocate = ANext PENDING_RESPONSES_SIZE"

definition complete_attributed :: "u32 \<Rightarrow> AlignedBytes option \<Rightarrow> PeerId option \<Rightarrow> pc" where
  "complete_attributed cid response completed_by = CClaim cid (completion_outcome response completed_by)"

definition complete_nack :: "u32 \<Rightarrow> AskNackReason \<Rightarrow> pc" where
  "complete_nack cid reason = CClaim cid (Some (Nack reason))"

definition wait_for_response :: "u32 \<Rightarrow> pc" where "wait_for_response cid = WClaim cid First True"

definition wait_for_response_no_timeout_outcome :: "u32 \<Rightarrow> pc" where
  "wait_for_response_no_timeout_outcome cid = WClaim cid First False"

definition cancel :: "u32 \<Rightarrow> pc" where "cancel cid = XLoad cid"

definition cancel_all :: pc where "cancel_all = KLoad 0"

definition is_call :: "pc \<Rightarrow> bool" where
  "is_call p \<longleftrightarrow> p = allocate \<or> p = cancel_all
     \<or> (\<exists>cid. p = wait_for_response cid \<or> p = wait_for_response_no_timeout_outcome cid \<or> p = cancel cid)
     \<or> (\<exists>cid response by. p = complete_attributed cid response by)
     \<or> (\<exists>cid reason. p = complete_nack cid reason)"

text \<open>
  A timer may wake a parked wait with a timeout; once its inner future is pending at the
  deadline, the wait takes its timeout path. A caller may drop a parked wait, and the guard
  of its slot then cancels it.
\<close>

inductive corr_step :: "corr_world \<Rightarrow> corr_world \<Rightarrow> bool" where
  call: "is_call p \<Longrightarrow> corr_step w (w\<lparr>threads := threads w @ [p]\<rparr>)"
| run: "t < length (threads w) \<Longrightarrow>
    thread_step t (threads w ! t) (tracker w) (woken w) = (p, tr, wk) \<Longrightarrow>
    corr_step w (w\<lparr>tracker := tr, threads := (threads w)[t := p], woken := wk\<rparr>)"
| timer: "t < length (threads w) \<Longrightarrow> threads w ! t = WParked cid True \<Longrightarrow>
    corr_step w (w\<lparr>woken := insert t (woken w)\<rparr>)"
| abandon: "t < length (threads w) \<Longrightarrow> threads w ! t = WParked cid timed \<Longrightarrow>
    corr_step w (w\<lparr>threads := (threads w)[t := cancel cid]\<rparr>)"
| deadline: "t < length (threads w) \<Longrightarrow> threads w ! t = WParked cid True \<Longrightarrow>
    corr_step w (w\<lparr>threads := (threads w)[t := WTimeoutCas cid]\<rparr>)"


subsection \<open>Ownership of the response cells\<close>

text \<open>
  The slot a thread owns at its next access, and whether the slot's cell then holds a response.
\<close>

fun cell :: "pc \<Rightarrow> (usize \<times> bool) option" where
  "cell (AInstall cid) = Some (slot_index cid, False)"
| "cell (APublish cid) = Some (slot_index cid, False)"
| "cell (CCheck cid out) = Some (slot_index cid, False)"
| "cell (CRestore cid out) = Some (slot_index cid, False)"
| "cell (CReady cid x) = Some (slot_index cid, True)"
| "cell (CEmpty cid) = Some (slot_index cid, False)"
| "cell (WCheck cid) = Some (slot_index cid, True)"
| "cell (WRestore cid) = Some (slot_index cid, True)"
| "cell (WRelease cid x) = Some (slot_index cid, False)"
| "cell (WTimeoutCheck cid) = Some (slot_index cid, False)"
| "cell (WTimeoutRestore cid) = Some (slot_index cid, False)"
| "cell (WTimeoutEmpty cid) = Some (slot_index cid, False)"
| "cell (XCheckW cid) = Some (slot_index cid, False)"
| "cell (XRestoreW cid) = Some (slot_index cid, False)"
| "cell (XCheckR cid) = Some (slot_index cid, True)"
| "cell (XRestoreR cid) = Some (slot_index cid, True)"
| "cell (XEmpty cid) = Some (slot_index cid, False)"
| "cell (KDrop i) = Some (i, True)"
| "cell (KEmpty i) = Some (i, False)"
| "cell _ = None"

definition slot_ok :: "PendingResponseSlot \<Rightarrow> bool" where
  "slot_ok s \<longleftrightarrow> slot_state s \<in> {SLOT_EMPTY, SLOT_WAITING, SLOT_WRITING, SLOT_READY}
     \<and> (slot_state s \<in> {SLOT_EMPTY, SLOT_WAITING} \<longrightarrow> slot_response s = None)
     \<and> (slot_state s = SLOT_READY \<longrightarrow> slot_response s \<noteq> None)"

definition cell_ok :: "CorrelationTracker \<Rightarrow> usize \<Rightarrow> bool \<Rightarrow> bool" where
  "cell_ok tr i full \<longleftrightarrow>
     slot_state (pending tr i) = SLOT_WRITING \<and> (slot_response (pending tr i) \<noteq> None) = full"

text \<open>
  Threads that published \<open>x\<close> for \<open>c\<close>, threads that took \<open>x\<close> for \<open>c\<close>, and whether the slot of \<open>c\<close>
  still holds it.
\<close>

fun published_by :: "u32 \<Rightarrow> CorrelationOutcome \<Rightarrow> pc \<Rightarrow> nat" where
  "published_by c x (CReady d y) = of_bool (c = d \<and> x = y)"
| "published_by c x (CWake d out) = of_bool (c = d \<and> out = Some x)"
| "published_by c x (CDone d out r) = of_bool (c = d \<and> out = Some x \<and> r)"
| "published_by c x _ = 0"

fun taken_by :: "u32 \<Rightarrow> CorrelationOutcome \<Rightarrow> pc \<Rightarrow> nat" where
  "taken_by c x (WRelease d y) = of_bool (c = d \<and> x = y)"
| "taken_by c x (WDone d r) = of_bool (c = d \<and> r = Inr x)"
| "taken_by c x _ = 0"

definition held :: "u32 \<Rightarrow> CorrelationOutcome \<Rightarrow> CorrelationTracker \<Rightarrow> nat" where
  "held c x tr = (let s = pending tr (slot_index c)
                  in of_bool (slot_response s = Some x \<and> slot_id s = c))"

definition published :: "u32 \<Rightarrow> CorrelationOutcome \<Rightarrow> pc list \<Rightarrow> nat" where
  "published c x ps = sum_list (map (published_by c x) ps)"

definition taken :: "u32 \<Rightarrow> CorrelationOutcome \<Rightarrow> pc list \<Rightarrow> nat" where
  "taken c x ps = sum_list (map (taken_by c x) ps)"

definition owner_ok :: "CorrelationTracker \<Rightarrow> pc \<Rightarrow> bool" where
  "owner_ok tr p \<longleftrightarrow> (case cell p of None \<Rightarrow> True | Some (i, full) \<Rightarrow> cell_ok tr i full)"

definition owns :: "pc \<Rightarrow> usize \<Rightarrow> bool" where
  "owns p i \<longleftrightarrow> (case cell p of None \<Rightarrow> False | Some (j, full) \<Rightarrow> j = i)"

definition corr_inv :: "corr_world \<Rightarrow> bool" where
  "corr_inv w \<longleftrightarrow>
     (\<forall>i. slot_ok (pending (tracker w) i))
     \<and> (\<forall>p \<in> set (threads w). p \<noteq> Undefined \<and> owner_ok (tracker w) p)
     \<and> (\<forall>t < length (threads w). \<forall>u < length (threads w). \<forall>i.
          owns (threads w ! t) i \<longrightarrow> owns (threads w ! u) i \<longrightarrow> t = u)
     \<and> (\<forall>i. slot_state (pending (tracker w) i) = SLOT_WRITING \<longrightarrow> (\<exists>p \<in> set (threads w). owns p i))
     \<and> (\<forall>c x. taken c x (threads w) + held c x (tracker w) \<le> published c x (threads w))"

lemmas slot_access_defs =
  set_slot_def store_state_def cas_state_def wake_def Let_def done_slot_def

text \<open>
  One access, in the thread that makes it: the slots stay well formed, the cell the thread
  goes on to own is as its program expects, a slot another thread owns is left alone, a
  slot in the \<open>SLOT_WRITING\<close> state keeps an owner, and what is taken was published.
\<close>

definition next_pc :: "nat \<Rightarrow> pc \<Rightarrow> CorrelationTracker \<Rightarrow> nat set \<Rightarrow> pc" where
  "next_pc t p tr wk = fst (thread_step t p tr wk)"

definition next_tracker :: "nat \<Rightarrow> pc \<Rightarrow> CorrelationTracker \<Rightarrow> nat set \<Rightarrow> CorrelationTracker" where
  "next_tracker t p tr wk = fst (snd (thread_step t p tr wk))"

lemmas next_defs = next_pc_def next_tracker_def slot_access_defs

lemma slot_ok_simps [simp]:
  "slot_ok (s\<lparr>slot_state := SLOT_WRITING\<rparr>)"
  "slot_ok (s\<lparr>slot_state := SLOT_EMPTY\<rparr>) \<longleftrightarrow> slot_response s = None"
  "slot_ok (s\<lparr>slot_state := SLOT_WAITING\<rparr>) \<longleftrightarrow> slot_response s = None"
  "slot_ok (s\<lparr>slot_state := SLOT_READY\<rparr>) \<longleftrightarrow> slot_response s \<noteq> None"
  "slot_ok (s\<lparr>slot_id := i\<rparr>) = slot_ok s"
  "slot_ok (s\<lparr>slot_waker := v\<rparr>) = slot_ok s"
  by (auto simp: slot_ok_def)

lemma slot_ok_writing [simp]: "slot_state s = SLOT_WRITING \<Longrightarrow> slot_ok (s\<lparr>slot_response := x\<rparr>)"
  by (simp add: slot_ok_def)

lemma slot_ok_response:
  "slot_ok s \<Longrightarrow> slot_state s = SLOT_WAITING \<Longrightarrow> slot_response s = None"
  "slot_ok s \<Longrightarrow> slot_state s = SLOT_EMPTY \<Longrightarrow> slot_response s = None"
  "slot_ok s \<Longrightarrow> slot_state s = SLOT_READY \<Longrightarrow> slot_response s \<noteq> None"
  by (auto simp: slot_ok_def)

lemma next_slot_ok:
  "(\<And>i. slot_ok (pending tr i)) \<Longrightarrow> owner_ok tr p \<Longrightarrow>
   slot_ok (pending (next_tracker t p tr wk) j)"
  by (cases p rule: pc_cases; simp add: next_defs owner_ok_def cell_ok_def slot_ok_response
      split: option.split nat.split phase.split)

lemma next_owner_ok:
  "(\<And>i. slot_ok (pending tr i)) \<Longrightarrow> owner_ok tr p \<Longrightarrow>
   owner_ok (next_tracker t p tr wk) (next_pc t p tr wk)"
  by (cases p rule: pc_cases; simp add: next_defs owner_ok_def cell_ok_def slot_ok_response
      split: option.split nat.split phase.split)

lemma next_owns_new:
  "\<not> owns p i \<Longrightarrow> owns (next_pc t p tr wk) i \<Longrightarrow> slot_state (pending tr i) \<noteq> SLOT_WRITING"
  by (cases p rule: pc_cases; simp add: next_defs owns_def split: option.splits nat.splits phase.splits if_splits;
      fastforce)

lemma next_defined:
  "owner_ok tr p \<Longrightarrow> p \<noteq> Undefined \<Longrightarrow> next_pc t p tr wk \<noteq> Undefined"
  by (cases p rule: pc_cases; simp add: next_defs owner_ok_def cell_ok_def split: option.split nat.split phase.split;
      fastforce)

lemma next_frame:
  assumes "\<not> owns p i" "slot_state (pending tr i) = SLOT_WRITING"
  shows "slot_state (pending (next_tracker t p tr wk) i) = SLOT_WRITING"
    and "slot_response (pending (next_tracker t p tr wk) i) = slot_response (pending tr i)"
  using assms
  by (cases p rule: pc_cases; simp add: next_defs owns_def split: option.split nat.split phase.split; fastforce)+

lemma next_writing:
  "slot_state (pending (next_tracker t p tr wk) i) = SLOT_WRITING \<Longrightarrow> owner_ok tr p \<Longrightarrow>
   owns (next_pc t p tr wk) i \<or> (slot_state (pending tr i) = SLOT_WRITING \<and> \<not> owns p i)"
  by (cases p rule: pc_cases; simp add: next_defs owns_def owner_ok_def cell_ok_def
      split: option.splits nat.splits phase.splits if_splits)

lemma held_simps:
  "held c x (set_slot i s tr) =
     (if i = slot_index c then of_bool (slot_response s = Some x \<and> slot_id s = c) else held c x tr)"
  "held c x (store_state i v tr) = held c x tr"
  "held c x (fst (wake i tr wk)) = held c x tr"
  "held c x (tr\<lparr>next_id := n\<rparr>) = held c x tr"
  by (auto simp: held_def set_slot_def store_state_def wake_def Let_def split: option.split)

lemma wake_response:
  "slot_response (pending (fst (wake i tr wk)) j) = slot_response (pending tr j)"
  "slot_id (pending (fst (wake i tr wk)) j) = slot_id (pending tr j)"
  by (simp_all add: wake_def set_slot_def split: option.split)

lemma next_accounts:
  "owner_ok tr p \<Longrightarrow>
   taken_by c x (next_pc t p tr wk) + held c x (next_tracker t p tr wk) + published_by c x p
   \<le> taken_by c x p + held c x tr + published_by c x (next_pc t p tr wk)"
proof (cases p rule: pc_cases)
  case (WCheck d)
  then show ?thesis
    by (cases "slot_id (pending tr (slot_index d)) = d";
        cases "slot_response (pending tr (slot_index d))")
      (simp_all add: next_pc_def next_tracker_def held_simps Let_def, auto simp: held_def)
next
  case (CCheck d out)
  moreover assume "owner_ok tr p"
  ultimately show ?thesis
    by (cases "slot_id (pending tr (slot_index d)) = d"; cases out)
      (simp_all add: next_pc_def next_tracker_def held_simps Let_def, auto simp: held_def owner_ok_def cell_ok_def)
qed (simp_all add: next_pc_def next_tracker_def held_simps wake_response cas_state_def done_slot_def
      owner_ok_def cell_ok_def Let_def case_prod_unfold split: option.split nat.split phase.split,
    auto simp: held_def)


lemma taken_update:
  "t < length ps \<Longrightarrow> taken c x (ps[t := p]) + taken_by c x (ps ! t) = taken c x ps + taken_by c x p"
  unfolding taken_def by (induction ps arbitrary: t) (auto split: nat.split)

lemma published_update:
  "t < length ps \<Longrightarrow>
   published c x (ps[t := p]) + published_by c x (ps ! t) = published c x ps + published_by c x p"
  unfolding published_def by (induction ps arbitrary: t) (auto split: nat.split)

lemma owner_ok_frame:
  assumes "owner_ok tr q" and "\<And>i. owns q i \<Longrightarrow> \<not> owns p i"
  shows "owner_ok (next_tracker t p tr wk) q"
proof (cases "cell q")
  case (Some a)
  then obtain i full where q: "cell q = Some (i, full)" by (cases a) auto
  then have "slot_state (pending tr i) = SLOT_WRITING" "\<not> owns p i"
    using assms by (auto simp: owner_ok_def cell_ok_def owns_def)
  then show ?thesis
    using next_frame[of p i tr] assms(1) q by (simp add: owner_ok_def cell_ok_def)
qed (simp add: owner_ok_def)

lemma owns_writing: "owner_ok tr p \<Longrightarrow> owns p i \<Longrightarrow> slot_state (pending tr i) = SLOT_WRITING"
  by (auto simp: owner_ok_def owns_def cell_ok_def split: option.splits)

lemma account_step:
  fixes a b c :: nat
  assumes "a + b \<le> c" "a2 + b' + c1 \<le> a1 + b + c2" "a' + a1 = a + a2" "c' + c1 = c + c2"
  shows "a' + b' \<le> c'"
  using assms by linarith

lemma corr_inv_run:
  assumes inv: "corr_inv w" and t: "t < length (threads w)"
  shows "corr_inv (w\<lparr>tracker := next_tracker t (threads w ! t) (tracker w) (woken w),
      threads := (threads w)[t := next_pc t (threads w ! t) (tracker w) (woken w)], woken := wk\<rparr>)"
proof -
  define p tr where "p = threads w ! t" and "tr = tracker w"
  define p' tr' where "p' = next_pc t p tr (woken w)" and "tr' = next_tracker t p tr (woken w)"
  define ps where "ps = (threads w)[t := p']"
  have p: "p \<noteq> Undefined" "owner_ok tr p" and ok: "\<And>i. slot_ok (pending tr i)"
    using inv t by (auto simp: corr_inv_def p_def tr_def)
  have other: "owner_ok tr (threads w ! u)" "threads w ! u \<noteq> Undefined"
    "\<And>i. owns (threads w ! u) i \<Longrightarrow> owns p i \<Longrightarrow> u = t" if "u < length (threads w)" for u
    using inv t that by (auto simp: corr_inv_def p_def tr_def)
  have slots: "slot_ok (pending tr' i)" for i
    unfolding tr'_def using next_slot_ok ok p(2) by blast
  have pcs: "q \<noteq> Undefined \<and> owner_ok tr' q" if q: "q \<in> set ps" for q
  proof -
    obtain u where u: "u < length (threads w)" "q = ps ! u"
      using q unfolding in_set_conv_nth ps_def length_list_update by blast
    have "owner_ok tr' (threads w ! u)" if "u \<noteq> t"
      unfolding tr'_def using other(3)[OF u(1)] that by (intro owner_ok_frame other(1) u) blast
    then show ?thesis
      using u next_defined[OF p(2,1)] next_owner_ok[OF ok p(2)] other(2)[OF u(1)]
      by (cases "u = t") (simp_all add: p'_def tr'_def ps_def)
  qed
  have new: "\<not> owns (threads w ! u) i" if "owns p' i" "u < length (threads w)" "u \<noteq> t" for u i
    using that other[OF that(2)] next_owns_new[of p i t tr] owns_writing unfolding p'_def by blast
  have old: "a = b" if "a < length (threads w)" "b < length (threads w)"
    "owns (threads w ! a) i" "owns (threads w ! b) i" for a b i
    using inv that unfolding corr_inv_def by blast
  have excl: "a = b" if "a < length ps" "b < length ps" "owns (ps ! a) i" "owns (ps ! b) i" for a b i
    using that new[of i a] new[of i b] old[of a b i] t by (cases "a = t"; cases "b = t") (simp_all add: ps_def)
  have writing: "\<exists>q \<in> set ps. owns q i" if "slot_state (pending tr' i) = SLOT_WRITING" for i
  proof (cases "owns p' i")
    case True
    then show ?thesis using t by (auto simp: ps_def intro: set_update_memI)
  next
    case False
    then have "slot_state (pending tr i) = SLOT_WRITING" "\<not> owns p i"
      using next_writing[OF that[unfolded tr'_def] p(2)] by (auto simp: p'_def)
    moreover from this obtain q where "q \<in> set (threads w)" "owns q i"
      using inv unfolding corr_inv_def tr_def by blast
    ultimately obtain u where u: "u < length (threads w)" "owns (threads w ! u) i" "u \<noteq> t"
      unfolding p_def in_set_conv_nth by blast
    then have "owns (ps ! u) i" "u < length ps" by (simp_all add: ps_def)
    then show ?thesis using nth_mem by blast
  qed
  have "taken c x (threads w) + held c x tr \<le> published c x (threads w)" for c x
    using inv unfolding corr_inv_def tr_def by blast
  then have "taken c x ps + held c x tr' \<le> published c x ps" for c x
    using next_accounts[OF p(2), of c x t "woken w", folded p'_def tr'_def]
      taken_update[OF t, of c x p', folded ps_def p_def]
      published_update[OF t, of c x p', folded ps_def p_def]
    by (rule account_step)
  then show ?thesis
    using slots pcs excl writing
    unfolding corr_inv_def ps_def p'_def tr'_def p_def tr_def by simp
qed


lemma idle_append:
  assumes "corr_inv w" "cell p = None" "p \<noteq> Undefined" "\<And>c x. taken_by c x p = 0"
  shows "corr_inv (w\<lparr>threads := threads w @ [p]\<rparr>)"
proof -
  have "owner_ok tr p" "\<not> owns p i" for tr i using assms(2) by (simp_all add: owner_ok_def owns_def)
  then show ?thesis
    using assms unfolding corr_inv_def
    by (auto simp: nth_append taken_def published_def less_Suc_eq trans_le_add1)
qed

lemma idle_replace:
  assumes inv: "corr_inv w" and t: "t < length (threads w)" "threads w ! t = WParked cid timed"
    and p: "cell p = None" "p \<noteq> Undefined" "\<And>c x. taken_by c x p = 0" "\<And>c x. published_by c x p = 0"
  shows "corr_inv (w\<lparr>threads := (threads w)[t := p]\<rparr>)"
proof -
  have idle: "owner_ok tr p" "\<not> owns p i" "\<not> owns (threads w ! t) i" for tr i
    using p t by (simp_all add: owner_ok_def owns_def)
  have "taken c x ((threads w)[t := p]) = taken c x (threads w)"
    "published c x ((threads w)[t := p]) = published c x (threads w)" for c x
    using taken_update[OF t(1), of c x p] published_update[OF t(1), of c x p] p t(2) by simp_all
  moreover have "\<exists>q \<in> set ((threads w)[t := p]). owns q i" if q: "\<exists>q \<in> set (threads w). owns q i" for i
  proof -
    obtain u where u: "u < length (threads w)" "owns (threads w ! u) i"
      using q by (metis in_set_conv_nth)
    then have "u \<noteq> t" using idle(3) by auto
    then show ?thesis using u by (metis length_list_update nth_list_update_neq nth_mem)
  qed
  moreover have "q \<noteq> Undefined \<and> owner_ok (tracker w) q" if "q \<in> set ((threads w)[t := p])" for q
  proof -
    have "q = p \<or> q \<in> set (threads w)" using that set_update_subset_insert by fastforce
    then show ?thesis using inv idle(1) p(2) unfolding corr_inv_def by blast
  qed
  moreover have "a = b" if "a < length (threads w)" "b < length (threads w)"
    "owns ((threads w)[t := p] ! a) i" "owns ((threads w)[t := p] ! b) i" for a b i
  proof -
    have "a \<noteq> t" "b \<noteq> t" using that t(1) idle(2) by auto
    then show ?thesis using that inv unfolding corr_inv_def by simp
  qed
  ultimately show ?thesis using inv unfolding corr_inv_def by simp
qed

lemma is_call_simps:
  "is_call allocate" "is_call (complete_attributed cid response by)" "is_call (complete_nack cid reason)"
  "is_call (wait_for_response cid)" "is_call (wait_for_response_no_timeout_outcome cid)"
  "is_call (cancel cid)" "is_call cancel_all"
  unfolding is_call_def by blast+

lemma call_idle:
  assumes "is_call p"
  shows "cell p = None" "p \<noteq> Undefined" "taken_by c x p = 0"
  using assms unfolding is_call_def allocate_def cancel_all_def wait_for_response_def cancel_def
    wait_for_response_no_timeout_outcome_def complete_attributed_def complete_nack_def by auto

lemma corr_step_inv: "corr_step w w' \<Longrightarrow> corr_inv w \<Longrightarrow> corr_inv w'"
proof (induction rule: corr_step.induct)
  case (call p w)
  then show ?case using call_idle by (intro idle_append) auto
next
  case (run t w p tr wk)
  then show ?case using corr_inv_run[of w t wk] by (simp add: next_pc_def next_tracker_def)
next
  case (timer t w cid)
  then show ?case by (simp add: corr_inv_def)
next
  case (abandon t w cid timed)
  then show ?case by (intro idle_replace[of w t cid timed]) (simp_all add: cancel_def)
next
  case (deadline t w cid)
  then show ?case by (intro idle_replace[of w t cid True]) simp_all
qed

lemma new_world_inv: "corr_inv new_world"
  by (simp add: corr_inv_def new_world_def CorrelationTracker_new_def slot_ok_def taken_def
      published_def held_def)

interpretation correlation: invariant_steps new_world corr_step corr_inv
  using new_world_inv corr_step_inv by unfold_locales

subsection \<open>Replies reach the ask they answer, once\<close>

text \<open>C31. In every interleaving of allocations, completions, waits, timeouts and cancellations,
  no thread reads or drops a response cell that holds no response, at most one thread owns a
  slot, and for every correlation id and outcome the waits on that id that returned the
  outcome are at most as many as the completions of that id that published it.\<close>

theorem replies_reach_their_ask_once:
  assumes "corr_step\<^sup>*\<^sup>* new_world w"
  shows "Undefined \<notin> set (threads w)
    \<and> (\<forall>t < length (threads w). \<forall>u < length (threads w). \<forall>i.
         owns (threads w ! t) i \<longrightarrow> owns (threads w ! u) i \<longrightarrow> t = u)
    \<and> taken c x (threads w) \<le> published c x (threads w)"
proof -
  have "corr_inv w" using correlation.inv_reachable assms by blast
  then have "Undefined \<notin> set (threads w)" "taken c x (threads w) + held c x (tracker w) \<le> published c x (threads w)"
    "\<forall>t < length (threads w). \<forall>u < length (threads w). \<forall>i.
         owns (threads w ! t) i \<longrightarrow> owns (threads w ! u) i \<longrightarrow> t = u"
    unfolding corr_inv_def by blast+
  then show ?thesis using add_leD1 by blast
qed


text \<open>A schedule: the threads that make the next accesses, in order.\<close>

fun sched :: "nat list \<Rightarrow> corr_world \<Rightarrow> corr_world" where
  "sched [] w = w"
| "sched (t # ts) w =
     (case thread_step t (threads w ! t) (tracker w) (woken w) of
        (p, tr, wk) \<Rightarrow> sched ts (w\<lparr>tracker := tr, threads := (threads w)[t := p], woken := wk\<rparr>))"

lemma sched_reaches:
  "\<forall>t \<in> set ts. t < length (threads w) \<Longrightarrow> corr_step\<^sup>*\<^sup>* w (sched ts w)"
proof (induction ts arbitrary: w)
  case (Cons t ts)
  obtain p tr wk where s: "thread_step t (threads w ! t) (tracker w) (woken w) = (p, tr, wk)"
    by (metis prod_cases3)
  have "corr_step w (w\<lparr>tracker := tr, threads := (threads w)[t := p], woken := wk\<rparr>)"
    using Cons.prems s by (intro corr_step.run) auto
  also have "corr_step\<^sup>*\<^sup>* \<dots> (sched ts (w\<lparr>tracker := tr, threads := (threads w)[t := p], woken := wk\<rparr>))"
    using Cons.prems by (intro Cons.IH) auto
  finally show ?case by (simp add: s)
qed simp

lemma calls_reach:
  "list_all is_call ps \<Longrightarrow> corr_step\<^sup>*\<^sup>* w (w\<lparr>threads := threads w @ ps\<rparr>)"
proof (induction ps arbitrary: w)
  case (Cons p ps)
  have "corr_step w (w\<lparr>threads := threads w @ [p]\<rparr>)" using Cons.prems by (intro corr_step.call) simp
  also have "corr_step\<^sup>*\<^sup>* \<dots> (w\<lparr>threads := threads w @ p # ps\<rparr>)"
    using Cons.IH[of "w\<lparr>threads := threads w @ [p]\<rparr>"] Cons.prems by simp
  finally show ?case .
qed simp

definition delivered_world :: corr_world where
  "delivered_world = sched [0, 0, 0, 0, 2, 2, 2, 2, 2, 1, 1, 1, 1, 2, 2, 2, 2]
     (new_world\<lparr>threads := [allocate, complete_nack 1 Backpressure, wait_for_response 1]\<rparr>)"

lemma delivered_reachable: "corr_step\<^sup>*\<^sup>* new_world delivered_world"
proof -
  have "corr_step\<^sup>*\<^sup>* new_world (new_world\<lparr>threads := [allocate, complete_nack 1 Backpressure, wait_for_response 1]\<rparr>)"
    using calls_reach[of "[allocate, complete_nack 1 Backpressure, wait_for_response 1]" new_world]
    by (simp add: is_call_simps new_world_def)
  also have "corr_step\<^sup>*\<^sup>* \<dots> delivered_world"
    unfolding delivered_world_def by (rule sched_reaches) simp
  finally show ?thesis .
qed

lemma delivered_threads:
  "threads delivered_world =
     [ADone (Some 1), CDone 1 (Some (Nack Backpressure)) True, WDone 1 (Inr (Nack Backpressure))]"
  by (simp add: delivered_world_def new_world_def CorrelationTracker_new_def allocate_def
      PENDING_RESPONSES_SIZE_def complete_nack_def wait_for_response_def slot_access_defs slot_index_def
      PENDING_RESPONSES_MASK_def)

theorem replies_reach_their_ask_once_witness:
  "corr_step\<^sup>*\<^sup>* new_world delivered_world \<and> taken 1 (Nack Backpressure) (threads delivered_world) = 1
   \<and> taken 1 (Nack Backpressure) (threads delivered_world) \<le> published 1 (Nack Backpressure) (threads delivered_world)"
  using replies_reach_their_ask_once[OF delivered_reachable, of 1 "Nack Backpressure"] delivered_reachable
  by (simp add: delivered_threads taken_def)
subsection \<open>A stale cancellation\<close>

text \<open>
  Every thread has returned or is parked without a pending wake: no access changes anything.
\<close>

definition quiescent :: "corr_world \<Rightarrow> bool" where
  "quiescent w \<longleftrightarrow> (\<forall>t < length (threads w).
     thread_step t (threads w ! t) (tracker w) (woken w) = (threads w ! t, tracker w, woken w))"

fun at_rest :: "pc \<Rightarrow> bool" where
  "at_rest (ADone r) = True"
| "at_rest (CDone cid out r) = True"
| "at_rest (WDone cid r) = True"
| "at_rest (WParked cid timed) = True"
| "at_rest (XDone cid) = True"
| "at_rest KDone = True"
| "at_rest _ = False"

lemma thread_step_at_rest: "at_rest p \<Longrightarrow> thread_step t p tr {} = (p, tr, {})"
  by (cases p rule: pc_cases) simp_all

lemma quiescentI: "list_all at_rest (threads w) \<Longrightarrow> woken w = {} \<Longrightarrow> quiescent w"
  by (simp add: quiescent_def thread_step_at_rest list_all_length)

lemma slot_index_mod: "slot_index cid = unat cid mod 8192"
  using take_bit_eq_mask[of 13 "unat cid"]
  by (simp add: slot_index_def PENDING_RESPONSES_MASK_def PENDING_RESPONSES_SIZE_def
      take_bit_eq_mod mask_eq_exp_minus_1)

text \<open>
  A world in which the first ask was answered with a NACK and its guard's \<open>cancel\<close> has not run
  yet, while \<open>k\<close> further asks were allocated and still wait.
\<close>

definition nacked_world :: corr_world where
  "nacked_world = delivered_world\<lparr>threads := threads delivered_world @ [cancel 1]\<rparr>"

definition allocated_more :: "nat \<Rightarrow> corr_world \<Rightarrow> bool" where
  "allocated_more k w \<longleftrightarrow> corr_step\<^sup>*\<^sup>* nacked_world w
     \<and> next_id (tracker w) = of_nat (k + 2) \<and> woken w = {}
     \<and> (\<exists>rest. threads w = threads nacked_world @ rest \<and> (\<forall>p \<in> set rest. \<exists>r. p = ADone r))
     \<and> (\<forall>i < 8192. (\<forall>j < k. i \<noteq> (j + 2) mod 8192) \<longrightarrow>
          slot_state (pending (tracker w) i) = SLOT_EMPTY
          \<and> slot_response (pending (tracker w) i) = None \<and> slot_waker (pending (tracker w) i) = None)"

lemma world_eta: "\<lparr>tracker = tracker w, threads = threads w, woken = woken w\<rparr> = (w :: corr_world)"
  by (cases w) simp

lemma run_last:
  assumes "thread_step (length ts) p tr wk = (p', tr', wk')"
  shows "corr_step \<lparr>tracker = tr, threads = ts @ [p], woken = wk\<rparr>
    \<lparr>tracker = tr', threads = ts @ [p'], woken = wk'\<rparr>"
  using corr_step.run[of "length ts" "\<lparr>tracker = tr, threads = ts @ [p], woken = wk\<rparr>" p' tr' wk'] assms
  by (simp add: nth_append list_update_append)

lemma allocate_run:
  assumes cid: "next_id tr = cid" "cid \<noteq> 0" and i: "i = slot_index cid"
    and s: "slot_state (pending tr i) = SLOT_EMPTY" "slot_waker (pending tr i) = None"
  shows "corr_step\<^sup>*\<^sup>* \<lparr>tracker = tr, threads = ts, woken = wk\<rparr>
    \<lparr>tracker = tr\<lparr>next_id := cid + 1, pending := (pending tr)(i :=
        (pending tr i)\<lparr>slot_id := cid, slot_state := SLOT_WAITING\<rparr>)\<rparr>,
     threads = ts @ [ADone (Some cid)], woken = wk\<rparr>" (is "corr_step\<^sup>*\<^sup>* ?w _")
proof -
  have "corr_step\<^sup>*\<^sup>* ?w \<lparr>tracker = tr, threads = ts @ [allocate], woken = wk\<rparr>"
    using calls_reach[of "[allocate]" ?w] by (simp add: is_call_simps)
  also have "corr_step \<dots> \<lparr>tracker = tr\<lparr>next_id := cid + 1\<rparr>, threads = ts @ [ACas cid 8191], woken = wk\<rparr>"
    by (rule run_last) (simp add: allocate_def PENDING_RESPONSES_SIZE_def cid Let_def)
  also have "corr_step \<dots>
    \<lparr>tracker = store_state i SLOT_WRITING (tr\<lparr>next_id := cid + 1\<rparr>), threads = ts @ [AInstall cid], woken = wk\<rparr>"
    by (rule run_last) (use s i in \<open>simp add: cas_state_def\<close>)
  also have "corr_step \<dots>
    \<lparr>tracker = set_slot i ((pending tr i)\<lparr>slot_state := SLOT_WRITING, slot_id := cid\<rparr>) (tr\<lparr>next_id := cid + 1\<rparr>),
     threads = ts @ [APublish cid], woken = wk\<rparr>"
    by (rule run_last) (use s i in \<open>simp add: slot_access_defs\<close>)
  also have "corr_step \<dots>
    \<lparr>tracker = tr\<lparr>next_id := cid + 1, pending := (pending tr)(i :=
        (pending tr i)\<lparr>slot_id := cid, slot_state := SLOT_WAITING\<rparr>)\<rparr>,
     threads = ts @ [ADone (Some cid)], woken = wk\<rparr>"
    by (rule run_last) (use i in \<open>simp add: slot_access_defs\<close>)
  finally show ?thesis .
qed

lemma delivered_state:
  "woken delivered_world = {}" "next_id (tracker delivered_world) = 2"
  "slot_state (pending (tracker delivered_world) i) = SLOT_EMPTY"
  "slot_response (pending (tracker delivered_world) i) = None"
  "slot_waker (pending (tracker delivered_world) i) = None"
  by (simp_all add: delivered_world_def new_world_def CorrelationTracker_new_def allocate_def
      PENDING_RESPONSES_SIZE_def complete_nack_def wait_for_response_def slot_access_defs slot_index_def
      PENDING_RESPONSES_MASK_def)

lemma allocated_more_reachable: "k \<le> 8191 \<Longrightarrow> \<exists>w. allocated_more k w"
proof (induction k)
  case 0
  show ?case
    by (rule exI[of _ nacked_world])
      (simp add: allocated_more_def nacked_world_def delivered_state)
next
  case (Suc k)
  then obtain w rest where w: "corr_step\<^sup>*\<^sup>* nacked_world w" "next_id (tracker w) = of_nat (k + 2)"
      "woken w = {}" "threads w = threads nacked_world @ rest" "\<forall>p \<in> set rest. \<exists>r. p = ADone r"
    and free: "\<And>i. i < 8192 \<Longrightarrow> \<forall>j < k. i \<noteq> (j + 2) mod 8192 \<Longrightarrow>
          slot_state (pending (tracker w) i) = SLOT_EMPTY
          \<and> slot_response (pending (tracker w) i) = None \<and> slot_waker (pending (tracker w) i) = None"
    unfolding allocated_more_def by auto
  define cid :: u32 where "cid = of_nat (k + 2)"
  have unat: "unat cid = k + 2"
    unfolding cid_def unat_of_nat using Suc.prems by (intro mod_less) simp
  then have index: "slot_index cid = (k + 2) mod 8192" and nz: "cid \<noteq> 0"
    by (auto simp: slot_index_mod)
  have "(k + 2) mod 8192 \<noteq> (j + 2) mod 8192" if "j < k" for j
    using that Suc.prems by (cases "k + 2 < 8192") (auto simp: mod_if)
  then have here: "slot_state (pending (tracker w) (slot_index cid)) = SLOT_EMPTY"
      "slot_waker (pending (tracker w) (slot_index cid)) = None"
    using free[of "(k + 2) mod 8192"] index by auto
  let ?tr = "(tracker w)\<lparr>next_id := cid + 1, pending := (pending (tracker w))(slot_index cid :=
        (pending (tracker w) (slot_index cid))\<lparr>slot_id := cid, slot_state := SLOT_WAITING\<rparr>)\<rparr>"
  let ?w = "\<lparr>tracker = ?tr, threads = threads w @ [ADone (Some cid)], woken = woken w\<rparr>"
  have "corr_step\<^sup>*\<^sup>* w ?w"
    using allocate_run[OF w(2)[folded cid_def] nz refl here, of "threads w" "woken w"]
    by (simp only: world_eta)
  then have "corr_step\<^sup>*\<^sup>* nacked_world ?w" using w(1) by (rule rtranclp_trans[rotated])
  moreover have "next_id ?tr = of_nat (Suc k + 2)" by (simp add: cid_def)
  ultimately have "allocated_more (Suc k) ?w"
    unfolding allocated_more_def using w free index
    by (auto simp: less_Suc_eq intro!: exI[of _ "rest @ [ADone (Some cid)]"])
  then show ?case by blast
qed


text \<open>
  The slot 1 is then allocated again, for the id 8193. Its reply is published while the stale
  \<open>cancel\<close> of id 1 runs: the waiter's accesses all fall while that \<open>cancel\<close> owns the slot.
\<close>

definition slot1 :: "u8 \<Rightarrow> CorrelationOutcome option \<Rightarrow> nat option \<Rightarrow> CorrelationTracker \<Rightarrow> CorrelationTracker" where
  "slot1 v x t tr = tr\<lparr>pending := (pending tr)(1 :=
     \<lparr>slot_state = v, slot_id = 8193, slot_response = x, slot_waker = t\<rparr>)\<rparr>"

lemma slot1_simps [simp]:
  "pending (slot1 v x t tr) 1 = \<lparr>slot_state = v, slot_id = 8193, slot_response = x, slot_waker = t\<rparr>"
  "pending (slot1 v x t tr) (Suc 0) = \<lparr>slot_state = v, slot_id = 8193, slot_response = x, slot_waker = t\<rparr>"
  "set_slot 1 \<lparr>slot_state = v', slot_id = 8193, slot_response = x', slot_waker = t'\<rparr> (slot1 v x t tr) = slot1 v' x' t' tr"
  "set_slot (Suc 0) \<lparr>slot_state = v', slot_id = 8193, slot_response = x', slot_waker = t'\<rparr> (slot1 v x t tr) = slot1 v' x' t' tr"
  by (simp_all add: slot1_def set_slot_def)

lemma slot_index_1 [simp]: "slot_index 1 = 1" "slot_index 8193 = 1"
  by (simp_all add: slot_index_mod)

lemma run_thread:
  assumes "t < length ts" "ts ! t = p" "thread_step t p tr wk = (p', tr', wk')" "ts' = ts[t := p']"
  shows "corr_step \<lparr>tracker = tr, threads = ts, woken = wk\<rparr> \<lparr>tracker = tr', threads = ts', woken = wk'\<rparr>"
  using corr_step.run[of t "\<lparr>tracker = tr, threads = ts, woken = wk\<rparr>" p' tr' wk'] assms by simp

lemma strand:
  fixes bytes :: AlignedBytes
  defines "pre \<equiv> threads delivered_world" and "x \<equiv> Response bytes"
  assumes n: "n = length rest + 4"
  shows "corr_step\<^sup>*\<^sup>*
    \<lparr>tracker = slot1 SLOT_WAITING None None tr, threads = pre @ cancel 1 # rest, woken = {}\<rparr>
    \<lparr>tracker = slot1 SLOT_READY (Some x) (Some (n + 1)) tr,
     threads = pre @ XDone 1 # rest @ [CDone 8193 (Some x) True, WParked 8193 False], woken = {}\<rparr>"
proof -
  let ?W = "\<lambda>v r t a c p. \<lparr>tracker = slot1 v r t tr, threads = pre @ a # rest @ [c, p], woken = {}\<rparr>"
  have len: "length pre = 3" by (simp add: pre_def delivered_threads)
  have X: "corr_step (?W v r t a c p) (?W v' r' t' a' c p)"
    if "thread_step 3 a (slot1 v r t tr) {} = (a', slot1 v' r' t' tr, {})" for v r t a c p v' r' t' a'
    by (rule run_thread[OF _ _ that]) (simp_all add: len nth_append list_update_append)
  have C: "corr_step (?W v r t a c p) (?W v' r' t' a c' p)"
    if "thread_step n c (slot1 v r t tr) {} = (c', slot1 v' r' t' tr, {})" for v r t a c p v' r' t' c'
    by (rule run_thread[OF _ _ that]) (simp_all add: len n nth_append list_update_append)
  have P: "corr_step (?W v r t a c p) (?W v' r' t' a c p')"
    if "thread_step (n + 1) p (slot1 v r t tr) {} = (p', slot1 v' r' t' tr, {})" for v r t a c p v' r' t' p'
    by (rule run_thread[OF _ _ that]) (simp_all add: len n nth_append list_update_append)
  have calls: "list_all is_call
      [complete_attributed 8193 (Some bytes) None, wait_for_response_no_timeout_outcome 8193]"
    by (simp add: is_call_simps)
  note acc = cas_state_def store_state_def wake_def Let_def
  have "corr_step\<^sup>*\<^sup>* \<lparr>tracker = slot1 SLOT_WAITING None None tr, threads = pre @ cancel 1 # rest, woken = {}\<rparr>
      (?W SLOT_WAITING None None (XLoad 1) (CClaim 8193 (Some x)) (WClaim 8193 First False))"
    using calls_reach[OF calls,
        of "\<lparr>tracker = slot1 SLOT_WAITING None None tr, threads = pre @ cancel 1 # rest, woken = {}\<rparr>"]
    by (simp add: complete_attributed_def completion_outcome_def x_def cancel_def
        wait_for_response_no_timeout_outcome_def)
  also have "corr_step \<dots> (?W SLOT_WRITING None None (XLoad 1) (CCheck 8193 (Some x)) (WClaim 8193 First False))"
    by (rule C) (simp add: acc)
  also have "corr_step \<dots> (?W SLOT_WRITING (Some x) None (XLoad 1) (CReady 8193 x) (WClaim 8193 First False))"
    by (rule C) (simp add: acc)
  also have "corr_step \<dots> (?W SLOT_READY (Some x) None (XLoad 1) (CWake 8193 (Some x)) (WClaim 8193 First False))"
    by (rule C) (simp add: acc)
  also have "corr_step \<dots> (?W SLOT_READY (Some x) None (XLoad 1) (CDone 8193 (Some x) True) (WClaim 8193 First False))"
    by (rule C) (simp add: acc)
  also have "corr_step \<dots> (?W SLOT_READY (Some x) None (XCasR 1) (CDone 8193 (Some x) True) (WClaim 8193 First False))"
    by (rule X) (simp add: acc)
  also have "corr_step \<dots> (?W SLOT_WRITING (Some x) None (XCheckR 1) (CDone 8193 (Some x) True) (WClaim 8193 First False))"
    by (rule X) (simp add: acc)
  also have "corr_step \<dots> (?W SLOT_WRITING (Some x) None (XCheckR 1) (CDone 8193 (Some x) True) (WLoad 8193 First False))"
    by (rule P) (simp add: acc)
  also have "corr_step \<dots> (?W SLOT_WRITING (Some x) None (XCheckR 1) (CDone 8193 (Some x) True) (WRegister 8193 False))"
    by (rule P) (simp add: acc)
  also have "corr_step \<dots> (?W SLOT_WRITING (Some x) (Some (n + 1)) (XCheckR 1) (CDone 8193 (Some x) True) (WClaim 8193 Second False))"
    by (rule P) (simp add: acc)
  also have "corr_step \<dots> (?W SLOT_WRITING (Some x) (Some (n + 1)) (XCheckR 1) (CDone 8193 (Some x) True) (WLoad 8193 Second False))"
    by (rule P) (simp add: acc)
  also have "corr_step \<dots> (?W SLOT_WRITING (Some x) (Some (n + 1)) (XCheckR 1) (CDone 8193 (Some x) True) (WParked 8193 False))"
    by (rule P) (simp add: acc)
  also have "corr_step \<dots> (?W SLOT_WRITING (Some x) (Some (n + 1)) (XRestoreR 1) (CDone 8193 (Some x) True) (WParked 8193 False))"
    by (rule X) (simp add: acc)
  also have "corr_step \<dots> (?W SLOT_READY (Some x) (Some (n + 1)) (XDone 1) (CDone 8193 (Some x) True) (WParked 8193 False))"
    by (rule X) (simp add: acc)
  finally show ?thesis .
qed


lemma recycled:
  obtains w rest where "corr_step\<^sup>*\<^sup>* nacked_world w" "next_id (tracker w) = 8193"
    "woken w = {}" "threads w = threads nacked_world @ rest" "\<forall>p \<in> set rest. \<exists>r. p = ADone r"
    "slot_state (pending (tracker w) 1) = SLOT_EMPTY"
    "slot_response (pending (tracker w) 1) = None" "slot_waker (pending (tracker w) 1) = None"
proof -
  define k :: nat where "k = 8191"
  obtain w where more: "allocated_more k w" using allocated_more_reachable[of k] by (auto simp: k_def)
  have "1 \<noteq> (j + 2) mod (8192 :: nat)" if "j < k" for j
    using that by (cases "j = 8190") (simp_all add: k_def)
  then have free: "\<forall>j < k. 1 \<noteq> (j + 2) mod (8192 :: nat)" by blast
  have s: "slot_state (pending (tracker w) 1) = SLOT_EMPTY"
    "slot_response (pending (tracker w) 1) = None" "slot_waker (pending (tracker w) 1) = None"
    using more free unfolding allocated_more_def by (simp_all del: One_nat_def)
  obtain rest where "threads w = threads nacked_world @ rest" "\<forall>p \<in> set rest. \<exists>r. p = ADone r"
    using more unfolding allocated_more_def by blast
  moreover have "corr_step\<^sup>*\<^sup>* nacked_world w" "woken w = {}" "next_id (tracker w) = of_nat (k + 2)"
    using more unfolding allocated_more_def by blast+
  moreover have "of_nat (k + 2) = (8193 :: u32)" by (simp add: k_def)
  ultimately show thesis using s by (intro that) simp_all
qed

text \<open>C32. A stale cancellation can cost a wait its wakeup. There is a run in which an ask whose
  reply was published for its own id stays parked without a timeout, its reply ready in its
  slot, while every other thread has returned and no wake is pending: \<open>cancel\<close> of an id whose
  slot was recycled takes the ready slot, and puts it back without waking the waiter that
  looked at it meanwhile.\<close>

theorem stale_cancel_strands_waiter:
  "\<exists>w t bytes. corr_step\<^sup>*\<^sup>* new_world w \<and> t < length (threads w)
     \<and> threads w ! t = WParked 8193 False
     \<and> pending (tracker w) (slot_index 8193) =
         \<lparr>slot_state = SLOT_READY, slot_id = 8193, slot_response = Some (Response bytes), slot_waker = Some t\<rparr>
     \<and> CDone 8193 (Some (Response bytes)) True \<in> set (threads w)
     \<and> quiescent w"
proof -
  obtain w rest where w: "corr_step\<^sup>*\<^sup>* nacked_world w" "next_id (tracker w) = 8193"
      "woken w = {}" "threads w = threads nacked_world @ rest" "\<forall>p \<in> set rest. \<exists>r. p = ADone r"
    and s: "slot_state (pending (tracker w) 1) = SLOT_EMPTY"
      "slot_response (pending (tracker w) 1) = None" "slot_waker (pending (tracker w) 1) = None"
    by (rule recycled)
  define tr where "tr = (tracker w)\<lparr>next_id := 8194\<rparr>"
  let ?rest = "rest @ [ADone (Some 8193)]" and ?pre = "threads delivered_world"
  let ?w = "\<lparr>tracker = slot1 SLOT_READY (Some (Response bytes)) (Some (length ?rest + 5)) tr,
     threads = ?pre @ XDone 1 # ?rest @ [CDone 8193 (Some (Response bytes)) True, WParked 8193 False],
     woken = {}\<rparr>"
  have slot: "(pending (tracker w) 1)\<lparr>slot_id := 8193, slot_state := SLOT_WAITING\<rparr> =
      \<lparr>slot_state = SLOT_WAITING, slot_id = 8193, slot_response = None, slot_waker = None\<rparr>"
    using s by (cases "pending (tracker w) 1") simp
  have "corr_step\<^sup>*\<^sup>* new_world nacked_world"
    using delivered_reachable calls_reach[of "[cancel 1]" delivered_world]
    by (simp add: nacked_world_def is_call_simps)
  also note w(1)
  also have "corr_step\<^sup>*\<^sup>* w
    \<lparr>tracker = slot1 SLOT_WAITING None None tr, threads = ?pre @ cancel 1 # ?rest, woken = {}\<rparr>"
    using allocate_run[OF w(2), of 1 "threads w" "woken w", unfolded world_eta] w(3-4) s slot
    by (simp add: tr_def slot1_def nacked_world_def del: One_nat_def)
  also have "corr_step\<^sup>*\<^sup>* \<dots> ?w" using strand[of "length ?rest + 4" ?rest tr bytes] by simp
  finally have "corr_step\<^sup>*\<^sup>* new_world ?w" .
  moreover have "quiescent ?w"
    by (rule quiescentI) (use w(5) in \<open>auto simp: delivered_threads list_all_iff\<close>)
  ultimately show ?thesis
    by (intro exI[of _ ?w] exI[of _ "length ?rest + 5"] exI[of _ bytes])
      (simp add: delivered_threads nth_append)
qed

end
