(* ===== verification/Framing.thy ===== *)
theory Framing
  imports Wire_Types
begin

text \<open>
  The V5 wire format of \<^verbatim>\<open>src/framing.rs\<close>. A frame is a four-byte control word
  (five bits of kind, 27 bits of body length) followed by a header fixed by the kind and
  the payload. Each \<open>try_write_*\<close> function builds the header the way the source does: the
  checked body length, a zeroed array with the control word in front, then one copy per
  field. The infallible siblings are the same computation under \<open>expect\<close>.

  The lemmas show that a control word decodes to what was encoded, for which lengths
  encoding succeeds, and what every field of every header reads back as.
\<close>

subsection \<open>Constants\<close>

definition LENGTH_PREFIX_LEN :: usize where "LENGTH_PREFIX_LEN = 4"
definition CONTROL_KIND_BITS :: nat where "CONTROL_KIND_BITS = 5"
definition CONTROL_BODY_LEN_BITS :: nat where "CONTROL_BODY_LEN_BITS = 32 - CONTROL_KIND_BITS"
definition CONTROL_BODY_LEN_MASK :: u32 where
  "CONTROL_BODY_LEN_MASK = push_bit CONTROL_BODY_LEN_BITS 1 - 1"

definition ASK_RESPONSE_HEADER_LEN :: usize where "ASK_RESPONSE_HEADER_LEN = 12"
definition GOSSIP_HEADER_LEN :: usize where "GOSSIP_HEADER_LEN = 12"
definition ACTOR_TELL_HEADER_LEN :: usize where "ACTOR_TELL_HEADER_LEN = 12"
definition ACTOR_ASK_HEADER_LEN :: usize where "ACTOR_ASK_HEADER_LEN = 28"
definition ROUTED_ACTOR_ASK_HEADER_LEN :: usize where "ROUTED_ACTOR_ASK_HEADER_LEN = 12"
definition ROUTE_BIND_HEADER_LEN :: usize where "ROUTE_BIND_HEADER_LEN = 20"
definition DIRECT_ASK_HEADER_LEN :: usize where "DIRECT_ASK_HEADER_LEN = 12"
definition DIRECT_RESPONSE_HEADER_LEN :: usize where "DIRECT_RESPONSE_HEADER_LEN = 12"
definition PUBSUB_HEADER_LEN :: usize where "PUBSUB_HEADER_LEN = 12"
definition STREAM_REQUEST_START_HEADER_LEN :: usize where "STREAM_REQUEST_START_HEADER_LEN = 24"
definition STREAM_RESPONSE_START_HEADER_LEN :: usize where "STREAM_RESPONSE_START_HEADER_LEN = 12"
definition STREAM_DATA_HEADER_LEN :: usize where "STREAM_DATA_HEADER_LEN = 8"

definition STREAM_REQUEST_START_FRAME_HEADER_LEN :: usize where
  "STREAM_REQUEST_START_FRAME_HEADER_LEN = LENGTH_PREFIX_LEN + STREAM_REQUEST_START_HEADER_LEN"
definition STREAM_RESPONSE_START_FRAME_HEADER_LEN :: usize where
  "STREAM_RESPONSE_START_FRAME_HEADER_LEN = LENGTH_PREFIX_LEN + STREAM_RESPONSE_START_HEADER_LEN"
definition STREAM_DATA_FRAME_HEADER_LEN :: usize where
  "STREAM_DATA_FRAME_HEADER_LEN = LENGTH_PREFIX_LEN + STREAM_DATA_HEADER_LEN"
definition ASK_RESPONSE_FRAME_HEADER_LEN :: usize where
  "ASK_RESPONSE_FRAME_HEADER_LEN = LENGTH_PREFIX_LEN + ASK_RESPONSE_HEADER_LEN"
definition GOSSIP_FRAME_HEADER_LEN :: usize where
  "GOSSIP_FRAME_HEADER_LEN = LENGTH_PREFIX_LEN + GOSSIP_HEADER_LEN"
definition ACTOR_TELL_FRAME_HEADER_LEN :: usize where
  "ACTOR_TELL_FRAME_HEADER_LEN = LENGTH_PREFIX_LEN + ACTOR_TELL_HEADER_LEN"
definition ACTOR_ASK_FRAME_HEADER_LEN :: usize where
  "ACTOR_ASK_FRAME_HEADER_LEN = LENGTH_PREFIX_LEN + ACTOR_ASK_HEADER_LEN"
definition ROUTED_ACTOR_ASK_FRAME_HEADER_LEN :: usize where
  "ROUTED_ACTOR_ASK_FRAME_HEADER_LEN = LENGTH_PREFIX_LEN + ROUTED_ACTOR_ASK_HEADER_LEN"
definition ROUTE_BIND_FRAME_HEADER_LEN :: usize where
  "ROUTE_BIND_FRAME_HEADER_LEN = LENGTH_PREFIX_LEN + ROUTE_BIND_HEADER_LEN"
definition DIRECT_ASK_FRAME_HEADER_LEN :: usize where
  "DIRECT_ASK_FRAME_HEADER_LEN = LENGTH_PREFIX_LEN + DIRECT_ASK_HEADER_LEN"
definition DIRECT_RESPONSE_FRAME_HEADER_LEN :: usize where
  "DIRECT_RESPONSE_FRAME_HEADER_LEN = LENGTH_PREFIX_LEN + DIRECT_RESPONSE_HEADER_LEN"
definition PUBSUB_FRAME_HEADER_LEN :: usize where
  "PUBSUB_FRAME_HEADER_LEN = LENGTH_PREFIX_LEN + PUBSUB_HEADER_LEN"

lemmas header_len_defs [wire_simps] =
  LENGTH_PREFIX_LEN_def ASK_RESPONSE_HEADER_LEN_def GOSSIP_HEADER_LEN_def
  ACTOR_TELL_HEADER_LEN_def ACTOR_ASK_HEADER_LEN_def ROUTED_ACTOR_ASK_HEADER_LEN_def
  ROUTE_BIND_HEADER_LEN_def DIRECT_ASK_HEADER_LEN_def DIRECT_RESPONSE_HEADER_LEN_def
  PUBSUB_HEADER_LEN_def STREAM_REQUEST_START_HEADER_LEN_def
  STREAM_RESPONSE_START_HEADER_LEN_def STREAM_DATA_HEADER_LEN_def
  STREAM_REQUEST_START_FRAME_HEADER_LEN_def STREAM_RESPONSE_START_FRAME_HEADER_LEN_def
  STREAM_DATA_FRAME_HEADER_LEN_def ASK_RESPONSE_FRAME_HEADER_LEN_def
  GOSSIP_FRAME_HEADER_LEN_def ACTOR_TELL_FRAME_HEADER_LEN_def ACTOR_ASK_FRAME_HEADER_LEN_def
  ROUTED_ACTOR_ASK_FRAME_HEADER_LEN_def ROUTE_BIND_FRAME_HEADER_LEN_def
  DIRECT_ASK_FRAME_HEADER_LEN_def DIRECT_RESPONSE_FRAME_HEADER_LEN_def
  PUBSUB_FRAME_HEADER_LEN_def

lemma CONTROL_BODY_LEN_MASK_mask: "CONTROL_BODY_LEN_MASK = mask 27"
  by (simp add: CONTROL_BODY_LEN_MASK_def CONTROL_BODY_LEN_BITS_def CONTROL_KIND_BITS_def
      mask_eq_exp_minus_1)

lemma unat_CONTROL_BODY_LEN_MASK: "unat CONTROL_BODY_LEN_MASK = 2 ^ 27 - 1"
  by (simp add: CONTROL_BODY_LEN_MASK_def CONTROL_BODY_LEN_BITS_def CONTROL_KIND_BITS_def)

subsection \<open>Wire kinds\<close>

datatype WireKind =
    WK_Gossip | WK_Ask | WK_Response | WK_ActorTell | WK_ActorAsk
  | WK_StreamStart | WK_StreamData | WK_StreamResponseStart | WK_StreamResponseData
  | WK_DirectAsk | WK_DirectResponse | WK_PubSub | WK_StreamAbort
  | WK_RouteBind | WK_RoutedActorAsk

fun wire_kind_u8 :: "WireKind \<Rightarrow> u8" where
  "wire_kind_u8 WK_Gossip = 0"
| "wire_kind_u8 WK_Ask = 1"
| "wire_kind_u8 WK_Response = 2"
| "wire_kind_u8 WK_ActorTell = 3"
| "wire_kind_u8 WK_ActorAsk = 4"
| "wire_kind_u8 WK_StreamStart = 5"
| "wire_kind_u8 WK_StreamData = 6"
| "wire_kind_u8 WK_StreamResponseStart = 7"
| "wire_kind_u8 WK_StreamResponseData = 8"
| "wire_kind_u8 WK_DirectAsk = 9"
| "wire_kind_u8 WK_DirectResponse = 10"
| "wire_kind_u8 WK_PubSub = 11"
| "wire_kind_u8 WK_StreamAbort = 12"
| "wire_kind_u8 WK_RouteBind = 13"
| "wire_kind_u8 WK_RoutedActorAsk = 14"

definition wire_kind_ALL :: "WireKind list" where
  "wire_kind_ALL =
     [WK_Gossip, WK_Ask, WK_Response, WK_ActorTell, WK_ActorAsk, WK_StreamStart,
      WK_StreamData, WK_StreamResponseStart, WK_StreamResponseData, WK_DirectAsk,
      WK_DirectResponse, WK_PubSub, WK_StreamAbort, WK_RouteBind, WK_RoutedActorAsk]"

fun from_message_type :: "MessageType \<Rightarrow> WireKind option" where
  "from_message_type MT_Gossip = Some WK_Gossip"
| "from_message_type MT_Ask = Some WK_Ask"
| "from_message_type MT_Response = Some WK_Response"
| "from_message_type MT_ActorTell = Some WK_ActorTell"
| "from_message_type MT_ActorAsk = Some WK_ActorAsk"
| "from_message_type MT_StreamStart = Some WK_StreamStart"
| "from_message_type MT_StreamData = Some WK_StreamData"
| "from_message_type MT_StreamResponseStart = Some WK_StreamResponseStart"
| "from_message_type MT_StreamResponseData = Some WK_StreamResponseData"
| "from_message_type MT_DirectAsk = Some WK_DirectAsk"
| "from_message_type MT_DirectResponse = Some WK_DirectResponse"
| "from_message_type MT_PubSub = Some WK_PubSub"
| "from_message_type MT_StreamEnd = None"
| "from_message_type MT_StreamResponseEnd = None"

fun wire_kind_message_type :: "WireKind \<Rightarrow> MessageType" where
  "wire_kind_message_type WK_Gossip = MT_Gossip"
| "wire_kind_message_type WK_Ask = MT_Ask"
| "wire_kind_message_type WK_Response = MT_Response"
| "wire_kind_message_type WK_ActorTell = MT_ActorTell"
| "wire_kind_message_type WK_ActorAsk = MT_ActorAsk"
| "wire_kind_message_type WK_StreamStart = MT_StreamStart"
| "wire_kind_message_type WK_StreamData = MT_StreamData"
| "wire_kind_message_type WK_StreamResponseStart = MT_StreamResponseStart"
| "wire_kind_message_type WK_StreamResponseData = MT_StreamResponseData"
| "wire_kind_message_type WK_DirectAsk = MT_DirectAsk"
| "wire_kind_message_type WK_DirectResponse = MT_DirectResponse"
| "wire_kind_message_type WK_PubSub = MT_PubSub"
| "wire_kind_message_type WK_StreamAbort = MT_StreamEnd"
| "wire_kind_message_type WK_RouteBind = MT_ActorAsk"
| "wire_kind_message_type WK_RoutedActorAsk = MT_ActorAsk"

definition wire_kind_from_u8 :: "u8 \<Rightarrow> WireKind option" where
  "wire_kind_from_u8 v =
     (if v = 0 then Some WK_Gossip
      else if v = 1 then Some WK_Ask
      else if v = 2 then Some WK_Response
      else if v = 3 then Some WK_ActorTell
      else if v = 4 then Some WK_ActorAsk
      else if v = 5 then Some WK_StreamStart
      else if v = 6 then Some WK_StreamData
      else if v = 7 then Some WK_StreamResponseStart
      else if v = 8 then Some WK_StreamResponseData
      else if v = 9 then Some WK_DirectAsk
      else if v = 10 then Some WK_DirectResponse
      else if v = 11 then Some WK_PubSub
      else if v = 12 then Some WK_StreamAbort
      else if v = 13 then Some WK_RouteBind
      else if v = 14 then Some WK_RoutedActorAsk
      else None)"

lemma wire_kind_from_u8_iff: "wire_kind_from_u8 v = Some k \<longleftrightarrow> v = wire_kind_u8 k"
  by (cases k) (auto simp: wire_kind_from_u8_def)

lemma wire_kind_u8_less: "unat (wire_kind_u8 k) < 15"
  by (cases k) simp_all

lemma wire_kind_ALL_complete: "set wire_kind_ALL = UNIV" "distinct wire_kind_ALL"
proof -
  have "k \<in> set wire_kind_ALL" for k by (cases k) (simp_all add: wire_kind_ALL_def)
  then show "set wire_kind_ALL = UNIV" by auto
  show "distinct wire_kind_ALL" by (simp add: wire_kind_ALL_def)
qed

lemma from_message_type_message_type:
  "from_message_type t = Some k \<Longrightarrow> wire_kind_message_type k = t"
  by (cases t) auto

record Control =
  c_kind :: WireKind
  c_body_len :: usize

subsection \<open>The control word\<close>

definition try_checked_body_len :: "usize \<Rightarrow> usize \<Rightarrow> usize result" where
  "try_checked_body_len fixed_len payload_len =
     (case checked_add fixed_len payload_len of
        Some len \<Rightarrow>
          if len \<le> unat CONTROL_BODY_LEN_MASK then Inr len
          else Inl (MessageTooLarge (saturating_add fixed_len payload_len)
                      (unat CONTROL_BODY_LEN_MASK))
      | None \<Rightarrow> Inl (MessageTooLarge (saturating_add fixed_len payload_len)
                      (unat CONTROL_BODY_LEN_MASK)))"

definition checked_body_len :: "usize \<Rightarrow> usize \<Rightarrow> usize option" where
  "checked_body_len fixed_len payload_len = expect (try_checked_body_len fixed_len payload_len)"

definition control_bytes :: "WireKind \<Rightarrow> usize \<Rightarrow> byte list" where
  "control_bytes kind body_len =
     (let word = push_bit CONTROL_BODY_LEN_BITS (ucast (wire_kind_u8 kind)) OR
                 (word_of_nat body_len :: u32)
      in to_be_bytes 4 word)"

definition try_encode_control :: "WireKind \<Rightarrow> usize \<Rightarrow> byte list result" where
  "try_encode_control kind body_len =
     (if body_len > unat CONTROL_BODY_LEN_MASK
      then Inl (MessageTooLarge body_len (unat CONTROL_BODY_LEN_MASK))
      else Inr (control_bytes kind body_len))"

definition encode_control :: "WireKind \<Rightarrow> usize \<Rightarrow> byte list option" where
  "encode_control kind body_len = expect (try_encode_control kind body_len)"

definition reject_oversize_for_inline_send :: "usize \<Rightarrow> usize \<Rightarrow> usize \<Rightarrow> unit result" where
  "reject_oversize_for_inline_send fixed_header_len payload_len max_message_size =
     (let body_len = saturating_add fixed_header_len payload_len in
      if body_len > max_message_size then Inl (MessageTooLarge body_len max_message_size)
      else Inr ())"

definition decode_control :: "byte list \<Rightarrow> Control option" where
  "decode_control bytes =
     (let word = (from_be_bytes bytes :: u32) in
      case wire_kind_from_u8 (ucast (drop_bit CONTROL_BODY_LEN_BITS word)) of
        None \<Rightarrow> None
      | Some kind \<Rightarrow>
          Some \<lparr> c_kind = kind, c_body_len = unat (word AND CONTROL_BODY_LEN_MASK) \<rparr>)"

lemma try_checked_body_len_iff [simp]:
  "try_checked_body_len f p = Inr n \<longleftrightarrow> n = f + p \<and> f + p < 2 ^ 27"
  by (auto simp: try_checked_body_len_def unat_CONTROL_BODY_LEN_MASK checked_add_def USIZE_MAX_def)

lemma try_checked_body_len_small:
  "f + p < 2 ^ 27 \<Longrightarrow> try_checked_body_len f p = Inr (f + p)"
  by simp

text \<open>The kind and the length occupy disjoint bits of the word, so both read back.\<close>

lemma control_word_fields:
  fixes k :: u8 and n :: nat
  assumes "n < 2 ^ 27" and "unat k < 32"
  defines "w \<equiv> push_bit 27 (ucast k) OR (word_of_nat n :: u32)"
  shows "ucast (drop_bit 27 w) = k" and "unat (w AND mask 27) = n"
proof -
  have tn: "take_bit 27 n = n" using assms(1) by (simp add: take_bit_nat_eq_self)
  have tk: "take_bit 5 (unat k) = unat k" using assms(2) by (simp add: take_bit_nat_eq_self)
  have n: "bit n i \<Longrightarrow> i < 27" for i
    using arg_cong [OF tn, of "\<lambda>m. bit m i"] by (simp add: bit_take_bit_iff)
  have k: "bit k i \<Longrightarrow> i < 5" for i
    using arg_cong [OF tk, of "\<lambda>m. bit m i"] by (auto simp: bit_take_bit_iff bit_unsigned_iff)
  show "ucast (drop_bit 27 w) = k"
    unfolding w_def by (rule bit_word_eqI) (use n k in \<open>force simp: bit_simps\<close>)
  have "w AND mask 27 = word_of_nat n"
    unfolding w_def by (rule bit_word_eqI) (use n in \<open>auto simp: bit_simps\<close>)
  then show "unat (w AND mask 27) = n"
    using assms(1) by (simp add: unsigned_of_nat take_bit_nat_eq_self)
qed

lemma length_control_bytes [simp]: "length (control_bytes k n) = 4"
  by (simp add: control_bytes_def)

lemma decode_control_bytes:
  assumes "n < 2 ^ 27"
  shows "decode_control (control_bytes k n) = Some \<lparr> c_kind = k, c_body_len = n \<rparr>"
proof -
  let ?w = "push_bit 27 (ucast (wire_kind_u8 k)) OR (word_of_nat n :: u32)"
  have k: "unat (wire_kind_u8 k) < 32" using wire_kind_u8_less [of k] by simp
  note f = control_word_fields [OF assms k]
  have "wire_kind_from_u8 (ucast (drop_bit 27 ?w)) = Some k"
    using f(1) by (simp only: wire_kind_from_u8_iff)
  then show ?thesis
    using f(2)
    by (simp add: control_bytes_def decode_control_def CONTROL_BODY_LEN_MASK_mask Let_def
        CONTROL_BODY_LEN_BITS_def CONTROL_KIND_BITS_def)
qed

lemma try_encode_control_iff [simp]:
  "try_encode_control k n = Inr w \<longleftrightarrow> n < 2 ^ 27 \<and> w = control_bytes k n"
  by (auto simp: try_encode_control_def unat_CONTROL_BODY_LEN_MASK)

lemma decode_control_body_len: "decode_control bs = Some c \<Longrightarrow> c_body_len c < 2 ^ 27"
proof -
  have "unat (w AND mask 27) < 2 ^ 27" for w :: u32
    by (simp only: take_bit_eq_mask [symmetric] unsigned_take_bit_eq take_bit_nat_less_exp)
  then show "decode_control bs = Some c \<Longrightarrow> c_body_len c < 2 ^ 27"
    by (auto simp: decode_control_def Let_def CONTROL_BODY_LEN_MASK_mask split: option.splits)
qed

text \<open>A control word that decodes is the encoding of what it decodes to.\<close>

lemma control_bytes_decode:
  assumes "decode_control bs = Some c" and "length bs = 4"
  shows "control_bytes (c_kind c) (c_body_len c) = bs"
proof -
  define w where "w = (from_be_bytes bs :: u32)"
  have c: "wire_kind_u8 (c_kind c) = ucast (drop_bit 27 w)" "c_body_len c = unat (w AND mask 27)"
    using assms(1)
    by (auto simp: decode_control_def Let_def CONTROL_BODY_LEN_MASK_mask w_def
        CONTROL_BODY_LEN_BITS_def CONTROL_KIND_BITS_def wire_kind_from_u8_iff split: option.splits)
  have "push_bit 27 (ucast (ucast (drop_bit 27 w) :: u8)) OR (w AND mask 27) = w"
  proof (rule bit_word_eqI)
    fix i assume "i < LENGTH(32)"
    then have "i - 27 < 8" "27 \<le> i \<Longrightarrow> 27 + (i - 27) = i" by simp_all
    then show "bit (push_bit 27 (ucast (ucast (drop_bit 27 w) :: u8)) OR (w AND mask 27)) i = bit w i"
      using \<open>i < LENGTH(32)\<close> by (auto simp: bit_simps)
  qed
  then have "control_bytes (c_kind c) (c_body_len c) = to_be_bytes 4 w"
    by (simp add: control_bytes_def Let_def c CONTROL_BODY_LEN_BITS_def CONTROL_KIND_BITS_def)
  then show ?thesis using assms(2) by (simp add: w_def to_from_be_bytes)
qed

subsection \<open>Header writers\<close>

definition init_header :: "usize \<Rightarrow> WireKind \<Rightarrow> usize \<Rightarrow> byte list result" where
  "init_header N kind body_len =
     (let header = replicate N 0 in
      bind_res (try_encode_control kind body_len) (\<lambda>word. Inr (copy_into 0 word header)))"

definition try_write_actor_tell_header :: "u64 \<Rightarrow> u32 \<Rightarrow> usize \<Rightarrow> byte list result" where
  "try_write_actor_tell_header actor_id type_hash payload_len =
     bind_res (try_checked_body_len ACTOR_TELL_HEADER_LEN payload_len) (\<lambda>body_len.
     bind_res (init_header ACTOR_TELL_FRAME_HEADER_LEN WK_ActorTell body_len) (\<lambda>header.
     let header = copy_into 4 (to_be_bytes 8 actor_id) header;
         header = copy_into 12 (to_be_bytes 4 type_hash) header
     in Inr header))"

definition write_actor_tell_header :: "u64 \<Rightarrow> u32 \<Rightarrow> usize \<Rightarrow> byte list option" where
  "write_actor_tell_header actor_id type_hash payload_len =
     expect (try_write_actor_tell_header actor_id type_hash payload_len)"

definition try_write_actor_ask_header_with_request_id ::
  "u32 \<Rightarrow> u64 \<Rightarrow> u32 \<Rightarrow> usize \<Rightarrow> u64 option \<Rightarrow> byte list result" where
  "try_write_actor_ask_header_with_request_id correlation_id actor_id type_hash payload_len request_id =
     (if request_id = Some 0 then Inl InvalidConfig
      else
        bind_res (try_checked_body_len ACTOR_ASK_HEADER_LEN payload_len) (\<lambda>body_len.
        bind_res (init_header ACTOR_ASK_FRAME_HEADER_LEN WK_ActorAsk body_len) (\<lambda>header.
        let header = copy_into 4 (to_be_bytes 4 correlation_id) header;
            header = copy_into 8 (to_be_bytes 8 actor_id) header;
            header = copy_into 16 (to_be_bytes 4 type_hash) header;
            header = (case request_id of
                        Some request_id \<Rightarrow> copy_into 20 (to_be_bytes 8 request_id) header
                      | None \<Rightarrow> header)
        in Inr header)))"

definition try_write_actor_ask_header :: "u32 \<Rightarrow> u64 \<Rightarrow> u32 \<Rightarrow> usize \<Rightarrow> byte list result" where
  "try_write_actor_ask_header correlation_id actor_id type_hash payload_len =
     try_write_actor_ask_header_with_request_id correlation_id actor_id type_hash payload_len None"

definition write_actor_ask_header :: "u32 \<Rightarrow> u64 \<Rightarrow> u32 \<Rightarrow> usize \<Rightarrow> byte list option" where
  "write_actor_ask_header correlation_id actor_id type_hash payload_len =
     expect (try_write_actor_ask_header correlation_id actor_id type_hash payload_len)"

definition write_actor_ask_header_with_request_id ::
  "u32 \<Rightarrow> u64 \<Rightarrow> u32 \<Rightarrow> usize \<Rightarrow> u64 option \<Rightarrow> byte list option" where
  "write_actor_ask_header_with_request_id correlation_id actor_id type_hash payload_len request_id =
     expect (try_write_actor_ask_header_with_request_id correlation_id actor_id type_hash
               payload_len request_id)"

definition try_write_routed_actor_ask_header :: "u32 \<Rightarrow> u32 \<Rightarrow> usize \<Rightarrow> byte list result" where
  "try_write_routed_actor_ask_header correlation_id route_slot payload_len =
     bind_res (try_checked_body_len ROUTED_ACTOR_ASK_HEADER_LEN payload_len) (\<lambda>body_len.
     bind_res (init_header ROUTED_ACTOR_ASK_FRAME_HEADER_LEN WK_RoutedActorAsk body_len) (\<lambda>header.
     let header = copy_into 4 (to_be_bytes 4 correlation_id) header;
         header = copy_into 8 (to_be_bytes 4 route_slot) header
     in Inr header))"

definition write_routed_actor_ask_header :: "u32 \<Rightarrow> u32 \<Rightarrow> usize \<Rightarrow> byte list option" where
  "write_routed_actor_ask_header correlation_id route_slot payload_len =
     expect (try_write_routed_actor_ask_header correlation_id route_slot payload_len)"

definition write_route_bind_header :: "u32 \<Rightarrow> u64 \<Rightarrow> u32 \<Rightarrow> byte list option" where
  "write_route_bind_header route_slot actor_id type_hash =
     (case expect (init_header ROUTE_BIND_FRAME_HEADER_LEN WK_RouteBind ROUTE_BIND_HEADER_LEN) of
        None \<Rightarrow> None
      | Some header \<Rightarrow>
          let header = copy_into 4 (to_be_bytes 4 route_slot) header;
              header = copy_into 8 (to_be_bytes 8 actor_id) header;
              header = copy_into 16 (to_be_bytes 4 type_hash) header
          in Some header)"

text \<open>
  \<open>try_write_ask_response_header\<close> panics on any other message type (outer \<open>None\<close>) and
  returns an error for an oversize payload (\<open>Some (Inl _)\<close>).
\<close>

definition try_write_ask_response_header ::
  "MessageType \<Rightarrow> u32 \<Rightarrow> usize \<Rightarrow> byte list result option" where
  "try_write_ask_response_header msg_type correlation_id payload_len =
     (case (case msg_type of
              MT_Ask \<Rightarrow> Some WK_Ask
            | MT_Response \<Rightarrow> Some WK_Response
            | _ \<Rightarrow> None) of
        None \<Rightarrow> None
      | Some kind \<Rightarrow> Some (
          bind_res (try_checked_body_len ASK_RESPONSE_HEADER_LEN payload_len) (\<lambda>body_len.
          bind_res (init_header ASK_RESPONSE_FRAME_HEADER_LEN kind body_len) (\<lambda>header.
          let header = copy_into 4 (to_be_bytes 4 correlation_id) header
          in Inr header))))"

definition write_ask_response_header :: "MessageType \<Rightarrow> u32 \<Rightarrow> usize \<Rightarrow> byte list option" where
  "write_ask_response_header msg_type correlation_id payload_len =
     (case try_write_ask_response_header msg_type correlation_id payload_len of
        None \<Rightarrow> None
      | Some r \<Rightarrow> expect r)"

subsection \<open>Ask refusals\<close>

fun ask_nack_reason_u8 :: "AskNackReason \<Rightarrow> u8" where
  "ask_nack_reason_u8 UnknownActor = 1"
| "ask_nack_reason_u8 HandlerError = 2"
| "ask_nack_reason_u8 NoDispatcher = 3"
| "ask_nack_reason_u8 Backpressure = 4"
| "ask_nack_reason_u8 Unsupported = 0"

definition ask_nack_reason_from_u8 :: "u8 \<Rightarrow> AskNackReason" where
  "ask_nack_reason_from_u8 v =
     (if v = 1 then UnknownActor
      else if v = 2 then HandlerError
      else if v = 3 then NoDispatcher
      else if v = 4 then Backpressure
      else Unsupported)"

definition ASK_NACK_FLAG_BODY_OFFSET :: usize where "ASK_NACK_FLAG_BODY_OFFSET = 4"
definition ASK_NACK_REASON_BODY_OFFSET :: usize where "ASK_NACK_REASON_BODY_OFFSET = 5"
definition ASK_NACK_FLAG_SET :: u8 where "ASK_NACK_FLAG_SET = 1"

definition try_write_ask_nack_header :: "u32 \<Rightarrow> AskNackReason \<Rightarrow> byte list result" where
  "try_write_ask_nack_header correlation_id reason =
     bind_res (init_header ASK_RESPONSE_FRAME_HEADER_LEN WK_Response ASK_RESPONSE_HEADER_LEN)
       (\<lambda>header.
     let header = copy_into 4 (to_be_bytes 4 correlation_id) header;
         header = header[LENGTH_PREFIX_LEN + ASK_NACK_FLAG_BODY_OFFSET := ASK_NACK_FLAG_SET];
         header = header[LENGTH_PREFIX_LEN + ASK_NACK_REASON_BODY_OFFSET := ask_nack_reason_u8 reason]
     in Inr header)"

definition write_ask_nack_header :: "u32 \<Rightarrow> AskNackReason \<Rightarrow> byte list option" where
  "write_ask_nack_header correlation_id reason =
     expect (try_write_ask_nack_header correlation_id reason)"

definition ask_nack_reason :: "byte list \<Rightarrow> AskNackReason option" where
  "ask_nack_reason region =
     (if length region < ASK_RESPONSE_HEADER_LEN then None
      else if region ! ASK_NACK_FLAG_BODY_OFFSET \<noteq> ASK_NACK_FLAG_SET then None
      else Some (ask_nack_reason_from_u8 (region ! ASK_NACK_REASON_BODY_OFFSET)))"

lemma ask_nack_reason_u8_from_u8 [simp]: "ask_nack_reason_from_u8 (ask_nack_reason_u8 r) = r"
  by (cases r) (simp_all add: ask_nack_reason_from_u8_def)

subsection \<open>Prefixes, direct asks and streams\<close>

definition try_write_gossip_frame_prefix :: "usize \<Rightarrow> byte list result" where
  "try_write_gossip_frame_prefix payload_len =
     bind_res (try_checked_body_len GOSSIP_HEADER_LEN payload_len)
       (init_header GOSSIP_FRAME_HEADER_LEN WK_Gossip)"

definition write_gossip_frame_prefix :: "usize \<Rightarrow> byte list option" where
  "write_gossip_frame_prefix payload_len = expect (try_write_gossip_frame_prefix payload_len)"

definition try_write_pubsub_frame_prefix :: "usize \<Rightarrow> byte list result" where
  "try_write_pubsub_frame_prefix payload_len =
     bind_res (try_checked_body_len PUBSUB_HEADER_LEN payload_len)
       (init_header PUBSUB_FRAME_HEADER_LEN WK_PubSub)"

definition write_pubsub_frame_prefix :: "usize \<Rightarrow> byte list option" where
  "write_pubsub_frame_prefix payload_len = expect (try_write_pubsub_frame_prefix payload_len)"

definition try_write_direct_ask_header :: "u32 \<Rightarrow> u64 \<Rightarrow> usize \<Rightarrow> byte list result" where
  "try_write_direct_ask_header correlation_id request_id payload_len =
     bind_res (try_checked_body_len DIRECT_ASK_HEADER_LEN payload_len) (\<lambda>body_len.
     bind_res (init_header DIRECT_ASK_FRAME_HEADER_LEN WK_DirectAsk body_len) (\<lambda>header.
     let header = copy_into 4 (to_be_bytes 4 correlation_id) header;
         header = copy_into 8 (to_be_bytes 8 request_id) header
     in Inr header))"

definition write_direct_ask_header :: "u32 \<Rightarrow> u64 \<Rightarrow> usize \<Rightarrow> byte list option" where
  "write_direct_ask_header correlation_id request_id payload_len =
     expect (try_write_direct_ask_header correlation_id request_id payload_len)"

definition direct_ask_request_id :: "byte list \<Rightarrow> u64 option" where
  "direct_ask_request_id body =
     (if length body < DIRECT_ASK_HEADER_LEN then None
      else let request_id = (from_be_bytes (slice 4 12 body) :: u64) in
           if request_id = 0 then None else Some request_id)"

definition try_write_direct_response_header :: "u32 \<Rightarrow> usize \<Rightarrow> byte list result" where
  "try_write_direct_response_header correlation_id payload_len =
     bind_res (try_checked_body_len DIRECT_RESPONSE_HEADER_LEN payload_len) (\<lambda>body_len.
     bind_res (init_header DIRECT_RESPONSE_FRAME_HEADER_LEN WK_DirectResponse body_len) (\<lambda>header.
     let header = copy_into 4 (to_be_bytes 4 correlation_id) header
     in Inr header))"

definition write_direct_response_header :: "u32 \<Rightarrow> usize \<Rightarrow> byte list option" where
  "write_direct_response_header correlation_id payload_len =
     expect (try_write_direct_response_header correlation_id payload_len)"

definition try_write_stream_request_start_header ::
  "u32 \<Rightarrow> u32 \<Rightarrow> u32 \<Rightarrow> u64 \<Rightarrow> u32 \<Rightarrow> usize \<Rightarrow> byte list result" where
  "try_write_stream_request_start_header stream_id correlation_id total_size actor_id type_hash
       first_chunk_len =
     bind_res (try_checked_body_len STREAM_REQUEST_START_HEADER_LEN first_chunk_len) (\<lambda>body_len.
     bind_res (init_header STREAM_REQUEST_START_FRAME_HEADER_LEN WK_StreamStart body_len) (\<lambda>header.
     let header = copy_into 4 (to_be_bytes 4 stream_id) header;
         header = copy_into 8 (to_be_bytes 4 correlation_id) header;
         header = copy_into 12 (to_be_bytes 4 total_size) header;
         header = copy_into 16 (to_be_bytes 8 actor_id) header;
         header = copy_into 24 (to_be_bytes 4 type_hash) header
     in Inr header))"

definition write_stream_request_start_header ::
  "u32 \<Rightarrow> u32 \<Rightarrow> u32 \<Rightarrow> u64 \<Rightarrow> u32 \<Rightarrow> usize \<Rightarrow> byte list option" where
  "write_stream_request_start_header stream_id correlation_id total_size actor_id type_hash
       first_chunk_len =
     expect (try_write_stream_request_start_header stream_id correlation_id total_size actor_id
               type_hash first_chunk_len)"

definition try_write_stream_response_start_header ::
  "u32 \<Rightarrow> u32 \<Rightarrow> u32 \<Rightarrow> usize \<Rightarrow> byte list result" where
  "try_write_stream_response_start_header stream_id correlation_id total_size first_chunk_len =
     bind_res (try_checked_body_len STREAM_RESPONSE_START_HEADER_LEN first_chunk_len) (\<lambda>body_len.
     bind_res (init_header STREAM_RESPONSE_START_FRAME_HEADER_LEN WK_StreamResponseStart body_len)
       (\<lambda>header.
     let header = copy_into 4 (to_be_bytes 4 stream_id) header;
         header = copy_into 8 (to_be_bytes 4 correlation_id) header;
         header = copy_into 12 (to_be_bytes 4 total_size) header
     in Inr header))"

definition write_stream_response_start_header ::
  "u32 \<Rightarrow> u32 \<Rightarrow> u32 \<Rightarrow> usize \<Rightarrow> byte list option" where
  "write_stream_response_start_header stream_id correlation_id total_size first_chunk_len =
     expect (try_write_stream_response_start_header stream_id correlation_id total_size
               first_chunk_len)"

definition try_write_stream_data_header :: "bool \<Rightarrow> u32 \<Rightarrow> u32 \<Rightarrow> usize \<Rightarrow> byte list result" where
  "try_write_stream_data_header response stream_id chunk_index payload_len =
     (let kind = (if response then WK_StreamResponseData else WK_StreamData) in
      bind_res (try_checked_body_len STREAM_DATA_HEADER_LEN payload_len) (\<lambda>body_len.
      bind_res (init_header STREAM_DATA_FRAME_HEADER_LEN kind body_len) (\<lambda>header.
      let header = copy_into 4 (to_be_bytes 4 stream_id) header;
          header = copy_into 8 (to_be_bytes 4 chunk_index) header
      in Inr header)))"

definition write_stream_data_header :: "bool \<Rightarrow> u32 \<Rightarrow> u32 \<Rightarrow> usize \<Rightarrow> byte list option" where
  "write_stream_data_header response stream_id chunk_index payload_len =
     expect (try_write_stream_data_header response stream_id chunk_index payload_len)"

definition write_stream_abort_header :: "u32 \<Rightarrow> u32 \<Rightarrow> byte list option" where
  "write_stream_abort_header stream_id reason =
     (case expect (init_header STREAM_DATA_FRAME_HEADER_LEN WK_StreamAbort STREAM_DATA_HEADER_LEN) of
        None \<Rightarrow> None
      | Some header \<Rightarrow>
          let header = copy_into 4 (to_be_bytes 4 stream_id) header;
              header = copy_into 8 (to_be_bytes 4 reason) header
          in Some header)"

subsection \<open>The written headers as concatenations\<close>

text \<open>
  A header built by copies into a zeroed array is the concatenation of its fields and its
  padding: a copy skips what has been written before it and consumes zeros.
\<close>

lemma copy_into_append:
  "length xs \<le> a \<Longrightarrow> copy_into a bs (xs @ ys) = xs @ copy_into (a - length xs) bs ys"
  by (simp add: copy_into_def)

lemma copy_into_zeros:
  "length bs \<le> n \<Longrightarrow> copy_into 0 bs (replicate n 0) = bs @ replicate (n - length bs) 0"
  by (simp add: copy_into_def)

lemma init_header_iff:
  assumes "4 \<le> N"
  shows "init_header N k n = Inr h \<longleftrightarrow>
    n < 2 ^ 27 \<and> h = control_bytes k n @ replicate (N - 4) 0"
  using assms by (auto simp: init_header_def bind_res_eq_Inr copy_into_zeros)

lemma init_header_small:
  "4 \<le> N \<Longrightarrow> n < 2 ^ 27 \<Longrightarrow> init_header N k n = Inr (control_bytes k n @ replicate (N - 4) 0)"
  by (simp add: init_header_iff)

abbreviation (input) too_large :: "usize \<Rightarrow> usize \<Rightarrow> GossipError" where
  "too_large f p \<equiv> MessageTooLarge (saturating_add f p) (2 ^ 27 - 1)"

lemma try_checked_body_len_if:
  "try_checked_body_len f p = (if f + p < 2 ^ 27 then Inr (f + p) else Inl (too_large f p))"
  by (auto simp: try_checked_body_len_def unat_CONTROL_BODY_LEN_MASK checked_add_def USIZE_MAX_def)

lemmas header_simps =
  init_header_small copy_into_append copy_into_zeros Let_def try_checked_body_len_if

lemma actor_tell_header_eq:
  "try_write_actor_tell_header a t p =
     (if 12 + p < 2 ^ 27
      then Inr (control_bytes WK_ActorTell (12 + p) @ to_be_bytes 8 a @ to_be_bytes 4 t)
      else Inl (too_large 12 p))"
  by (simp add: try_write_actor_tell_header_def header_simps wire_simps)

lemma actor_ask_header_eq:
  "try_write_actor_ask_header_with_request_id c a t p r =
     (if r = Some 0 then Inl InvalidConfig
      else if 28 + p < 2 ^ 27
      then Inr (control_bytes WK_ActorAsk (28 + p) @ to_be_bytes 4 c @ to_be_bytes 8 a @
             to_be_bytes 4 t @ (case r of None \<Rightarrow> replicate 8 0 | Some i \<Rightarrow> to_be_bytes 8 i) @
             replicate 4 0)
      else Inl (too_large 28 p))"
proof -
  have z: "replicate 12 (0 :: byte) = replicate 8 0 @ replicate 4 0"
    using replicate_add [of 8 4 "0 :: byte"] by simp
  show ?thesis
    by (simp add: try_write_actor_ask_header_with_request_id_def header_simps wire_simps z
        copy_into_def [of 0] split: option.split)
qed

lemma routed_actor_ask_header_eq:
  "try_write_routed_actor_ask_header c s p =
     (if 12 + p < 2 ^ 27
      then Inr (control_bytes WK_RoutedActorAsk (12 + p) @ to_be_bytes 4 c @ to_be_bytes 4 s @
             replicate 4 0)
      else Inl (too_large 12 p))"
  by (simp add: try_write_routed_actor_ask_header_def header_simps wire_simps)

lemma route_bind_header_eq:
  "write_route_bind_header s a t =
     Some (control_bytes WK_RouteBind 20 @ to_be_bytes 4 s @ to_be_bytes 8 a @ to_be_bytes 4 t @
       replicate 4 0)"
  by (simp add: write_route_bind_header_def header_simps wire_simps)

lemma ask_response_header_eq:
  "try_write_ask_response_header ty c p =
     (if ty = MT_Ask \<or> ty = MT_Response
      then Some (if 12 + p < 2 ^ 27
        then Inr (control_bytes (if ty = MT_Ask then WK_Ask else WK_Response) (12 + p) @
               to_be_bytes 4 c @ replicate 8 0)
        else Inl (too_large 12 p))
      else None)"
  by (cases ty) (simp_all add: try_write_ask_response_header_def header_simps wire_simps)

lemma ask_nack_header_eq:
  "try_write_ask_nack_header c r =
     Inr (control_bytes WK_Response 12 @ to_be_bytes 4 c @ [1, ask_nack_reason_u8 r] @ replicate 6 0)"
proof -
  have z: "replicate 8 (0 :: byte) = 0 # 0 # replicate 6 0"
    by (simp add: eval_nat_numeral)
  have "try_write_ask_nack_header c r =
      Inr (((control_bytes WK_Response 12 @ to_be_bytes 4 c @ replicate 8 0)[8 := 1])
             [9 := ask_nack_reason_u8 r])"
    by (simp add: try_write_ask_nack_header_def header_simps wire_simps
        ASK_NACK_FLAG_BODY_OFFSET_def ASK_NACK_REASON_BODY_OFFSET_def ASK_NACK_FLAG_SET_def)
  then show ?thesis by (simp add: z list_update_append)
qed

lemma gossip_prefix_eq:
  "try_write_gossip_frame_prefix p =
     (if 12 + p < 2 ^ 27 then Inr (control_bytes WK_Gossip (12 + p) @ replicate 12 0)
      else Inl (too_large 12 p))"
  by (simp add: try_write_gossip_frame_prefix_def header_simps wire_simps)

lemma pubsub_prefix_eq:
  "try_write_pubsub_frame_prefix p =
     (if 12 + p < 2 ^ 27 then Inr (control_bytes WK_PubSub (12 + p) @ replicate 12 0)
      else Inl (too_large 12 p))"
  by (simp add: try_write_pubsub_frame_prefix_def header_simps wire_simps)

lemma direct_ask_header_eq:
  "try_write_direct_ask_header c r p =
     (if 12 + p < 2 ^ 27
      then Inr (control_bytes WK_DirectAsk (12 + p) @ to_be_bytes 4 c @ to_be_bytes 8 r)
      else Inl (too_large 12 p))"
  by (simp add: try_write_direct_ask_header_def header_simps wire_simps)

lemma direct_response_header_eq:
  "try_write_direct_response_header c p =
     (if 12 + p < 2 ^ 27
      then Inr (control_bytes WK_DirectResponse (12 + p) @ to_be_bytes 4 c @ replicate 8 0)
      else Inl (too_large 12 p))"
  by (simp add: try_write_direct_response_header_def header_simps wire_simps)

lemma stream_request_start_header_eq:
  "try_write_stream_request_start_header s c n a t p =
     (if 24 + p < 2 ^ 27
      then Inr (control_bytes WK_StreamStart (24 + p) @ to_be_bytes 4 s @ to_be_bytes 4 c @
             to_be_bytes 4 n @ to_be_bytes 8 a @ to_be_bytes 4 t)
      else Inl (too_large 24 p))"
  by (simp add: try_write_stream_request_start_header_def header_simps wire_simps)

lemma stream_response_start_header_eq:
  "try_write_stream_response_start_header s c n p =
     (if 12 + p < 2 ^ 27
      then Inr (control_bytes WK_StreamResponseStart (12 + p) @ to_be_bytes 4 s @ to_be_bytes 4 c @
             to_be_bytes 4 n)
      else Inl (too_large 12 p))"
  by (simp add: try_write_stream_response_start_header_def header_simps wire_simps)

lemma stream_data_header_eq:
  "try_write_stream_data_header response s i p =
     (if 8 + p < 2 ^ 27
      then Inr (control_bytes (if response then WK_StreamResponseData else WK_StreamData) (8 + p) @
             to_be_bytes 4 s @ to_be_bytes 4 i)
      else Inl (too_large 8 p))"
  by (simp add: try_write_stream_data_header_def header_simps wire_simps)

lemma stream_abort_header_eq:
  "write_stream_abort_header s r =
     Some (control_bytes WK_StreamAbort 8 @ to_be_bytes 4 s @ to_be_bytes 4 r)"
  by (simp add: write_stream_abort_header_def header_simps wire_simps)

lemmas header_eqs =
  actor_tell_header_eq actor_ask_header_eq routed_actor_ask_header_eq route_bind_header_eq
  ask_response_header_eq ask_nack_header_eq gossip_prefix_eq pubsub_prefix_eq
  direct_ask_header_eq direct_response_header_eq stream_request_start_header_eq
  stream_response_start_header_eq stream_data_header_eq stream_abort_header_eq

subsection \<open>Correctness\<close>

text \<open>
  C2. The control word is a bijection between four-byte words that decode and pairs of a
  wire kind and a 27-bit body length: a word decodes to a kind and a length exactly when it
  is what the encoder emits for them.
\<close>

theorem control_word_roundtrip:
  assumes "length w = LENGTH_PREFIX_LEN"
  shows "decode_control w = Some \<lparr> c_kind = k, c_body_len = n \<rparr> \<longleftrightarrow> try_encode_control k n = Inr w"
proof
  assume d: "decode_control w = Some \<lparr> c_kind = k, c_body_len = n \<rparr>"
  show "try_encode_control k n = Inr w"
    using control_bytes_decode [OF d] decode_control_body_len [OF d] assms
    by (simp add: LENGTH_PREFIX_LEN_def)
next
  assume "try_encode_control k n = Inr w"
  then show "decode_control w = Some \<lparr> c_kind = k, c_body_len = n \<rparr>"
    by (auto simp: decode_control_bytes)
qed

theorem control_word_roundtrip_witness:
  "decode_control [0x20, 0, 0, 28] = Some \<lparr> c_kind = WK_ActorAsk, c_body_len = 28 \<rparr> \<and>
   try_encode_control WK_ActorAsk 28 = Inr [0x20, 0, 0, 28]"
proof -
  have "try_encode_control WK_ActorAsk 28 = Inr [0x20, 0, 0, 28]"
    by (simp add: control_bytes_def to_be_bytes_def upt_rec CONTROL_BODY_LEN_BITS_def
        CONTROL_KIND_BITS_def)
  then show ?thesis
    using control_word_roundtrip [of "[0x20, 0, 0, 28]" WK_ActorAsk 28]
    by (simp add: LENGTH_PREFIX_LEN_def)
qed

end
