(* ===== verification/Route_Table.thy ===== *)
theory Route_Table
  imports Prelude
begin

text \<open>
  Connection-scoped route slots of \<^verbatim>\<open>src/route_interning.rs\<close>. The two hash maps under the
  lock are partial functions, the atomic counter is a word, and each critical section is one
  state-passing operation (the poisoned-lock branches, which only follow a panic while
  holding the lock, are not modelled).

  The invariant \<open>routes_wf\<close> says that the two maps are inverse to each other, that slot 0 is
  never used, and that the number of routes respects the limit. It is kept by the sender's
  operations (\<open>slot_for\<close>, \<open>remove_unbound\<close>) and by the receiver's (\<open>bind\<close>), through one
  locale of operations over an invariant that later theories instantiate as well.
\<close>

subsection \<open>The model\<close>

definition MAX_ROUTES_PER_CONNECTION :: usize where
  "MAX_ROUTES_PER_CONNECTION = 65536"

record RouteKey =
  rk_actor_id :: u64
  rk_type_hash :: u32

record RouteTable =
  next_slot :: u32
  max_routes :: usize
  by_key :: "RouteKey \<rightharpoonup> u32"
  by_slot :: "u32 \<rightharpoonup> RouteKey"

definition with_limit :: "usize \<Rightarrow> RouteTable" where
  "with_limit limit =
     \<lparr> next_slot = 1, max_routes = limit, by_key = Map.empty, by_slot = Map.empty \<rparr>"

definition route_table_new :: RouteTable where
  "route_table_new = with_limit MAX_ROUTES_PER_CONNECTION"

text \<open>
  The compare-and-swap loop of \<open>allocate_slot\<close> as one atomic step: it either leaves the
  counter and returns nothing, or takes the current value.
\<close>

definition allocate_slot :: "RouteTable \<Rightarrow> u32 option \<times> RouteTable" where
  "allocate_slot t =
     (let current = next_slot t in
      if current = 0 \<or> current = - 1 then (None, t)
      else (Some current, t \<lparr> next_slot := current + 1 \<rparr>))"

definition slot_for :: "RouteKey \<Rightarrow> RouteTable \<Rightarrow> (u32 \<times> bool) option \<times> RouteTable" where
  "slot_for key t =
     (case by_key t key of
        Some slot \<Rightarrow> (Some (slot, False), t)
      | None \<Rightarrow>
          if card (dom (by_key t)) \<ge> max_routes t then (None, t)
          else (case allocate_slot t of
                  (None, t) \<Rightarrow> (None, t)
                | (Some slot, t) \<Rightarrow>
                    (Some (slot, True),
                     t \<lparr> by_slot := (by_slot t)(slot \<mapsto> key),
                         by_key := (by_key t)(key \<mapsto> slot) \<rparr>)))"

definition bind_route :: "u32 \<Rightarrow> RouteKey \<Rightarrow> RouteTable \<Rightarrow> bool \<times> RouteTable" where
  "bind_route slot key t =
     (if slot = 0 then (False, t)
      else case by_slot t slot of
        Some existing \<Rightarrow> if existing \<noteq> key then (False, t) else (True, t)
      | None \<Rightarrow>
          if card (dom (by_key t)) \<ge> max_routes t then (False, t)
          else if (case by_key t key of Some existing \<Rightarrow> existing \<noteq> slot | None \<Rightarrow> False)
          then (False, t)
          else (True,
                t \<lparr> by_slot := (by_slot t)(slot \<mapsto> key),
                    by_key := (by_key t)(key \<mapsto> slot) \<rparr>))"

definition resolve :: "u32 \<Rightarrow> RouteTable \<Rightarrow> RouteKey option" where
  "resolve slot t = by_slot t slot"

definition remove_unbound :: "u32 \<Rightarrow> RouteKey \<Rightarrow> RouteTable \<Rightarrow> RouteTable" where
  "remove_unbound slot key t =
     (if by_slot t slot = Some key \<and> by_key t key = Some slot
      then t \<lparr> by_slot := (by_slot t)(slot := None), by_key := (by_key t)(key := None) \<rparr>
      else t)"

text \<open>\<open>UnboundRouteGuard\<close>: dropping an armed guard removes the route.\<close>

record UnboundRouteGuard =
  g_slot :: u32
  g_key :: RouteKey
  g_armed :: bool

definition guard_new :: "u32 \<Rightarrow> RouteKey \<Rightarrow> UnboundRouteGuard" where
  "guard_new slot key = \<lparr> g_slot = slot, g_key = key, g_armed = True \<rparr>"

definition disarm :: "UnboundRouteGuard \<Rightarrow> UnboundRouteGuard" where
  "disarm g = g \<lparr> g_armed := False \<rparr>"

definition guard_drop :: "UnboundRouteGuard \<Rightarrow> RouteTable \<Rightarrow> RouteTable" where
  "guard_drop g t = (if g_armed g then remove_unbound (g_slot g) (g_key g) t else t)"

subsection \<open>Invariant\<close>

definition routes_wf :: "RouteTable \<Rightarrow> bool" where
  "routes_wf t \<longleftrightarrow>
     (\<forall>k s. by_key t k = Some s \<longleftrightarrow> by_slot t s = Some k) \<and>
     by_slot t 0 = None \<and>
     finite (dom (by_key t)) \<and> card (dom (by_key t)) \<le> max_routes t"

lemma routes_wf_inverse: "routes_wf t \<Longrightarrow> by_key t k = Some s \<longleftrightarrow> by_slot t s = Some k"
  by (simp add: routes_wf_def)

lemma routes_wf_card: "routes_wf t \<Longrightarrow> card (dom (by_key t)) \<le> max_routes t"
  by (simp add: routes_wf_def)

lemma routes_wf_with_limit: "routes_wf (with_limit n)"
  by (simp add: routes_wf_def with_limit_def)

lemma routes_wf_insert:
  assumes "routes_wf t" "s \<noteq> 0" "by_slot t s = None" "by_key t k = None"
    "card (dom (by_key t)) < max_routes t"
  shows "routes_wf (t \<lparr> by_slot := (by_slot t)(s \<mapsto> k), by_key := (by_key t)(k \<mapsto> s) \<rparr>)"
proof -
  have "card (insert k (dom (by_key t))) \<le> max_routes t"
    using assms by (subst card_insert_disjoint) (auto simp: routes_wf_def)
  moreover have "by_slot t s' \<noteq> Some k" "by_key t k' \<noteq> Some s" for s' k'
    using assms(3,4) routes_wf_inverse [OF assms(1)] by (metis option.distinct(1))+
  ultimately show ?thesis using assms by (auto simp: routes_wf_def)
qed

lemma routes_wf_next_slot: "routes_wf (t \<lparr> next_slot := n \<rparr>) \<longleftrightarrow> routes_wf t"
  by (simp add: routes_wf_def)

lemma routes_wf_bind_route:
  assumes "routes_wf t"
  shows "routes_wf (snd (bind_route s k t))"
proof (cases "s \<noteq> 0 \<and> by_slot t s = None \<and> card (dom (by_key t)) < max_routes t")
  case True
  with assms have "by_key t k \<noteq> Some s" by (simp add: routes_wf_inverse)
  with True assms show ?thesis
    by (cases "by_key t k") (auto simp: bind_route_def intro: routes_wf_insert)
qed (use assms in \<open>auto simp: bind_route_def split: option.split\<close>)

lemma routes_wf_remove_unbound:
  assumes "routes_wf t"
  shows "routes_wf (remove_unbound s k t)"
proof (cases "by_slot t s = Some k \<and> by_key t k = Some s")
  case True
  have "card (dom (by_key t) - {k}) \<le> max_routes t"
    using assms card_Diff1_le [of "dom (by_key t)" k] by (simp add: routes_wf_def)
  moreover have "by_slot t s' \<noteq> Some k" if "s' \<noteq> s" for s'
    using that True routes_wf_inverse [OF assms] by (metis option.inject)
  moreover have "by_key t k' \<noteq> Some s" if "k' \<noteq> k" for k'
    using that True routes_wf_inverse [OF assms] by (metis option.inject)
  ultimately show ?thesis
    using True assms by (auto simp: remove_unbound_def routes_wf_def)
qed (use assms in \<open>auto simp: remove_unbound_def\<close>)

text \<open>
  The counter runs ahead of every slot the table has handed out, which makes a fresh slot
  unused. Only the sender's table has this property: a receiver stores the slots its peer
  chose.
\<close>

definition slots_below :: "RouteTable \<Rightarrow> bool" where
  "slots_below t \<longleftrightarrow> (\<forall>s k. by_slot t s = Some k \<longrightarrow> s < next_slot t)"

definition sender_inv :: "RouteTable \<Rightarrow> bool" where
  "sender_inv t \<longleftrightarrow> routes_wf t \<and> slots_below t"

lemma slots_belowD: "slots_below t \<Longrightarrow> by_slot t s = Some k \<Longrightarrow> s < next_slot t"
  by (auto simp: slots_below_def)

lemma sender_inv_with_limit: "sender_inv (with_limit n)"
  by (simp add: sender_inv_def routes_wf_with_limit slots_below_def) (simp add: with_limit_def)

lemma allocate_slot_cases:
  obtains (none) "allocate_slot t = (None, t)"
  | (some) "allocate_slot t = (Some (next_slot t), t \<lparr> next_slot := next_slot t + 1 \<rparr>)"
      "next_slot t \<noteq> 0" "next_slot t \<noteq> - 1"
  by (cases "next_slot t = 0 \<or> next_slot t = - 1") (auto simp: allocate_slot_def Let_def)

lemma slot_for_cases:
  obtains (known) s where "by_key t k = Some s" "slot_for k t = (Some (s, False), t)"
  | (full) "by_key t k = None" "slot_for k t = (None, t)"
  | (fresh) "by_key t k = None" "card (dom (by_key t)) < max_routes t"
      "next_slot t \<noteq> 0" "next_slot t \<noteq> - 1"
      "slot_for k t = (Some (next_slot t, True),
         t \<lparr> next_slot := next_slot t + 1, by_slot := (by_slot t)(next_slot t \<mapsto> k),
             by_key := (by_key t)(k \<mapsto> next_slot t) \<rparr>)"
  by (cases "by_key t k"; cases "card (dom (by_key t)) \<ge> max_routes t";
      rule allocate_slot_cases [of t])
    (auto simp: slot_for_def not_le)

lemma sender_inv_slot_for:
  assumes "sender_inv t"
  shows "sender_inv (snd (slot_for k t))"
proof (cases rule: slot_for_cases [of t k])
  case fresh
  let ?t = "t \<lparr> next_slot := next_slot t + 1 \<rparr>"
  have routes_wf: "routes_wf ?t" using assms by (simp add: sender_inv_def routes_wf_next_slot)
  have free: "by_slot t (next_slot t) = None"
    using assms slots_belowD [of t "next_slot t"] by (fastforce simp: sender_inv_def)
  have "routes_wf (snd (slot_for k t))"
    using routes_wf_insert [OF routes_wf, of "next_slot t" k] fresh free by simp
  moreover have "slots_below (snd (slot_for k t))"
    using assms fresh word_less_succ [of "next_slot t"]
    by (auto simp: sender_inv_def slots_below_def intro: order_less_trans)
  ultimately show ?thesis by (simp add: sender_inv_def)
qed (use assms in simp_all)

lemma sender_inv_remove_unbound: "sender_inv t \<Longrightarrow> sender_inv (remove_unbound s k t)"
  by (auto simp: sender_inv_def routes_wf_remove_unbound slots_below_def) (auto simp: remove_unbound_def split: if_splits)

subsection \<open>Operation sequences\<close>

datatype sender_op = SlotFor RouteKey | RemoveUnbound u32 RouteKey

fun sender_step :: "sender_op \<Rightarrow> RouteTable \<Rightarrow> RouteTable" where
  "sender_step (SlotFor k) t = snd (slot_for k t)"
| "sender_step (RemoveUnbound s k) t = remove_unbound s k t"

fun receiver_step :: "u32 \<times> RouteKey \<Rightarrow> RouteTable \<Rightarrow> RouteTable" where
  "receiver_step (s, k) t = snd (bind_route s k t)"

definition counter_le :: "RouteTable \<Rightarrow> RouteTable \<Rightarrow> bool" where
  "counter_le t u \<longleftrightarrow> next_slot t \<le> next_slot u"

definition bindings_le :: "RouteTable \<Rightarrow> RouteTable \<Rightarrow> bool" where
  "bindings_le t u \<longleftrightarrow> by_slot t \<subseteq>\<^sub>m by_slot u"

lemma next_slot_sender_step: "next_slot t \<le> next_slot (sender_step oper t)"
proof (cases oper)
  case (SlotFor k)
  then show ?thesis
    by (cases rule: slot_for_cases [of t k]) (auto simp: word_less_succ less_imp_le)
qed (simp add: remove_unbound_def)

interpretation sender: monotone_ops sender_inv sender_step counter_le
proof unfold_locales
  show "sender_inv (sender_step oper t)" if "sender_inv t" for oper t
    using that by (cases oper) (simp_all add: sender_inv_slot_for sender_inv_remove_unbound)
qed (auto simp: counter_le_def next_slot_sender_step)

interpretation receiver: monotone_ops routes_wf receiver_step bindings_le
proof unfold_locales
  show "routes_wf (receiver_step b t)" if "routes_wf t" for b t
    using that by (cases b) (simp add: routes_wf_bind_route)
  show "bindings_le t (receiver_step b t)" for b t
    by (cases b) (auto simp: bindings_le_def map_le_def bind_route_def split: option.split)
qed (auto simp: bindings_le_def intro: map_le_trans)

subsection \<open>Correctness\<close>

lemma fresh_slot_is_counter:
  assumes "slot_for k t = (Some (s, True), u)"
  shows "s = next_slot t" "s < next_slot u"
  using assms by (cases rule: slot_for_cases [of t k]; auto simp: word_less_succ)+

text \<open>
  C6. Slot ids are never reused. On the sender's table, a freshly allocated slot is greater
  than every slot allocated before it, whatever lookups, allocations and rollbacks happen in
  between; so no slot can come to stand for two routes.
\<close>

theorem fresh_slots_increase:
  assumes "slot_for k (fold sender_step before (with_limit limit)) = (Some (s, True), u)"
    and "slot_for k' (fold sender_step later u) = (Some (s', True), v)"
  shows "s < s'"
proof -
  have "sender_inv (fold sender_step before (with_limit limit))"
    by (rule sender.inv_fold [OF sender_inv_with_limit])
  then have "sender_inv u" using sender_inv_slot_for [of _ k] assms(1) by fastforce
  then have "next_slot u \<le> next_slot (fold sender_step later u)"
    using sender.fold_below by (simp add: counter_le_def)
  with fresh_slot_is_counter [OF assms(1)] fresh_slot_is_counter(1) [OF assms(2)]
  show ?thesis by simp
qed

theorem fresh_slots_increase_witness:
  "let k = \<lparr> rk_actor_id = 1, rk_type_hash = 1 \<rparr>;
       u = snd (slot_for k (fold sender_step [] (with_limit 2)));
       v = fold sender_step [RemoveUnbound 1 k] u
   in fst (slot_for k (with_limit 2)) = Some (1, True) \<and> fst (slot_for k v) = Some (2, True) \<and>
      (1 :: u32) < 2"
proof -
  let ?k = "\<lparr> rk_actor_id = 1, rk_type_hash = 1 \<rparr>"
  let ?u = "snd (slot_for ?k (fold sender_step [] (with_limit 2)))"
  let ?v = "fold sender_step [RemoveUnbound 1 ?k] ?u"
  have 1: "slot_for ?k (fold sender_step [] (with_limit 2)) = (Some (1, True), ?u)"
    by (simp add: slot_for_def with_limit_def allocate_slot_def)
  have 2: "slot_for ?k ?v = (Some (2, True), snd (slot_for ?k ?v))"
    by (simp add: slot_for_def with_limit_def allocate_slot_def remove_unbound_def)
  from fresh_slots_increase [OF 1 2] 1 2 show ?thesis
    by (metis fold_simps(1) fst_conv id_apply)
qed

text \<open>
  C7. Bindings of a receiver are permanent and bounded: once a slot is bound, no later
  sequence of bind frames changes what it resolves to, and at most the table's limit of
  routes exists at any time.
\<close>

theorem bound_slot_is_stable:
  assumes "bind_route slot key (fold receiver_step before (with_limit limit)) = (True, t)"
  shows "resolve slot (fold receiver_step later t) = Some key \<and>
    card (dom (by_key (fold receiver_step later t))) \<le> limit"
proof -
  let ?s = "fold receiver_step before (with_limit limit)"
  have "routes_wf ?s" by (rule receiver.inv_fold [OF routes_wf_with_limit])
  then have wf: "routes_wf t" using routes_wf_bind_route [of ?s slot key] assms by simp
  have t: "by_slot t slot = Some key"
    using assms by (auto simp: bind_route_def split: if_splits option.splits)
  have "bindings_le t (fold receiver_step later t)" by (rule receiver.fold_below [OF wf])
  with t have "resolve slot (fold receiver_step later t) = Some key"
    by (auto simp: bindings_le_def map_le_def resolve_def dom_def)
  moreover have "max_routes (fold receiver_step bs u) = max_routes u" for bs u
    by (induction bs arbitrary: u)
      (auto simp: bind_route_def split: option.split prod.split)
  then have "max_routes (fold receiver_step later t) = limit"
    using assms by (auto simp: bind_route_def with_limit_def split: if_splits option.splits)
  ultimately show ?thesis
    using routes_wf_card [OF receiver.inv_fold [OF wf, of later]] by simp
qed

theorem bound_slot_is_stable_witness:
  "let k = \<lparr> rk_actor_id = 1, rk_type_hash = 1 \<rparr>; k' = \<lparr> rk_actor_id = 2, rk_type_hash = 1 \<rparr>;
       t = snd (bind_route 5 k (fold receiver_step [] (with_limit 1)))
   in fst (bind_route 5 k (fold receiver_step [] (with_limit 1))) \<and>
      resolve 5 (fold receiver_step [(5, k'), (6, k')] t) = Some k \<and>
      card (dom (by_key (fold receiver_step [(5, k'), (6, k')] t))) \<le> 1"
proof -
  let ?k = "\<lparr> rk_actor_id = 1, rk_type_hash = 1 \<rparr>"
  have b: "bind_route 5 ?k (fold receiver_step [] (with_limit 1)) =
      (True, snd (bind_route 5 ?k (fold receiver_step [] (with_limit 1))))"
    by (simp add: bind_route_def with_limit_def)
  from bound_slot_is_stable [OF b] b show ?thesis
    unfolding Let_def by (metis fst_conv)
qed

end
