(* ===== verification/Frame_Parser.thy ===== *)
theory Frame_Parser
  imports Framing Aligned Route_Table
begin

text \<open>
  The V5 frame parser of \<^verbatim>\<open>src/handle.rs\<close>
  (\<open>parse_message_from_pooled_buffer_with_routes\<close>), and the reader of one frame from a byte
  stream used before a connection is set up (\<open>read_message_from_tls_reader\<close>).

  Registry messages are archived by \<^verbatim>\<open>rkyv\<close>: the decoder \<open>decode_registry_message\<close> is a
  parameter. The result type is generic in the decoded registry message and in the payload,
  which the parser gives as an \<open>AlignedBytes\<close> view.

  The round-trip lemmas relate the parser to the writers of \<open>Framing\<close>: an abstract frame
  (\<open>frame\<close>) is written by the code's own writers (\<open>encode_frame\<close>) and must be read back
  as the message it stands for (\<open>delivered\<close>).
\<close>

subsection \<open>The parser\<close>

datatype ('m, 'p) MessageReadResult =
    MR_RouteBound
  | MR_Gossip 'm "u32 option"
  | MR_AskRaw u32 'p
  | MR_Response u32 'p
  | MR_AskNack u32 AskNackReason
  | MR_Raw "byte list"
  | MR_PubSub 'p
  | MR_Actor (mr_msg_type: u8) (mr_correlation_id: u32) (mr_actor_id: u64) (mr_type_hash: u32)
      (mr_request_id: "u64 option") (mr_schema_hash: "u64 option") (mr_payload: 'p)
  | MR_Streaming u8 u32 "u64 option" StreamHeader "byte list"
  | MR_StreamAbort u64 u32
  | MR_DirectAsk u32 u64 'p
  | MR_DirectResponse u32 'p

definition invalid_v5_frame :: GossipError where
  "invalid_v5_frame = Network InvalidData"

type_synonym 'm parsed = "('m, AlignedBytes) MessageReadResult result"

text \<open>
  One parser per wire kind: the branches of the \<open>match\<close>. \<open>body\<close> is the buffer after the
  control word and \<open>body_len\<close> its announced length.
\<close>

definition parse_actor_tell :: "AlignedBuffer \<Rightarrow> byte list \<Rightarrow> usize \<Rightarrow> 'm parsed" where
  "parse_actor_tell buffer body body_len =
     (if length body < ACTOR_TELL_HEADER_LEN then Inl invalid_v5_frame
      else
        let actor_id = from_be_bytes (slice 0 8 body);
            type_hash = from_be_bytes (slice 8 12 body)
        in bind_res (from_pooled_buffer_range buffer ACTOR_TELL_FRAME_HEADER_LEN
                       (wrapping_sub body_len ACTOR_TELL_HEADER_LEN)) (\<lambda>payload.
           Inr (MR_Actor (message_type_byte MT_ActorTell) 0 actor_id type_hash None None payload)))"

definition parse_actor_ask :: "AlignedBuffer \<Rightarrow> byte list \<Rightarrow> usize \<Rightarrow> 'm parsed" where
  "parse_actor_ask buffer body body_len =
     (if length body < ACTOR_ASK_HEADER_LEN then Inl invalid_v5_frame
      else
        let correlation_id = from_be_bytes (slice 0 4 body) in
        if correlation_id = 0 then Inl invalid_v5_frame
        else
          let actor_id = from_be_bytes (slice 4 12 body);
              type_hash = from_be_bytes (slice 12 16 body)
          in if list_ex (\<lambda>b. b \<noteq> 0) (slice 24 28 body) then Inl invalid_v5_frame
             else
               let request_id = (from_be_bytes (slice 16 24 body) :: u64) in
               bind_res (from_pooled_buffer_range buffer ACTOR_ASK_FRAME_HEADER_LEN
                           (wrapping_sub body_len ACTOR_ASK_HEADER_LEN)) (\<lambda>payload.
               Inr (MR_Actor (message_type_byte MT_ActorAsk) correlation_id actor_id type_hash
                      (if request_id \<noteq> 0 then Some request_id else None) None payload)))"

definition parse_route_bind ::
  "byte list \<Rightarrow> RouteTable option \<Rightarrow> 'm parsed \<times> RouteTable option" where
  "parse_route_bind body routes =
     (if length body \<noteq> ROUTE_BIND_HEADER_LEN then (Inl invalid_v5_frame, routes)
      else
        let route_slot = from_be_bytes (slice 0 4 body);
            actor_id = from_be_bytes (slice 4 12 body);
            type_hash = from_be_bytes (slice 12 16 body)
        in if list_ex (\<lambda>b. b \<noteq> 0) (slice 16 20 body) then (Inl invalid_v5_frame, routes)
           else case routes of
             None \<Rightarrow> (Inl invalid_v5_frame, None)
           | Some t \<Rightarrow>
               (case bind_route route_slot
                       \<lparr> rk_actor_id = actor_id, rk_type_hash = type_hash \<rparr> t of
                  (False, t) \<Rightarrow> (Inl invalid_v5_frame, Some t)
                | (True, t) \<Rightarrow> (Inr MR_RouteBound, Some t)))"

definition parse_routed_actor_ask ::
  "AlignedBuffer \<Rightarrow> byte list \<Rightarrow> usize \<Rightarrow> RouteTable option \<Rightarrow> 'm parsed" where
  "parse_routed_actor_ask buffer body body_len routes =
     (if length body < ROUTED_ACTOR_ASK_HEADER_LEN then Inl invalid_v5_frame
      else
        let correlation_id = from_be_bytes (slice 0 4 body) in
        if correlation_id = 0 then Inl invalid_v5_frame
        else
          let route_slot = from_be_bytes (slice 4 8 body) in
          if list_ex (\<lambda>b. b \<noteq> 0) (slice 8 12 body) then Inl invalid_v5_frame
          else
            bind_res (ok_or invalid_v5_frame routes) (\<lambda>t.
            bind_res (ok_or invalid_v5_frame (resolve route_slot t)) (\<lambda>route.
            bind_res (from_pooled_buffer_range buffer ROUTED_ACTOR_ASK_FRAME_HEADER_LEN
                        (wrapping_sub body_len ROUTED_ACTOR_ASK_HEADER_LEN)) (\<lambda>payload.
            Inr (MR_Actor (message_type_byte MT_ActorAsk) correlation_id (rk_actor_id route)
                   (rk_type_hash route) None None payload)))))"

definition parse_ask ::
  "(byte list \<Rightarrow> 'm option) \<Rightarrow> AlignedBuffer \<Rightarrow> byte list \<Rightarrow> usize \<Rightarrow> 'm parsed" where
  "parse_ask decode_registry_message buffer body body_len =
     (if length body < ASK_RESPONSE_HEADER_LEN then Inl invalid_v5_frame
      else
        let correlation_id = from_be_bytes (slice 0 4 body);
            offset = ASK_RESPONSE_FRAME_HEADER_LEN
        in case decode_registry_message (drop offset (ab_data buffer)) of
             Some message \<Rightarrow> Inr (MR_Gossip message (Some correlation_id))
           | None \<Rightarrow>
               bind_res (from_pooled_buffer_range buffer offset
                           (wrapping_sub body_len ASK_RESPONSE_HEADER_LEN)) (\<lambda>payload.
               Inr (MR_AskRaw correlation_id payload)))"

definition parse_response :: "AlignedBuffer \<Rightarrow> byte list \<Rightarrow> usize \<Rightarrow> 'm parsed" where
  "parse_response buffer body body_len =
     (if length body < ASK_RESPONSE_HEADER_LEN then Inl invalid_v5_frame
      else
        let correlation_id = from_be_bytes (slice 0 4 body) in
        case ask_nack_reason body of
          Some reason \<Rightarrow> Inr (MR_AskNack correlation_id reason)
        | None \<Rightarrow>
            bind_res (from_pooled_buffer_range buffer ASK_RESPONSE_FRAME_HEADER_LEN
                        (wrapping_sub body_len ASK_RESPONSE_HEADER_LEN)) (\<lambda>payload.
            Inr (MR_Response correlation_id payload)))"

definition parse_direct_ask :: "AlignedBuffer \<Rightarrow> byte list \<Rightarrow> usize \<Rightarrow> 'm parsed" where
  "parse_direct_ask buffer body body_len =
     (if length body < DIRECT_ASK_HEADER_LEN then Inl invalid_v5_frame
      else
        let correlation_id = from_be_bytes (slice 0 4 body) in
        bind_res (ok_or invalid_v5_frame (direct_ask_request_id body)) (\<lambda>request_id.
        bind_res (from_pooled_buffer_range buffer DIRECT_ASK_FRAME_HEADER_LEN
                    (wrapping_sub body_len DIRECT_ASK_HEADER_LEN)) (\<lambda>payload.
        Inr (MR_DirectAsk correlation_id request_id payload))))"

definition parse_direct_response :: "AlignedBuffer \<Rightarrow> byte list \<Rightarrow> usize \<Rightarrow> 'm parsed" where
  "parse_direct_response buffer body body_len =
     (if length body < DIRECT_ASK_HEADER_LEN then Inl invalid_v5_frame
      else
        let correlation_id = from_be_bytes (slice 0 4 body) in
        bind_res (from_pooled_buffer_range buffer DIRECT_ASK_FRAME_HEADER_LEN
                    (wrapping_sub body_len DIRECT_ASK_HEADER_LEN)) (\<lambda>payload.
        Inr (MR_DirectResponse correlation_id payload)))"

definition parse_pubsub :: "AlignedBuffer \<Rightarrow> byte list \<Rightarrow> usize \<Rightarrow> 'm parsed" where
  "parse_pubsub buffer body body_len =
     (if length body < PUBSUB_HEADER_LEN then Inl invalid_v5_frame
      else
        bind_res (from_pooled_buffer_range buffer PUBSUB_FRAME_HEADER_LEN
                    (wrapping_sub body_len PUBSUB_HEADER_LEN)) (\<lambda>payload.
        Inr (MR_PubSub payload)))"

definition parse_gossip :: "(byte list \<Rightarrow> 'm option) \<Rightarrow> AlignedBuffer \<Rightarrow> byte list \<Rightarrow> 'm parsed" where
  "parse_gossip decode_registry_message buffer body =
     (if length body < GOSSIP_HEADER_LEN then Inl invalid_v5_frame
      else case decode_registry_message (drop GOSSIP_FRAME_HEADER_LEN (ab_data buffer)) of
        Some message \<Rightarrow> Inr (MR_Gossip message None)
      | None \<Rightarrow> Inr (MR_Raw (drop LENGTH_PREFIX_LEN (ab_data buffer))))"

definition parse_stream_start :: "AlignedBuffer \<Rightarrow> byte list \<Rightarrow> 'm parsed" where
  "parse_stream_start buffer body =
     (if length body < STREAM_REQUEST_START_HEADER_LEN then Inl invalid_v5_frame
      else
        let stream_id = ucast (from_be_bytes (slice 0 4 body) :: u32);
            correlation_id = from_be_bytes (slice 4 8 body);
            total_size = ucast (from_be_bytes (slice 8 12 body) :: u32);
            actor_id = from_be_bytes (slice 12 20 body);
            type_hash = from_be_bytes (slice 20 24 body);
            chunk_data = drop STREAM_REQUEST_START_FRAME_HEADER_LEN (ab_data buffer)
        in Inr (MR_Streaming (message_type_byte MT_StreamStart) correlation_id None
             \<lparr> sh_stream_id = stream_id, sh_total_size = total_size,
               sh_chunk_size = word_of_nat (length chunk_data), sh_chunk_index = 0,
               sh_type_hash = type_hash, sh_actor_id = actor_id \<rparr> chunk_data))"

definition parse_stream_response_start :: "AlignedBuffer \<Rightarrow> byte list \<Rightarrow> 'm parsed" where
  "parse_stream_response_start buffer body =
     (if length body < STREAM_RESPONSE_START_HEADER_LEN then Inl invalid_v5_frame
      else
        let stream_id = ucast (from_be_bytes (slice 0 4 body) :: u32);
            correlation_id = from_be_bytes (slice 4 8 body);
            total_size = ucast (from_be_bytes (slice 8 12 body) :: u32);
            chunk_data = drop STREAM_RESPONSE_START_FRAME_HEADER_LEN (ab_data buffer)
        in Inr (MR_Streaming (message_type_byte MT_StreamResponseStart) correlation_id None
             \<lparr> sh_stream_id = stream_id, sh_total_size = total_size,
               sh_chunk_size = word_of_nat (length chunk_data), sh_chunk_index = 0,
               sh_type_hash = 0, sh_actor_id = 0 \<rparr> chunk_data))"

definition parse_stream_data :: "WireKind \<Rightarrow> AlignedBuffer \<Rightarrow> byte list \<Rightarrow> 'm parsed" where
  "parse_stream_data kind buffer body =
     (if length body < STREAM_DATA_HEADER_LEN then Inl invalid_v5_frame
      else
        let stream_id = ucast (from_be_bytes (slice 0 4 body) :: u32);
            chunk_index = from_be_bytes (slice 4 8 body);
            chunk_data = drop STREAM_DATA_FRAME_HEADER_LEN (ab_data buffer)
        in Inr (MR_Streaming
             (if kind = WK_StreamData then message_type_byte MT_StreamData
              else message_type_byte MT_StreamResponseData) 0 None
             \<lparr> sh_stream_id = stream_id, sh_total_size = 0,
               sh_chunk_size = word_of_nat (length chunk_data), sh_chunk_index = chunk_index,
               sh_type_hash = 0, sh_actor_id = 0 \<rparr> chunk_data))"

definition parse_stream_abort :: "byte list \<Rightarrow> 'm parsed" where
  "parse_stream_abort body =
     (if length body \<noteq> STREAM_DATA_HEADER_LEN then Inl invalid_v5_frame
      else Inr (MR_StreamAbort (ucast (from_be_bytes (slice 0 4 body) :: u32))
                  (from_be_bytes (slice 4 8 body))))"

text \<open>The whole parser. A buffer shorter than a control word panics (\<open>None\<close>).\<close>

definition parse_message_from_pooled_buffer_with_routes ::
  "(byte list \<Rightarrow> 'm option) \<Rightarrow> AlignedBuffer \<Rightarrow> usize \<Rightarrow> RouteTable option \<Rightarrow>
   ('m parsed \<times> RouteTable option) option" where
  "parse_message_from_pooled_buffer_with_routes decode_registry_message buffer msg_len routes =
     (if length (ab_data buffer) < LENGTH_PREFIX_LEN then None
      else Some
        (case decode_control (slice 0 LENGTH_PREFIX_LEN (ab_data buffer)) of
           None \<Rightarrow> (Inl invalid_v5_frame, routes)
         | Some control \<Rightarrow>
             if c_body_len control \<noteq> msg_len then (Inl invalid_v5_frame, routes)
             else
               let body = drop LENGTH_PREFIX_LEN (ab_data buffer); body_len = msg_len in
               case c_kind control of
                 WK_ActorTell \<Rightarrow> (parse_actor_tell buffer body body_len, routes)
               | WK_ActorAsk \<Rightarrow> (parse_actor_ask buffer body body_len, routes)
               | WK_RouteBind \<Rightarrow> parse_route_bind body routes
               | WK_RoutedActorAsk \<Rightarrow> (parse_routed_actor_ask buffer body body_len routes, routes)
               | WK_Ask \<Rightarrow> (parse_ask decode_registry_message buffer body body_len, routes)
               | WK_Response \<Rightarrow> (parse_response buffer body body_len, routes)
               | WK_DirectAsk \<Rightarrow> (parse_direct_ask buffer body body_len, routes)
               | WK_DirectResponse \<Rightarrow> (parse_direct_response buffer body body_len, routes)
               | WK_PubSub \<Rightarrow> (parse_pubsub buffer body body_len, routes)
               | WK_Gossip \<Rightarrow> (parse_gossip decode_registry_message buffer body, routes)
               | WK_StreamStart \<Rightarrow> (parse_stream_start buffer body, routes)
               | WK_StreamResponseStart \<Rightarrow> (parse_stream_response_start buffer body, routes)
               | WK_StreamData \<Rightarrow> (parse_stream_data (c_kind control) buffer body, routes)
               | WK_StreamResponseData \<Rightarrow> (parse_stream_data (c_kind control) buffer body, routes)
               | WK_StreamAbort \<Rightarrow> (parse_stream_abort body, routes)))"

definition parse_message_from_pooled_buffer ::
  "(byte list \<Rightarrow> 'm option) \<Rightarrow> AlignedBuffer \<Rightarrow> usize \<Rightarrow>
   ('m parsed \<times> RouteTable option) option" where
  "parse_message_from_pooled_buffer decode_registry_message buffer msg_len =
     parse_message_from_pooled_buffer_with_routes decode_registry_message buffer msg_len None"

lemmas parser_defs =
  parse_actor_tell_def parse_actor_ask_def parse_route_bind_def parse_routed_actor_ask_def
  parse_ask_def parse_response_def parse_direct_ask_def parse_direct_response_def
  parse_pubsub_def parse_gossip_def parse_stream_start_def parse_stream_response_start_def
  parse_stream_data_def parse_stream_abort_def

subsection \<open>Frames as the writers emit them\<close>

text \<open>
  What a peer can put on the wire, with the arguments of the writer it uses. The payload
  follows the header.
\<close>

datatype frame =
    F_ActorTell u64 u32 "byte list"
  | F_ActorAsk u32 u64 u32 "u64 option" "byte list"
  | F_RouteBind u32 RouteKey
  | F_RoutedActorAsk u32 u32 "byte list"
  | F_Ask u32 "byte list"
  | F_Response u32 "byte list"
  | F_AskNack u32 AskNackReason
  | F_DirectAsk u32 u64 "byte list"
  | F_DirectResponse u32 "byte list"
  | F_PubSub "byte list"
  | F_Gossip "byte list"
  | F_StreamStart u32 u32 u32 u64 u32 "byte list"
  | F_StreamResponseStart u32 u32 u32 "byte list"
  | F_StreamData bool u32 u32 "byte list"
  | F_StreamAbort u32 u32

definition with_payload :: "byte list \<Rightarrow> byte list result \<Rightarrow> byte list result" where
  "with_payload payload header = bind_res header (\<lambda>h. Inr (h @ payload))"

fun encode_frame :: "frame \<Rightarrow> byte list result" where
  "encode_frame (F_ActorTell a t p) = with_payload p (try_write_actor_tell_header a t (length p))"
| "encode_frame (F_ActorAsk c a t r p) =
     with_payload p (try_write_actor_ask_header_with_request_id c a t (length p) r)"
| "encode_frame (F_RouteBind s k) =
     ok_or InvalidConfig (write_route_bind_header s (rk_actor_id k) (rk_type_hash k))"
| "encode_frame (F_RoutedActorAsk c s p) =
     with_payload p (try_write_routed_actor_ask_header c s (length p))"
| "encode_frame (F_Ask c p) =
     with_payload p (case try_write_ask_response_header MT_Ask c (length p) of
       None \<Rightarrow> Inl InvalidConfig | Some r \<Rightarrow> r)"
| "encode_frame (F_Response c p) =
     with_payload p (case try_write_ask_response_header MT_Response c (length p) of
       None \<Rightarrow> Inl InvalidConfig | Some r \<Rightarrow> r)"
| "encode_frame (F_AskNack c r) = try_write_ask_nack_header c r"
| "encode_frame (F_DirectAsk c r p) = with_payload p (try_write_direct_ask_header c r (length p))"
| "encode_frame (F_DirectResponse c p) =
     with_payload p (try_write_direct_response_header c (length p))"
| "encode_frame (F_PubSub p) = with_payload p (try_write_pubsub_frame_prefix (length p))"
| "encode_frame (F_Gossip p) = with_payload p (try_write_gossip_frame_prefix (length p))"
| "encode_frame (F_StreamStart s c n a t p) =
     with_payload p (try_write_stream_request_start_header s c n a t (length p))"
| "encode_frame (F_StreamResponseStart s c n p) =
     with_payload p (try_write_stream_response_start_header s c n (length p))"
| "encode_frame (F_StreamData response s i p) =
     with_payload p (try_write_stream_data_header response s i (length p))"
| "encode_frame (F_StreamAbort s r) = ok_or InvalidConfig (write_stream_abort_header s r)"

text \<open>The control word and the body of a frame.\<close>

fun frame_kind :: "frame \<Rightarrow> WireKind" where
  "frame_kind (F_ActorTell _ _ _) = WK_ActorTell"
| "frame_kind (F_ActorAsk _ _ _ _ _) = WK_ActorAsk"
| "frame_kind (F_RouteBind _ _) = WK_RouteBind"
| "frame_kind (F_RoutedActorAsk _ _ _) = WK_RoutedActorAsk"
| "frame_kind (F_Ask _ _) = WK_Ask"
| "frame_kind (F_Response _ _) = WK_Response"
| "frame_kind (F_AskNack _ _) = WK_Response"
| "frame_kind (F_DirectAsk _ _ _) = WK_DirectAsk"
| "frame_kind (F_DirectResponse _ _) = WK_DirectResponse"
| "frame_kind (F_PubSub _) = WK_PubSub"
| "frame_kind (F_Gossip _) = WK_Gossip"
| "frame_kind (F_StreamStart _ _ _ _ _ _) = WK_StreamStart"
| "frame_kind (F_StreamResponseStart _ _ _ _) = WK_StreamResponseStart"
| "frame_kind (F_StreamData response _ _ _) =
     (if response then WK_StreamResponseData else WK_StreamData)"
| "frame_kind (F_StreamAbort _ _) = WK_StreamAbort"

fun frame_body :: "frame \<Rightarrow> byte list" where
  "frame_body (F_ActorTell a t p) = to_be_bytes 8 a @ to_be_bytes 4 t @ p"
| "frame_body (F_ActorAsk c a t r p) =
     to_be_bytes 4 c @ to_be_bytes 8 a @ to_be_bytes 4 t @
     (case r of None \<Rightarrow> replicate 8 0 | Some i \<Rightarrow> to_be_bytes 8 i) @ replicate 4 0 @ p"
| "frame_body (F_RouteBind s k) =
     to_be_bytes 4 s @ to_be_bytes 8 (rk_actor_id k) @ to_be_bytes 4 (rk_type_hash k) @ replicate 4 0"
| "frame_body (F_RoutedActorAsk c s p) =
     to_be_bytes 4 c @ to_be_bytes 4 s @ replicate 4 0 @ p"
| "frame_body (F_Ask c p) = to_be_bytes 4 c @ replicate 8 0 @ p"
| "frame_body (F_Response c p) = to_be_bytes 4 c @ replicate 8 0 @ p"
| "frame_body (F_AskNack c r) = to_be_bytes 4 c @ [1, ask_nack_reason_u8 r] @ replicate 6 0"
| "frame_body (F_DirectAsk c r p) = to_be_bytes 4 c @ to_be_bytes 8 r @ p"
| "frame_body (F_DirectResponse c p) = to_be_bytes 4 c @ replicate 8 0 @ p"
| "frame_body (F_PubSub p) = replicate 12 0 @ p"
| "frame_body (F_Gossip p) = replicate 12 0 @ p"
| "frame_body (F_StreamStart s c n a t p) =
     to_be_bytes 4 s @ to_be_bytes 4 c @ to_be_bytes 4 n @ to_be_bytes 8 a @ to_be_bytes 4 t @ p"
| "frame_body (F_StreamResponseStart s c n p) =
     to_be_bytes 4 s @ to_be_bytes 4 c @ to_be_bytes 4 n @ p"
| "frame_body (F_StreamData response s i p) = to_be_bytes 4 s @ to_be_bytes 4 i @ p"
| "frame_body (F_StreamAbort s r) = to_be_bytes 4 s @ to_be_bytes 4 r"

lemma encode_frame_Inr:
  "encode_frame f = Inr bytes \<Longrightarrow>
   length (frame_body f) < 2 ^ 27 \<and>
   bytes = control_bytes (frame_kind f) (length (frame_body f)) @ frame_body f"
  by (cases f) (auto simp: with_payload_def bind_res_eq_Inr header_eqs split: if_splits option.splits)

lemma frame_body_nonempty: "0 < length (frame_body f)"
  by (cases f) auto

subsection \<open>What the receiver must see\<close>

text \<open>
  \<open>delivered\<close> is the message a frame stands for on a connection whose inbound route table
  is \<open>routes\<close>, or \<open>None\<close> when the receiver must refuse it; \<open>routes_after\<close> is the effect on
  the table.
\<close>

fun delivered ::
  "(byte list \<Rightarrow> 'm option) \<Rightarrow> RouteTable option \<Rightarrow> frame \<Rightarrow> ('m, byte list) MessageReadResult option"
where
  "delivered dec routes (F_ActorTell a t p) =
     Some (MR_Actor (message_type_byte MT_ActorTell) 0 a t None None p)"
| "delivered dec routes (F_ActorAsk c a t r p) =
     (if c = 0 then None else Some (MR_Actor (message_type_byte MT_ActorAsk) c a t r None p))"
| "delivered dec routes (F_RouteBind s k) =
     (case routes of
        None \<Rightarrow> None
      | Some rt \<Rightarrow> if fst (bind_route s k rt) then Some MR_RouteBound else None)"
| "delivered dec routes (F_RoutedActorAsk c s p) =
     (if c = 0 then None
      else case Option.bind routes (resolve s) of
        None \<Rightarrow> None
      | Some k \<Rightarrow> Some (MR_Actor (message_type_byte MT_ActorAsk) c (rk_actor_id k)
                          (rk_type_hash k) None None p))"
| "delivered dec routes (F_Ask c p) =
     (case dec p of Some m \<Rightarrow> Some (MR_Gossip m (Some c)) | None \<Rightarrow> Some (MR_AskRaw c p))"
| "delivered dec routes (F_Response c p) = Some (MR_Response c p)"
| "delivered dec routes (F_AskNack c r) = Some (MR_AskNack c r)"
| "delivered dec routes (F_DirectAsk c r p) = (if r = 0 then None else Some (MR_DirectAsk c r p))"
| "delivered dec routes (F_DirectResponse c p) = Some (MR_DirectResponse c p)"
| "delivered dec routes (F_PubSub p) = Some (MR_PubSub p)"
| "delivered dec routes (F_Gossip p) =
     (case dec p of
        Some m \<Rightarrow> Some (MR_Gossip m None)
      | None \<Rightarrow> Some (MR_Raw (replicate 12 0 @ p)))"
| "delivered dec routes (F_StreamStart s c n a t p) =
     Some (MR_Streaming (message_type_byte MT_StreamStart) c None
       \<lparr> sh_stream_id = ucast s, sh_total_size = ucast n, sh_chunk_size = word_of_nat (length p),
         sh_chunk_index = 0, sh_type_hash = t, sh_actor_id = a \<rparr> p)"
| "delivered dec routes (F_StreamResponseStart s c n p) =
     Some (MR_Streaming (message_type_byte MT_StreamResponseStart) c None
       \<lparr> sh_stream_id = ucast s, sh_total_size = ucast n, sh_chunk_size = word_of_nat (length p),
         sh_chunk_index = 0, sh_type_hash = 0, sh_actor_id = 0 \<rparr> p)"
| "delivered dec routes (F_StreamData response s i p) =
     Some (MR_Streaming
       (message_type_byte (if response then MT_StreamResponseData else MT_StreamData)) 0 None
       \<lparr> sh_stream_id = ucast s, sh_total_size = 0, sh_chunk_size = word_of_nat (length p),
         sh_chunk_index = i, sh_type_hash = 0, sh_actor_id = 0 \<rparr> p)"
| "delivered dec routes (F_StreamAbort s r) = Some (MR_StreamAbort (ucast s) r)"

fun routes_after :: "RouteTable option \<Rightarrow> frame \<Rightarrow> RouteTable option" where
  "routes_after (Some rt) (F_RouteBind s k) = Some (snd (bind_route s k rt))"
| "routes_after routes _ = routes"

definition view :: "'m parsed \<Rightarrow> ('m, byte list) MessageReadResult result" where
  "view r = map_sum id (map_MessageReadResult id AlignedBytes_as_ref) r"

lemma view_simps [simp]: "view (Inl e) = Inl e"
  "view (Inr m) = Inr (map_MessageReadResult id AlignedBytes_as_ref m)"
  by (simp_all add: view_def)

text \<open>The parser on a buffer that holds a well-formed control word.\<close>

lemma parse_body:
  assumes "ab_data b = control_bytes k (length body) @ body" "length body < 2 ^ 27"
  shows "parse_message_from_pooled_buffer_with_routes dec b (length body) routes = Some (
    case k of
      WK_ActorTell \<Rightarrow> (parse_actor_tell b body (length body), routes)
    | WK_ActorAsk \<Rightarrow> (parse_actor_ask b body (length body), routes)
    | WK_RouteBind \<Rightarrow> parse_route_bind body routes
    | WK_RoutedActorAsk \<Rightarrow> (parse_routed_actor_ask b body (length body) routes, routes)
    | WK_Ask \<Rightarrow> (parse_ask dec b body (length body), routes)
    | WK_Response \<Rightarrow> (parse_response b body (length body), routes)
    | WK_DirectAsk \<Rightarrow> (parse_direct_ask b body (length body), routes)
    | WK_DirectResponse \<Rightarrow> (parse_direct_response b body (length body), routes)
    | WK_PubSub \<Rightarrow> (parse_pubsub b body (length body), routes)
    | WK_Gossip \<Rightarrow> (parse_gossip dec b body, routes)
    | WK_StreamStart \<Rightarrow> (parse_stream_start b body, routes)
    | WK_StreamResponseStart \<Rightarrow> (parse_stream_response_start b body, routes)
    | WK_StreamData \<Rightarrow> (parse_stream_data k b body, routes)
    | WK_StreamResponseData \<Rightarrow> (parse_stream_data k b body, routes)
    | WK_StreamAbort \<Rightarrow> (parse_stream_abort body, routes))"
proof -
  have "slice 0 LENGTH_PREFIX_LEN (ab_data b) = control_bytes k (length body)"
    using assms by (simp add: slice_def wire_simps)
  then show ?thesis
    using assms
    by (cases k) (simp_all add: parse_message_from_pooled_buffer_with_routes_def
        decode_control_bytes wire_simps)
qed

text \<open>The payload view after a header whose frame length is a multiple of the alignment.\<close>

lemma payload_view:
  assumes "ab_data b = control_bytes k n @ header @ payload"
    "4 + length header = offset" "offset mod 16 = 0" "length (ab_data b) \<le> USIZE_MAX"
    "0 < ab_capacity b" "m = length payload"
  shows "\<exists>a. from_pooled_buffer_range b offset m = Inr a \<and> AlignedBytes_as_ref a = payload"
proof -
  have "from_pooled_buffer_range b offset m =
      Inr \<lparr> aby_inner = InnerPooled b, aby_offset = offset, aby_len = m \<rparr>"
    using assms by (intro from_pooled_buffer_range_ok) (auto simp: PAYLOAD_ALIGNMENT_def)
  moreover have "slice offset (offset + m) (ab_data b) = payload"
    using assms by (auto simp: slice_def)
  ultimately show ?thesis by (simp add: AlignedBytes_as_ref_def)
qed

lemma list_ex_replicate_zero [simp]: "list_ex (\<lambda>b. b \<noteq> 0) (replicate n (0 :: byte)) = False"
  by (induction n) auto

lemma from_be_bytes_zero [simp]: "from_be_bytes (replicate n 0) = (0 :: 'a::len word)"
  by (induction n) (simp_all add: from_be_bytes_def)


text \<open>The same for the payload of a frame: where it starts and that its view is the payload.\<close>

fun payload_part :: "frame \<Rightarrow> (usize \<times> byte list) option" where
  "payload_part (F_ActorTell a t p) = Some (16, p)"
| "payload_part (F_ActorAsk c a t r p) = Some (32, p)"
| "payload_part (F_RoutedActorAsk c s p) = Some (16, p)"
| "payload_part (F_Ask c p) = Some (16, p)"
| "payload_part (F_Response c p) = Some (16, p)"
| "payload_part (F_DirectAsk c r p) = Some (16, p)"
| "payload_part (F_DirectResponse c p) = Some (16, p)"
| "payload_part (F_PubSub p) = Some (16, p)"
| "payload_part _ = None"

lemma payload_part_view:
  assumes "ab_data b = control_bytes k n @ frame_body f" "length (ab_data b) \<le> USIZE_MAX"
    "0 < ab_capacity b" "payload_part f = Some (off, p)"
  shows "\<exists>a. from_pooled_buffer_range b off (length p) = Inr a \<and> AlignedBytes_as_ref a = p"
proof -
  have "frame_body f = take (off - 4) (frame_body f) @ p \<and>
      4 + length (take (off - 4) (frame_body f)) = off \<and> off mod 16 = 0"
    using assms(4) by (cases f) (simp_all split: option.split)
  then obtain header where h: "frame_body f = header @ p" "4 + length header = off" "off mod 16 = 0"
    by metis
  show ?thesis
    by (rule payload_view [OF _ h(2,3) assms(2,3) refl]) (simp add: assms(1) h(1))
qed

definition reads_back :: "(byte list \<Rightarrow> 'm option) \<Rightarrow> AlignedBuffer \<Rightarrow> RouteTable option \<Rightarrow> frame \<Rightarrow> bool" where
  "reads_back dec b routes f \<longleftrightarrow>
     map_option (map_prod view id)
       (parse_message_from_pooled_buffer_with_routes dec b (length (frame_body f)) routes) =
     Some (ok_or invalid_v5_frame (delivered dec routes f), routes_after routes f)"

lemmas read_simps =
  parser_defs wire_simps wrapping_sub_def slice_def ask_nack_reason_def
  ASK_NACK_FLAG_BODY_OFFSET_def ASK_NACK_REASON_BODY_OFFSET_def ASK_NACK_FLAG_SET_def
  direct_ask_request_id_def nth_append

lemma read_payload_frame:
  assumes shape: "ab_data b = control_bytes (frame_kind f) (length (frame_body f)) @ frame_body f"
    and len: "length (frame_body f) < 2 ^ 27" and cap: "0 < ab_capacity b"
    and req: "\<And>c a t p. f \<noteq> F_ActorAsk c a t (Some 0) p"
    and payload: "payload_part f = Some (off, p)"
  shows "reads_back dec b routes f"
proof -
  have "length (ab_data b) \<le> USIZE_MAX" using shape len by (simp add: USIZE_MAX_def)
  then obtain v where v: "from_pooled_buffer_range b off (length p) = Inr v" "AlignedBytes_as_ref v = p"
    using payload_part_view [OF shape _ cap payload] by auto
  show ?thesis
    unfolding reads_back_def parse_body [OF shape len]
    using v payload req
    by (cases f) (auto simp: read_simps shape split: option.splits Option.bind_splits)
qed

lemma route_key_eta: "\<lparr> rk_actor_id = rk_actor_id k, rk_type_hash = rk_type_hash k \<rparr> = k"
  by simp

lemma read_plain_frame:
  assumes shape: "ab_data b = control_bytes (frame_kind f) (length (frame_body f)) @ frame_body f"
    and len: "length (frame_body f) < 2 ^ 27"
    and payload: "payload_part f = None"
  shows "reads_back dec b routes f"
  unfolding reads_back_def parse_body [OF shape len]
  using payload
  by (cases f) (auto simp: read_simps shape route_key_eta split: option.split prod.split bool.split)

lemma read_encoded_frame:
  assumes "encode_frame f = Inr bytes" "ab_data b = bytes" "0 < ab_capacity b"
  shows "reads_back dec b routes f" "length bytes = 4 + length (frame_body f)"
proof -
  have s: "ab_data b = control_bytes (frame_kind f) (length (frame_body f)) @ frame_body f"
    "length (frame_body f) < 2 ^ 27"
    using encode_frame_Inr [OF assms(1)] assms(2) by simp_all
  have r: "f \<noteq> F_ActorAsk c a t (Some 0) p" for c a t p
    using assms(1) by (auto simp: with_payload_def header_eqs)
  show "reads_back dec b routes f"
    using read_payload_frame [OF s assms(3) r] read_plain_frame [OF s]
    by (cases "payload_part f") auto
  show "length bytes = 4 + length (frame_body f)"
    using encode_frame_Inr [OF assms(1)] by simp
qed

subsection \<open>Reading one frame from a stream\<close>

text \<open>
  The reader before a connection is set up. The transport is the bytes it will still deliver
  before end of file; other transport errors are not modelled.
\<close>

definition is_orderly_peer_close :: "GossipError \<Rightarrow> bool" where
  "is_orderly_peer_close e \<longleftrightarrow> e = Network OrderlyPeerClose"

definition eof_in_length_prefix :: "usize \<Rightarrow> GossipError" where
  "eof_in_length_prefix prefix_bytes_read =
     (if prefix_bytes_read = 0 then Network OrderlyPeerClose else Network UnexpectedEof)"

definition read_message_from_tls_reader ::
  "(byte list \<Rightarrow> 'm option) \<Rightarrow> allocator \<Rightarrow> usize \<Rightarrow> AlignedBytesPool \<Rightarrow> byte list \<Rightarrow>
   ('m parsed option \<times> byte list)" where
  "read_message_from_tls_reader decode_registry_message al max_message_size pool input =
     (if length input < LENGTH_PREFIX_LEN
      then (Some (Inl (eof_in_length_prefix (length input))), [])
      else
        let control = take LENGTH_PREFIX_LEN input; input = drop LENGTH_PREFIX_LEN input in
        case decode_control control of
          None \<Rightarrow> (Some (Inl invalid_v5_frame), input)
        | Some decoded \<Rightarrow>
            let n = c_body_len decoded in
            if n = 0 \<or> n > max_message_size
            then (Some (Inl (MessageTooLarge n max_message_size)), input)
            else
              let buffer = fst (with_len al (LENGTH_PREFIX_LEN + n) pool);
                  buffer = buffer \<lparr> ab_data := copy_into 0 control (ab_data buffer) \<rparr>
              in if length input < n then (Some (Inl (Network UnexpectedEof)), [])
                 else
                   let buffer = buffer \<lparr> ab_data := copy_into LENGTH_PREFIX_LEN (take n input)
                                                     (ab_data buffer) \<rparr>
                   in (map_option fst (parse_message_from_pooled_buffer decode_registry_message
                                         buffer n),
                       drop n input))"

lemma with_len_capacity:
  "allocator_ok al \<Longrightarrow> pool_inv p \<Longrightarrow> n \<le> ab_capacity (fst (with_len al n p))"
  using get_buffer_capacity [of al p n]
  by (auto simp: with_len_def buffer_resize_def split: prod.split)

lemma read_tls_frame:
  assumes enc: "encode_frame f = Inr bytes" and max: "length (frame_body f) \<le> max_size"
    and pool: "allocator_ok al" "pool_inv p"
  shows "\<exists>res. read_message_from_tls_reader dec al max_size p (bytes @ rest) = (Some res, rest) \<and>
    view res = ok_or invalid_v5_frame (delivered dec None f)"
proof -
  let ?n = "length (frame_body f)" and ?k = "frame_kind f"
  have bytes: "bytes = control_bytes ?k ?n @ frame_body f" and n: "?n < 2 ^ 27"
    using encode_frame_Inr [OF enc] by simp_all
  define b where "b = (fst (with_len al (4 + ?n) p)) \<lparr> ab_data := bytes \<rparr>"
  have "4 + ?n \<le> ab_capacity b"
    using with_len_capacity [OF pool, of "4 + ?n"] by (simp add: b_def)
  then have "reads_back dec b None f"
    using read_encoded_frame(1) [OF enc, of b] by (simp add: b_def)
  then obtain res where res: "parse_message_from_pooled_buffer dec b ?n = Some (res, routes_after None f)"
    "view res = ok_or invalid_v5_frame (delivered dec None f)"
    by (auto simp: reads_back_def parse_message_from_pooled_buffer_def)
  have "read_message_from_tls_reader dec al max_size p (bytes @ rest) =
      (map_option fst (parse_message_from_pooled_buffer dec b ?n), rest)"
    using max frame_body_nonempty [of f]
    by (simp add: read_message_from_tls_reader_def bytes wire_simps decode_control_bytes [OF n]
        with_len_data copy_into_def b_def Let_def)
  with res show ?thesis by simp
qed

subsection \<open>Correctness\<close>

text \<open>
  C3. Every frame the writers emit is read back as the message it stands for: for all
  fifteen kinds of frame, all field values and all payloads, when the writers succeed the
  parser yields the delivered message with its payload (or refuses exactly the frames the
  protocol forbids: an ask with correlation id 0, a direct ask with request id 0, a binding
  that conflicts, a slot that is not bound) and updates the route table accordingly.
\<close>

theorem parse_written_frame:
  assumes "encode_frame f = Inr bytes" "ab_data b = bytes" "0 < ab_capacity b"
  shows "map_option (map_prod view id)
      (parse_message_from_pooled_buffer_with_routes dec b (length bytes - LENGTH_PREFIX_LEN) routes) =
    Some (ok_or invalid_v5_frame (delivered dec routes f), routes_after routes f)"
  using read_encoded_frame(1) [OF assms, of dec routes] read_encoded_frame(2) [OF assms]
  unfolding reads_back_def LENGTH_PREFIX_LEN_def by simp

theorem parse_written_frame_witness:
  "let f = F_Response 9 [1, 2, 3];
       bytes = control_bytes WK_Response 15 @ [0, 0, 0, 9, 0, 0, 0, 0, 0, 0, 0, 0, 1, 2, 3];
       b = \<lparr> ab_block = 3, ab_capacity = 64, ab_data = bytes \<rparr>
   in encode_frame f = Inr bytes \<and> 0 < ab_capacity b \<and>
      map_option (map_prod view id) (parse_message_from_pooled_buffer_with_routes
        (\<lambda>_. None :: unit option) b (length bytes - LENGTH_PREFIX_LEN) None) =
      Some (Inr (MR_Response 9 [1, 2, 3]), None)"
proof -
  let ?bytes = "control_bytes WK_Response 15 @ [0, 0, 0, 9, 0, 0, 0, 0, 0, 0, 0, 0, 1, 2, 3]"
  let ?b = "\<lparr> ab_block = 3, ab_capacity = 64, ab_data = ?bytes \<rparr>"
  have c: "to_be_bytes 4 (9 :: u32) = [0, 0, 0, 9]" by (simp add: to_be_bytes_def upt_rec)
  have z: "replicate 8 (0 :: byte) = [0, 0, 0, 0, 0, 0, 0, 0]" by (simp add: eval_nat_numeral)
  have e: "encode_frame (F_Response 9 [1, 2, 3]) = Inr ?bytes"
    by (simp add: with_payload_def ask_response_header_eq c z)
  from parse_written_frame [OF e, of ?b "\<lambda>_. None :: unit option" None] e show ?thesis
    by (simp add: Let_def)
qed

text \<open>
  C4. A frame the parser refuses has no effect: the only error is invalid data, and the
  route table is left as it was.
\<close>

theorem refused_frame_no_effect:
  assumes "parse_message_from_pooled_buffer_with_routes dec b n routes = Some (Inl e, routes')"
  shows "e = Network InvalidData \<and> routes' = routes"
  using assms
  by (auto simp: parse_message_from_pooled_buffer_with_routes_def parser_defs Let_def
      invalid_v5_frame_def bind_res_eq_Inl ok_or_def bind_route_def
      dest!: from_pooled_buffer_range_error
      split: if_splits option.splits WireKind.splits)

theorem refused_frame_no_effect_witness:
  "let b = \<lparr> ab_block = 1, ab_capacity = 64, ab_data = control_bytes WK_RouteBind 3 @ [0, 0, 1] \<rparr>
   in parse_message_from_pooled_buffer_with_routes (\<lambda>_. None :: unit option) b 3
        (Some route_table_new) = Some (Inl (Network InvalidData), Some route_table_new)"
proof -
  let ?b = "\<lparr> ab_block = 1, ab_capacity = 64, ab_data = control_bytes WK_RouteBind 3 @ [0, 0, 1] \<rparr>"
  have "parse_message_from_pooled_buffer_with_routes (\<lambda>_. None :: unit option) ?b 3
      (Some route_table_new) = Some (parse_route_bind [0, 0, 1] (Some route_table_new))"
    using parse_body [of ?b WK_RouteBind "[0, 0, 1]" "\<lambda>_. None :: unit option"]
    by (simp add: numeral_3_eq_3)
  moreover obtain e r where
    "parse_route_bind [0, 0, 1] (Some route_table_new) = (Inl e :: unit parsed, r)"
    by (simp add: parse_route_bind_def wire_simps)
  ultimately show ?thesis
    using refused_frame_no_effect [of "\<lambda>_. None :: unit option" ?b 3 "Some route_table_new" e r]
    by simp
qed

text \<open>
  C5. The reader that runs before a connection is set up consumes exactly one frame: from any
  stream that starts with a written frame within the size limit it delivers that frame's
  message and leaves the bytes after it unread.
\<close>

theorem tls_reader_takes_one_frame:
  assumes "encode_frame f = Inr bytes" "length (frame_body f) \<le> max_size"
    "allocator_ok al" "pool_inv pool"
  shows "map_prod (map_option view) id (read_message_from_tls_reader dec al max_size pool (bytes @ rest)) =
    (Some (ok_or invalid_v5_frame (delivered dec None f)), rest)"
  using read_tls_frame [OF assms, of dec rest] by auto

theorem tls_reader_takes_one_frame_witness:
  "let al = \<lparr> al_with_capacity = (\<lambda>n. \<lparr> ab_block = 1, ab_capacity = n, ab_data = [] \<rparr>),
             al_reserve = (\<lambda>n b. b \<lparr> ab_capacity := length (ab_data b) + n \<rparr>) \<rparr>;
       pool = \<lparr> pool_queue = [], pool_queue_cap = 1, pool_retained = 0, pool_budget = 0 \<rparr>
   in \<exists>bytes. encode_frame (F_StreamAbort 4 1) = Inr bytes \<and> allocator_ok al \<and> pool_inv pool \<and>
        map_prod (map_option view) id (read_message_from_tls_reader (\<lambda>_. None :: unit option)
          al 8 pool (bytes @ [7])) = (Some (Inr (MR_StreamAbort 4 1)), [7])"
proof -
  let ?al = "\<lparr> al_with_capacity = (\<lambda>n. \<lparr> ab_block = 1, ab_capacity = n, ab_data = [] \<rparr>),
    al_reserve = (\<lambda>n b. b \<lparr> ab_capacity := length (ab_data b) + n \<rparr>) \<rparr>"
  let ?pool = "\<lparr> pool_queue = [], pool_queue_cap = 1, pool_retained = 0, pool_budget = 0 \<rparr>"
  obtain bytes where e: "encode_frame (F_StreamAbort 4 1) = Inr bytes"
    by (simp add: stream_abort_header_eq)
  have al: "allocator_ok ?al" by (simp add: allocator_ok_def)
  have pool: "pool_inv ?pool" by (simp add: pool_inv_def)
  from tls_reader_takes_one_frame [OF e _ al pool, of 8 "\<lambda>_. None :: unit option" "[7]"] e al pool
  show ?thesis by (auto simp: Let_def)
qed

end
