(* ===== verification/Routed_Ask.thy ===== *)
theory Routed_Ask
  imports Frame_Parser
begin

text \<open>
  Compact actor asks end to end: \<open>write_routed_actor_ask\<close> of
  \<^verbatim>\<open>src/connection_pool/stream_writer.rs\<close> interns the route of an ask, announces a new slot
  with a \<open>RouteBind\<close> frame and then sends the ask with the slot instead of the actor id and
  type hash; the peer parses the frames in order against its own inbound table.

  The sender's state is its outbound route table and the frames it has queued (one ordered
  queue). Waiting for identification and the two queue operations may fail or be cancelled:
  their outcomes are the arguments \<open>attempt\<close> of a call. A frame is queued exactly when its
  outcome is \<open>Inr ()\<close>; a cancelled call is one whose awaited operation fails, since dropping
  the call runs the same guard.

  The two tables hold the same bindings after every call (\<open>in_step\<close>). So the peer accepts
  every frame and delivers exactly the asks whose call returned success, in order, with the
  arguments of the call, whatever the outcomes were.
\<close>

record RoutedSender =
  outbound_routes :: RouteTable
  wire :: "byte list list"

record attempt =
  at_identified :: "unit result"
  at_bind :: "unit result"
  at_ask :: "unit result"

definition enqueue :: "unit result \<Rightarrow> byte list \<Rightarrow> RoutedSender \<Rightarrow> unit result \<times> RoutedSender" where
  "enqueue outcome bytes s =
     try_st outcome s (\<lambda>_. (Inr (), s \<lparr> wire := wire s @ [bytes] \<rparr>))"

text \<open>Announcing a fresh slot under the rollback guard.\<close>

definition publish_bind ::
  "unit result \<Rightarrow> u32 \<Rightarrow> RouteKey \<Rightarrow> RoutedSender \<Rightarrow> unit result \<times> RoutedSender" where
  "publish_bind outcome route_slot route s =
     (case write_route_bind_header route_slot (rk_actor_id route) (rk_type_hash route) of
        None \<Rightarrow> (Inl InvalidConfig, s)
      | Some bind \<Rightarrow>
          let bind_guard = guard_new route_slot route;
              (r, s) = enqueue outcome bind s;
              bind_guard = (case r of Inl _ \<Rightarrow> bind_guard | Inr _ \<Rightarrow> disarm bind_guard)
          in (r, s \<lparr> outbound_routes := guard_drop bind_guard (outbound_routes s) \<rparr>))"

text \<open>The compact path under the route gate, with its fallback when no slot is left.\<close>

definition send_compact ::
  "usize \<Rightarrow> attempt \<Rightarrow> u32 \<Rightarrow> u64 \<Rightarrow> u32 \<Rightarrow> byte list \<Rightarrow> RoutedSender \<Rightarrow>
   unit result \<times> RoutedSender" where
  "send_compact max_message_size at correlation_id actor_id type_hash payload s =
     (let route = \<lparr> rk_actor_id = actor_id, rk_type_hash = type_hash \<rparr>;
          (allocated, t) = slot_for route (outbound_routes s);
          s = s \<lparr> outbound_routes := t \<rparr>
      in case allocated of
           None \<Rightarrow>
             try_st (reject_oversize_for_inline_send ACTOR_ASK_HEADER_LEN (length payload)
                       max_message_size) s (\<lambda>_.
             try_st (try_write_actor_ask_header correlation_id actor_id type_hash
                       (length payload)) s (\<lambda>header.
             enqueue (at_ask at) (header @ payload) s))
         | Some (route_slot, needs_bind) \<Rightarrow>
             let (bound, s) = (if needs_bind then publish_bind (at_bind at) route_slot route s
                               else (Inr (), s))
             in try_st bound s (\<lambda>_.
                try_st (try_write_routed_actor_ask_header correlation_id route_slot
                          (length payload)) s (\<lambda>header.
                enqueue (at_ask at) (header @ payload) s)))"

definition write_routed_actor_ask_with_optional_request_id ::
  "usize \<Rightarrow> attempt \<Rightarrow> u32 \<Rightarrow> u64 \<Rightarrow> u32 \<Rightarrow> byte list \<Rightarrow> u64 option \<Rightarrow> RoutedSender \<Rightarrow>
   unit result \<times> RoutedSender" where
  "write_routed_actor_ask_with_optional_request_id max_message_size at
       correlation_id actor_id type_hash payload request_id s =
     (case request_id of
        Some request_id \<Rightarrow>
          try_st (reject_oversize_for_inline_send ACTOR_ASK_HEADER_LEN (length payload)
                    max_message_size) s (\<lambda>_.
          try_st (at_identified at) s (\<lambda>_.
          try_st (try_write_actor_ask_header_with_request_id correlation_id actor_id type_hash
                    (length payload) (Some request_id)) s (\<lambda>header.
          enqueue (at_ask at) (header @ payload) s)))
      | None \<Rightarrow>
          try_st (reject_oversize_for_inline_send ROUTED_ACTOR_ASK_HEADER_LEN (length payload)
                    max_message_size) s (\<lambda>_.
          try_st (at_identified at) s (\<lambda>_.
          send_compact max_message_size at correlation_id actor_id type_hash payload s)))"

definition write_routed_actor_ask ::
  "usize \<Rightarrow> attempt \<Rightarrow> u32 \<Rightarrow> u64 \<Rightarrow> u32 \<Rightarrow> byte list \<Rightarrow> RoutedSender \<Rightarrow>
   unit result \<times> RoutedSender" where
  "write_routed_actor_ask max_message_size at correlation_id actor_id type_hash payload s =
     write_routed_actor_ask_with_optional_request_id max_message_size at correlation_id actor_id
       type_hash payload None s"

definition write_routed_actor_ask_with_request_id ::
  "usize \<Rightarrow> attempt \<Rightarrow> u32 \<Rightarrow> u64 \<Rightarrow> u32 \<Rightarrow> byte list \<Rightarrow> u64 \<Rightarrow> RoutedSender \<Rightarrow>
   unit result \<times> RoutedSender" where
  "write_routed_actor_ask_with_request_id max_message_size at correlation_id actor_id type_hash
       payload request_id s =
     (if request_id = 0 then (Inl InvalidConfig, s)
      else write_routed_actor_ask_with_optional_request_id max_message_size at correlation_id
             actor_id type_hash payload (Some request_id) s)"

subsection \<open>A conversation\<close>

record ask_call =
  ac_attempt :: attempt
  ac_correlation_id :: u32
  ac_actor_id :: u64
  ac_type_hash :: u32
  ac_payload :: "byte list"
  ac_request_id :: "u64 option"

definition do_call :: "usize \<Rightarrow> ask_call \<Rightarrow> RoutedSender \<Rightarrow> unit result \<times> RoutedSender" where
  "do_call max_message_size c s =
     (case ac_request_id c of
        None \<Rightarrow> write_routed_actor_ask max_message_size (ac_attempt c) (ac_correlation_id c)
                  (ac_actor_id c) (ac_type_hash c) (ac_payload c) s
      | Some r \<Rightarrow> write_routed_actor_ask_with_request_id max_message_size (ac_attempt c)
                    (ac_correlation_id c) (ac_actor_id c) (ac_type_hash c) (ac_payload c) r s)"

text \<open>The calls that returned success, with the sender's state after all of them.\<close>

fun do_calls :: "usize \<Rightarrow> ask_call list \<Rightarrow> RoutedSender \<Rightarrow> ask_call list \<times> RoutedSender" where
  "do_calls m [] s = ([], s)"
| "do_calls m (c # cs) s =
     (case do_call m c s of
        (r, s) \<Rightarrow>
          (case do_calls m cs s of
             (accepted, s) \<Rightarrow> (case r of Inl _ \<Rightarrow> accepted | Inr _ \<Rightarrow> c # accepted, s)))"

definition asked :: "ask_call \<Rightarrow> ('m, byte list) MessageReadResult" where
  "asked c = MR_Actor (message_type_byte MT_ActorAsk) (ac_correlation_id c) (ac_actor_id c)
     (ac_type_hash c) (ac_request_id c) None (ac_payload c)"

text \<open>
  The receiving side: every frame in an aligned buffer of its own, parsed with the routes
  bound so far. \<open>None\<close> is a panic or a refused frame, which tears the connection down.
\<close>

definition frame_buffer :: "byte list \<Rightarrow> AlignedBuffer" where
  "frame_buffer bytes = \<lparr> ab_block = 1, ab_capacity = length bytes, ab_data = bytes \<rparr>"

fun receive_all ::
  "(byte list \<Rightarrow> 'm option) \<Rightarrow> byte list list \<Rightarrow> RouteTable \<Rightarrow>
   (('m, byte list) MessageReadResult list \<times> RouteTable) option" where
  "receive_all dec [] t = Some ([], t)"
| "receive_all dec (bytes # frames) t =
     (case parse_message_from_pooled_buffer_with_routes dec (frame_buffer bytes)
             (length bytes - LENGTH_PREFIX_LEN) (Some t) of
        Some (res, Some t) \<Rightarrow>
          (case view res of
             Inl _ \<Rightarrow> None
           | Inr m \<Rightarrow>
               (case receive_all dec frames t of
                  None \<Rightarrow> None
                | Some (ms, t) \<Rightarrow> Some (m # ms, t)))
      | _ \<Rightarrow> None)"

lemma receive_all_append:
  "receive_all dec (xs @ ys) t =
     (case receive_all dec xs t of
        None \<Rightarrow> None
      | Some (ms, t) \<Rightarrow> map_option (map_prod ((@) ms) id) (receive_all dec ys t))"
  by (induction xs arbitrary: t)
    (auto simp: option.map_id option.map_comp comp_def map_prod_def
      split: option.splits sum.splits prod.splits)

lemma receive_frame:
  assumes "encode_frame f = Inr bytes" "delivered dec (Some t) f = Some m"
    "routes_after (Some t) f = Some u"
  shows "receive_all dec [bytes] t = Some ([m], u)"
proof -
  have l: "length bytes = 4 + length (frame_body f)"
    using encode_frame_Inr [OF assms(1)] by simp
  have "reads_back dec (frame_buffer bytes) (Some t) f"
    by (rule read_encoded_frame(1) [OF assms(1)]) (simp_all add: frame_buffer_def l)
  then show ?thesis
    using assms(2,3) by (auto simp: reads_back_def l wire_simps)
qed

subsection \<open>Sender and receiver in step\<close>

definition in_step :: "RouteTable \<Rightarrow> RouteTable \<Rightarrow> bool" where
  "in_step s r \<longleftrightarrow>
     sender_inv s \<and> by_key r = by_key s \<and> by_slot r = by_slot s \<and> max_routes r = max_routes s"

lemma in_step_new: "in_step route_table_new route_table_new"
  by (simp add: in_step_def route_table_new_def sender_inv_with_limit)

definition answers ::
  "(byte list \<Rightarrow> 'm option) \<Rightarrow> RoutedSender \<Rightarrow> RoutedSender \<Rightarrow> RouteTable \<Rightarrow>
   ('m, byte list) MessageReadResult list \<Rightarrow> bool" where
  "answers dec s s' r expected \<longleftrightarrow>
     (\<exists>frames ms r'. wire s' = wire s @ frames \<and> receive_all dec frames r = Some (ms, r') \<and>
        in_step (outbound_routes s') r' \<and> filter (\<lambda>m. m \<noteq> MR_RouteBound) ms = expected)"

lemma answers_refl: "in_step (outbound_routes s) r \<Longrightarrow> answers dec s s r []"
  by (auto simp: answers_def)

lemma answers_enqueue_ask:
  assumes "in_step (outbound_routes s) r" "encode_frame f = Inr bytes"
    "delivered dec (Some r) f = Some m" "routes_after (Some r) f = Some r" "m \<noteq> MR_RouteBound"
    "enqueue a bytes s = (res, s')"
  shows "answers dec s s' r (case res of Inl _ \<Rightarrow> [] | Inr _ \<Rightarrow> [m])"
proof (cases a)
  case (Inl e)
  with assms show ?thesis by (auto simp: enqueue_def answers_refl)
next
  case (Inr u)
  with assms(6) have "res = Inr ()" "s' = s \<lparr> wire := wire s @ [bytes] \<rparr>"
    by (auto simp: enqueue_def)
  with receive_frame [OF assms(2-4)] assms(1,5) show ?thesis
    unfolding answers_def by (intro exI [of _ "[bytes]"]) auto
qed

lemma answers_trans:
  assumes "answers dec s s' r xs"
    and "\<And>r'. in_step (outbound_routes s') r' \<Longrightarrow> answers dec s' s'' r' ys"
  shows "answers dec s s'' r (xs @ ys)"
proof -
  from assms(1) obtain fs ms r' where 1: "wire s' = wire s @ fs" "receive_all dec fs r = Some (ms, r')"
    "in_step (outbound_routes s') r'" "filter (\<lambda>m. m \<noteq> MR_RouteBound) ms = xs"
    by (auto simp: answers_def)
  from assms(2) [OF 1(3)] obtain gs ns r'' where 2: "wire s'' = wire s' @ gs"
    "receive_all dec gs r' = Some (ns, r'')" "in_step (outbound_routes s'') r''"
    "filter (\<lambda>m. m \<noteq> MR_RouteBound) ns = ys"
    by (auto simp: answers_def)
  have "receive_all dec (fs @ gs) r = Some (ms @ ns, r'')"
    using 1(2) 2(2) by (simp add: receive_all_append)
  with 1 2 show ?thesis
    unfolding answers_def by (intro exI [of _ "fs @ gs"]) auto
qed

text \<open>
  Allocating a slot and announcing it: a refused announcement leaves the bindings as they
  were, a queued one binds the same slot on both sides.
\<close>

lemma fresh_slot_free:
  "sender_inv t \<Longrightarrow> by_slot t (next_slot t) = None"
  using slots_belowD [of t "next_slot t"] by (fastforce simp: sender_inv_def)

lemma rollback_restores:
  assumes "sender_inv t" "slot_for k t = (Some (slot, True), u)"
  shows "by_key (remove_unbound slot k u) = by_key t" "by_slot (remove_unbound slot k u) = by_slot t"
    "max_routes (remove_unbound slot k u) = max_routes t"
proof -
  have "by_slot t (next_slot t) = None" by (rule fresh_slot_free [OF assms(1)])
  moreover have "by_key t k = None" "slot = next_slot t"
    "u = t \<lparr> next_slot := next_slot t + 1, by_slot := (by_slot t)(next_slot t \<mapsto> k),
             by_key := (by_key t)(k \<mapsto> next_slot t) \<rparr>"
    using assms(2) by (cases rule: slot_for_cases [of t k]; auto)+
  ultimately show "by_key (remove_unbound slot k u) = by_key t"
    "by_slot (remove_unbound slot k u) = by_slot t"
    "max_routes (remove_unbound slot k u) = max_routes t"
    by (auto simp: remove_unbound_def fun_upd_idem_iff)
qed

lemma bind_follows:
  assumes "in_step t r" "slot_for k t = (Some (slot, True), u)"
  shows "fst (bind_route slot k r)" "in_step u (snd (bind_route slot k r))"
proof -
  have inv: "sender_inv t" and r: "by_key r = by_key t" "by_slot r = by_slot t"
    "max_routes r = max_routes t"
    using assms(1) by (simp_all add: in_step_def)
  have free: "by_slot t (next_slot t) = None" by (rule fresh_slot_free [OF inv])
  have u: "sender_inv u" using sender_inv_slot_for [OF inv, of k] assms(2) by simp
  have s: "by_key t k = None" "slot = next_slot t" "next_slot t \<noteq> 0"
    "card (dom (by_key t)) < max_routes t"
    "u = t \<lparr> next_slot := next_slot t + 1, by_slot := (by_slot t)(next_slot t \<mapsto> k),
             by_key := (by_key t)(k \<mapsto> next_slot t) \<rparr>"
    using assms(2) by (cases rule: slot_for_cases [of t k]; auto)+
  show "fst (bind_route slot k r)" "in_step u (snd (bind_route slot k r))"
    using u s free r by (simp_all add: bind_route_def in_step_def)
qed

lemma publish_bind_answers:
  assumes "in_step t r" "slot_for k t = (Some (slot, True), u)" "outbound_routes s = u"
    "publish_bind outcome slot k s = (res, s')"
  shows "answers dec s s' r []"
proof -
  obtain bytes where enc: "encode_frame (F_RouteBind slot k) = Inr bytes"
    "write_route_bind_header slot (rk_actor_id k) (rk_type_hash k) = Some bytes"
    by (simp add: route_bind_header_eq)
  show ?thesis
  proof (cases outcome)
    case (Inl e)
    have "sender_inv (remove_unbound slot k u)"
      using assms(1,2) sender_inv_slot_for [of t k]
      by (auto simp: in_step_def intro: sender_inv_remove_unbound)
    with rollback_restores [OF _ assms(2)] assms(1) have "in_step (remove_unbound slot k u) r"
      by (simp add: in_step_def)
    with Inl assms(3,4) enc(2) show ?thesis
      by (auto simp: publish_bind_def enqueue_def guard_new_def guard_drop_def answers_def)
  next
    case (Inr x)
    note b = bind_follows [OF assms(1,2)]
    have "receive_all dec [bytes] r = Some ([MR_RouteBound], snd (bind_route slot k r))"
      by (rule receive_frame [OF enc(1)]) (simp_all add: b(1))
    with Inr assms(3,4) enc(2) b(2) show ?thesis
      unfolding answers_def
      by (intro exI [of _ "[bytes]"] exI [of _ "[MR_RouteBound]"])
        (auto simp: publish_bind_def enqueue_def guard_new_def guard_drop_def disarm_def)
  qed
qed

lemma answers_routed:
  assumes "in_step (outbound_routes s) r" "c \<noteq> 0" "by_slot (outbound_routes s) slot = Some k"
    "try_write_routed_actor_ask_header c slot (length p) = Inr h"
    "enqueue a (h @ p) s = (res, s')"
  shows "answers dec s s' r (case res of Inl _ \<Rightarrow> [] | Inr _ \<Rightarrow>
    [MR_Actor (message_type_byte MT_ActorAsk) c (rk_actor_id k) (rk_type_hash k) None None p])"
proof (rule answers_enqueue_ask [OF assms(1) _ _ _ _ assms(5), of "F_RoutedActorAsk c slot p"])
  have "by_slot r slot = Some k" using assms(1,3) by (simp add: in_step_def)
  then show "delivered dec (Some r) (F_RoutedActorAsk c slot p) = Some (MR_Actor
      (message_type_byte MT_ActorAsk) c (rk_actor_id k) (rk_type_hash k) None None p)"
    using assms(2) by (simp add: resolve_def)
qed (use assms(4) in \<open>simp_all add: with_payload_def\<close>)

lemma answers_plain:
  assumes "in_step (outbound_routes s) r" "c \<noteq> 0"
    "try_write_actor_ask_header_with_request_id c a t (length p) q = Inr h"
    "enqueue e (h @ p) s = (res, s')"
  shows "answers dec s s' r (case res of Inl _ \<Rightarrow> [] | Inr _ \<Rightarrow>
    [MR_Actor (message_type_byte MT_ActorAsk) c a t q None p])"
  by (rule answers_enqueue_ask [OF assms(1) _ _ _ _ assms(4), of "F_ActorAsk c a t q p"])
    (use assms(2,3) in \<open>simp_all add: with_payload_def\<close>)

lemma known_slot:
  assumes "sender_inv t" "slot_for k t = (Some (slot, False), u)"
  shows "u = t" "by_slot t slot = Some k"
proof -
  have "u = t \<and> by_key t k = Some slot"
    using assms(2) by (cases rule: slot_for_cases [of t k]) auto
  then show "u = t" "by_slot t slot = Some k"
    using assms(1) by (simp_all add: sender_inv_def routes_wf_inverse)
qed

lemma fresh_slot_bound:
  "slot_for k t = (Some (slot, True), u) \<Longrightarrow> by_slot u slot = Some k"
  by (cases rule: slot_for_cases [of t k]) auto

lemma refused_slot: "slot_for k t = (None, u) \<Longrightarrow> u = t"
  by (cases rule: slot_for_cases [of t k]) auto

lemma publish_bind_ok:
  "publish_bind outcome slot k s = (Inr x, s') \<Longrightarrow> outbound_routes s' = outbound_routes s"
  by (cases outcome)
    (auto simp: publish_bind_def enqueue_def guard_drop_def guard_new_def disarm_def
      split: option.splits)

text \<open>One call of the compact path, by what the route table answered.\<close>

lemma answers_with_slot:
  assumes step: "in_step (outbound_routes s) r" and c: "c \<noteq> 0"
    and slot: "slot_for k (outbound_routes s) = (Some (slot, needs_bind), u)"
    and bound: "(if needs_bind then publish_bind b slot k (s \<lparr> outbound_routes := u \<rparr>)
      else (Inr (), s \<lparr> outbound_routes := u \<rparr>)) = (res1, s1)"
    and ask: "try_st res1 s1 (\<lambda>_. try_st (try_write_routed_actor_ask_header c slot (length p)) s1
      (\<lambda>h. enqueue a (h @ p) s1)) = (res, s')"
  shows "answers dec s s' r (case res of Inl _ \<Rightarrow> [] | Inr _ \<Rightarrow>
    [MR_Actor (message_type_byte MT_ActorAsk) c (rk_actor_id k) (rk_type_hash k) None None p])"
    (is "answers dec s s' r (?sent res)")
proof -
  have inv: "sender_inv (outbound_routes s)" using step by (simp add: in_step_def)
  have first: "answers dec s s1 r []"
  proof (cases needs_bind)
    case True
    then have "answers dec (s \<lparr> outbound_routes := u \<rparr>) s1 r []"
      using slot bound by (intro publish_bind_answers [OF step]) simp_all
    then show ?thesis by (simp add: answers_def)
  next
    case False
    with slot have "u = outbound_routes s" by (auto dest: known_slot(1) [OF inv])
    with False bound step show ?thesis by (auto simp: answers_def)
  qed
  have rest: "answers dec s1 s' r' (?sent res)" if "in_step (outbound_routes s1) r'" for r'
  proof (cases "\<exists>x h. res1 = Inr x \<and> try_write_routed_actor_ask_header c slot (length p) = Inr h")
    case True
    have "by_slot (outbound_routes s1) slot = Some k"
    proof (cases needs_bind)
      case nb: True
      with bound True have "outbound_routes s1 = u" by (auto dest: publish_bind_ok)
      with nb slot show ?thesis by (simp add: fresh_slot_bound)
    next
      case nb: False
      with bound have "outbound_routes s1 = u" by auto
      with nb slot show ?thesis using known_slot [OF inv, of k slot u] by simp
    qed
    with True answers_routed [OF that c] ask show ?thesis by auto
  next
    case False
    with ask have "s' = s1 \<and> isl res"
      by (cases res1; cases "try_write_routed_actor_ask_header c slot (length p)") auto
    with that show ?thesis by (cases res) (auto intro: answers_refl)
  qed
  show ?thesis using answers_trans [OF first rest] by simp
qed

lemma answers_try:
  assumes "in_step (outbound_routes s) r" "try_st v s f = (res, s')"
    "\<And>x. v = Inr x \<Longrightarrow> f x = (res, s') \<Longrightarrow> answers dec s s' r (case res of Inl _ \<Rightarrow> [] | Inr _ \<Rightarrow> xs)"
  shows "answers dec s s' r (case res of Inl _ \<Rightarrow> [] | Inr _ \<Rightarrow> xs)"
  using assms by (cases v) (auto intro: answers_refl)

lemma answers_uncompact:
  assumes step: "in_step (outbound_routes s) r" and c: "c \<noteq> 0"
    and ask: "try_st (try_write_actor_ask_header_with_request_id c a t (length p) q) s
      (\<lambda>h. enqueue e (h @ p) s) = (res, s')"
  shows "answers dec s s' r (case res of Inl _ \<Rightarrow> [] | Inr _ \<Rightarrow>
    [MR_Actor (message_type_byte MT_ActorAsk) c a t q None p])"
  by (rule answers_try [OF step ask]) (rule answers_plain [OF step c])

lemma answers_compact:
  assumes step: "in_step (outbound_routes s) r" and c: "c \<noteq> 0"
    and call: "send_compact m at c a t p s = (res, s')"
  shows "answers dec s s' r (case res of Inl _ \<Rightarrow> [] | Inr _ \<Rightarrow>
    [MR_Actor (message_type_byte MT_ActorAsk) c a t None None p])"
proof -
  let ?k = "\<lparr> rk_actor_id = a, rk_type_hash = t \<rparr>"
  obtain al u where slot: "slot_for ?k (outbound_routes s) = (al, u)" by (rule prod.exhaust)
  show ?thesis
  proof (cases al)
    case None
    with slot have u: "s \<lparr> outbound_routes := u \<rparr> = s" by (auto dest: refused_slot)
    have "try_st (reject_oversize_for_inline_send ACTOR_ASK_HEADER_LEN (length p) m) s (\<lambda>_.
        try_st (try_write_actor_ask_header_with_request_id c a t (length p) None) s (\<lambda>header.
        enqueue (at_ask at) (header @ p) s)) = (res, s')"
      using call by (simp add: send_compact_def slot None u try_write_actor_ask_header_def)
    then show ?thesis by (rule answers_try [OF step]) (rule answers_uncompact [OF step c])
  next
    case (Some sb)
    obtain sl nb where sb: "sb = (sl, nb)" by (rule prod.exhaust)
    obtain res1 s1 where b: "(if nb then publish_bind (at_bind at) sl ?k (s \<lparr> outbound_routes := u \<rparr>)
        else (Inr (), s \<lparr> outbound_routes := u \<rparr>)) = (res1, s1)" by (rule prod.exhaust)
    have "try_st res1 s1 (\<lambda>_. try_st (try_write_routed_actor_ask_header c sl (length p)) s1
      (\<lambda>h. enqueue (at_ask at) (h @ p) s1)) = (res, s')"
      using call b by (simp add: send_compact_def slot Some sb)
    from answers_with_slot [OF step c slot [unfolded Some sb] b this, unfolded RouteKey.select_convs]
    show ?thesis .
  qed
qed

lemma answers_do_call:
  assumes step: "in_step (outbound_routes s) r" and c: "ac_correlation_id c \<noteq> 0"
    and call: "do_call m c s = (res, s')"
  shows "answers dec s s' r (case res of Inl _ \<Rightarrow> [] | Inr _ \<Rightarrow> [asked c])"
proof (cases "ac_request_id c")
  case None
  then have "try_st (reject_oversize_for_inline_send ROUTED_ACTOR_ASK_HEADER_LEN
        (length (ac_payload c)) m) s (\<lambda>_. try_st (at_identified (ac_attempt c)) s (\<lambda>_.
      send_compact m (ac_attempt c) (ac_correlation_id c) (ac_actor_id c) (ac_type_hash c)
        (ac_payload c) s)) = (res, s')"
    using call by (simp add: do_call_def write_routed_actor_ask_def
        write_routed_actor_ask_with_optional_request_id_def)
  then show ?thesis
    unfolding asked_def None
    by (rule answers_try [OF step]) (erule answers_try [OF step], rule answers_compact [OF step c])
next
  case (Some q)
  show ?thesis
  proof (cases "q = 0")
    case True
    with Some call step show ?thesis
      by (auto simp: do_call_def write_routed_actor_ask_with_request_id_def intro: answers_refl)
  next
    case False
    with Some call have "try_st (reject_oversize_for_inline_send ACTOR_ASK_HEADER_LEN
          (length (ac_payload c)) m) s (\<lambda>_. try_st (at_identified (ac_attempt c)) s (\<lambda>_.
        try_st (try_write_actor_ask_header_with_request_id (ac_correlation_id c) (ac_actor_id c)
          (ac_type_hash c) (length (ac_payload c)) (Some q)) s
        (\<lambda>h. enqueue (at_ask (ac_attempt c)) (h @ ac_payload c) s))) = (res, s')"
      by (simp add: do_call_def write_routed_actor_ask_with_request_id_def
          write_routed_actor_ask_with_optional_request_id_def)
    then show ?thesis
      unfolding asked_def Some
      by (rule answers_try [OF step]) (erule answers_try [OF step], rule answers_uncompact [OF step c])
  qed
qed

lemma answers_do_calls:
  assumes "in_step (outbound_routes s) r" "\<forall>c \<in> set cs. ac_correlation_id c \<noteq> 0"
    "do_calls m cs s = (accepted, s')"
  shows "answers dec s s' r (map asked accepted)"
  using assms
proof (induction cs arbitrary: s r accepted s')
  case (Cons c cs)
  obtain res s1 where call: "do_call m c s = (res, s1)" by (rule prod.exhaust)
  obtain acc where rest: "do_calls m cs s1 = (acc, s')"
    and accepted: "accepted = (case res of Inl _ \<Rightarrow> acc | Inr _ \<Rightarrow> c # acc)"
    using Cons.prems(3) call by (auto split: prod.splits)
  have "answers dec s s1 r (case res of Inl _ \<Rightarrow> [] | Inr _ \<Rightarrow> [asked c])"
    using Cons.prems(1,2) call by (intro answers_do_call) auto
  then have "answers dec s s' r ((case res of Inl _ \<Rightarrow> [] | Inr _ \<Rightarrow> [asked c]) @ map asked acc)"
    by (rule answers_trans) (use Cons.IH rest Cons.prems(2) in simp)
  then show ?case by (cases res) (simp_all add: accepted)
qed (auto intro: answers_refl)

subsection \<open>Correctness\<close>

text \<open>
  C1. Compact asks arrive. Whatever sequence of asks a peer issues on a fresh connection, and
  whichever of the identification waits and queue operations fail or are cancelled, the other
  side accepts every frame that was queued (no unknown slot, no conflicting binding) and
  delivers exactly the asks whose call succeeded, in order, each with the correlation id,
  actor, type hash, request id and payload of the call. Correlation ids are nonzero, as the
  tracker allocates them.
\<close>

theorem routed_asks_delivered:
  assumes "\<forall>c \<in> set cs. ac_correlation_id c \<noteq> 0"
  shows "case do_calls m cs \<lparr> outbound_routes = route_table_new, wire = [] \<rparr> of
    (accepted, s) \<Rightarrow>
      (\<exists>ms t. receive_all dec (wire s) route_table_new = Some (ms, t) \<and>
         filter (\<lambda>msg. msg \<noteq> MR_RouteBound) ms = map asked accepted)"
proof -
  let ?s = "\<lparr> outbound_routes = route_table_new, wire = [] \<rparr>"
  obtain accepted s where r: "do_calls m cs ?s = (accepted, s)" by (rule prod.exhaust)
  have "answers dec ?s s route_table_new (map asked accepted)"
    by (rule answers_do_calls [OF _ assms r]) (simp add: in_step_new)
  then show ?thesis by (auto simp: r answers_def)
qed

theorem routed_asks_delivered_witness:
  "let ok = \<lparr> at_identified = Inr (), at_bind = Inr (), at_ask = Inr () \<rparr>;
       full = \<lparr> at_identified = Inr (), at_bind = Inl WriteQueueFull, at_ask = Inr () \<rparr>;
       call = \<lparr> ac_attempt = ok, ac_correlation_id = 7, ac_actor_id = 5, ac_type_hash = 9,
                ac_payload = [1, 2], ac_request_id = None \<rparr>;
       cs = [call \<lparr> ac_attempt := full \<rparr>, call]
   in (\<forall>c \<in> set cs. ac_correlation_id c \<noteq> 0) \<and>
      (\<exists>s ms t. do_calls 1000 cs \<lparr> outbound_routes = route_table_new, wire = [] \<rparr> = ([call], s) \<and>
         receive_all (\<lambda>_. None :: unit option) (wire s) route_table_new = Some (ms, t) \<and>
         filter (\<lambda>msg. msg \<noteq> MR_RouteBound) ms = [asked call])"
proof -
  define ok where "ok = \<lparr> at_identified = Inr (), at_bind = Inr (), at_ask = Inr () \<rparr>"
  define call where "call = \<lparr> ac_attempt = ok, ac_correlation_id = 7, ac_actor_id = 5,
    ac_type_hash = 9, ac_payload = [1, 2], ac_request_id = None \<rparr>"
  let ?full = "\<lparr> at_identified = Inr (), at_bind = Inl WriteQueueFull, at_ask = Inr () \<rparr>"
  let ?cs = "[call \<lparr> ac_attempt := ?full \<rparr>, call]"
  let ?s = "\<lparr> outbound_routes = route_table_new, wire = [] \<rparr>"
  have nz: "\<forall>c \<in> set ?cs. ac_correlation_id c \<noteq> 0" by (simp add: call_def)
  have acc: "fst (do_calls 1000 ?cs ?s) = [call]"
    by (simp add: do_call_def write_routed_actor_ask_def call_def ok_def send_compact_def
        write_routed_actor_ask_with_optional_request_id_def reject_oversize_for_inline_send_def
        wire_simps saturating_add_def USIZE_MAX_def slot_for_def route_table_new_def
        with_limit_def MAX_ROUTES_PER_CONNECTION_def allocate_slot_def publish_bind_def
        route_bind_header_eq enqueue_def guard_new_def guard_drop_def disarm_def
        remove_unbound_def routed_actor_ask_header_eq Let_def)
  obtain s where s: "do_calls 1000 ?cs ?s = ([call], s)"
    using acc by (cases "do_calls 1000 ?cs ?s") simp
  from routed_asks_delivered [OF nz, where m = 1000 and dec = "\<lambda>_. None :: unit option"]
  have "\<exists>ms t. receive_all (\<lambda>_. None :: unit option) (wire s) route_table_new = Some (ms, t) \<and>
      filter (\<lambda>msg. msg \<noteq> MR_RouteBound) ms = map asked [call]"
    unfolding s prod.case .
  with s nz show ?thesis
    unfolding Let_def by (fold ok_def, fold call_def) (simp only: list.map, blast)
qed

end
