(* ===== verification/Chunk_Bitmap.thy ===== *)
theory Chunk_Bitmap
  imports Prelude
begin

text \<open>
  The chunk-completion bitmaps of \<^verbatim>\<open>src/protocol.rs\<close>, one bit per chunk index packed into
  64-bit words. Streams being assembled and tombstones of discarded streams share the
  encoding and the word-wise completion test. The bit-level operations are shown to implement
  sets of indices.
\<close>

subsection \<open>Operations\<close>

type_synonym bitmap = "u64 list"

definition chunk_bit :: "usize \<Rightarrow> u64" where
  "chunk_bit chunk_index = push_bit (chunk_index mod 64) 1"

definition bitmap_words_for :: "usize \<Rightarrow> usize" where
  "bitmap_words_for expected_chunks = div_ceil expected_chunks 64"

definition bitmap_new :: "usize \<Rightarrow> bitmap" where
  "bitmap_new expected_chunks = replicate (bitmap_words_for expected_chunks) 0"

definition bitmap_test :: "bitmap \<Rightarrow> usize \<Rightarrow> bool" where
  "bitmap_test bm chunk_index \<longleftrightarrow> bm ! (chunk_index div 64) AND chunk_bit chunk_index \<noteq> 0"

definition bitmap_set :: "bitmap \<Rightarrow> usize \<Rightarrow> bitmap" where
  "bitmap_set bm chunk_index =
     bm[chunk_index div 64 := bm ! (chunk_index div 64) OR chunk_bit chunk_index]"

text \<open>
  The word-wise test that every index below \<open>expected\<close> is set; \<open>None\<close> is the panic of a
  slice or index beyond the bitmap.
\<close>

definition bitmap_complete :: "bitmap \<Rightarrow> usize \<Rightarrow> bool option" where
  "bitmap_complete bm expected =
     (if expected = 0 then Some True
      else
        let full_words = expected div 64 in
        if length bm < full_words then None
        else if list_ex (\<lambda>w. w \<noteq> - 1) (take full_words bm) then Some False
        else
          let remainder = expected mod 64 in
          if remainder = 0 then Some True
          else if length bm \<le> full_words then None
          else let m = push_bit remainder 1 - 1 in Some (bm ! full_words AND m = m))"

subsection \<open>As a set of indices\<close>

definition bitmap_indices :: "bitmap \<Rightarrow> nat set" where
  "bitmap_indices bm = {i. i < 64 * length bm \<and> bit (bm ! (i div 64)) (i mod 64)}"

lemma index_word_less: "i < 64 * length bm \<longleftrightarrow> i div 64 < length bm"
  by (auto simp: div_less_iff_less_mult mult.commute)

lemma chunk_bit_and: "w AND chunk_bit i \<noteq> 0 \<longleftrightarrow> bit w (i mod 64)"
proof -
  have "w AND chunk_bit i = (if bit w (i mod 64) then chunk_bit i else 0)"
    by (rule bit_word_eqI) (auto simp: chunk_bit_def bit_simps)
  moreover have "bit (chunk_bit i) (i mod 64)" by (simp add: chunk_bit_def bit_simps)
  ultimately show ?thesis by (auto simp: bit_simps)
qed

lemma bitmap_test_iff: "i < 64 * length bm \<Longrightarrow> bitmap_test bm i \<longleftrightarrow> i \<in> bitmap_indices bm"
  by (simp add: bitmap_test_def bitmap_indices_def chunk_bit_and)

lemma length_bitmap_set [simp]: "length (bitmap_set bm i) = length bm"
  by (simp add: bitmap_set_def)

lemma bit_chunk_bit: "bit (chunk_bit i) j \<longleftrightarrow> j = i mod 64"
  by (auto simp: chunk_bit_def bit_simps)

lemma bitmap_indices_set:
  assumes "i < 64 * length bm"
  shows "bitmap_indices (bitmap_set bm i) = insert i (bitmap_indices bm)"
proof (rule set_eqI)
  fix j
  have word: "i div 64 < length bm" using assms by (simp add: index_word_less)
  have same: "j = i \<longleftrightarrow> j div 64 = i div 64 \<and> j mod 64 = i mod 64"
    by (metis div_mult_mod_eq)
  show "j \<in> bitmap_indices (bitmap_set bm i) \<longleftrightarrow> j \<in> insert i (bitmap_indices bm)"
  proof (cases "j div 64 = i div 64")
    case True
    with word have "j < 64 * length bm" by (simp add: index_word_less)
    with True word same show ?thesis
      by (auto simp: bitmap_indices_def bitmap_set_def bit_simps bit_chunk_bit)
  next
    case False
    with same show ?thesis
      by (auto simp: bitmap_indices_def bitmap_set_def)
  qed
qed

lemma bitmap_indices_new: "bitmap_indices (bitmap_new e) = {}"
  by (auto simp: bitmap_indices_def bitmap_new_def index_word_less)

lemma bitmap_words_cover: "length bm = div_ceil e 64 \<Longrightarrow> i < e \<Longrightarrow> i < 64 * length bm"
  using div_ceil_le_iff [of 64 e "length bm"] by simp

lemma all_ones_iff: "(w :: u64) = - 1 \<longleftrightarrow> (\<forall>j < 64. bit w j)"
  by (auto simp: bit_eq_iff)

lemma low_mask_iff:
  assumes "r \<le> 64"
  shows "(w :: u64) AND (push_bit r 1 - 1) = push_bit r 1 - 1 \<longleftrightarrow> (\<forall>j < r. bit w j)"
proof -
  have m: "push_bit r 1 - 1 = (mask r :: u64)" by (simp add: mask_eq_exp_minus_1)
  show ?thesis unfolding m using assms by (auto simp: bit_eq_iff bit_simps dest: order_less_le_trans)
qed

text \<open>The word-wise completion test is the quantifier over indices.\<close>

lemma bitmap_complete_iff:
  assumes "length bm = div_ceil e 64"
  shows "bitmap_complete bm e = Some (\<forall>i < e. i \<in> bitmap_indices bm)"
proof -
  let ?q = "e div 64" and ?r = "e mod 64"
  have len: "?r \<noteq> 0 \<Longrightarrow> ?q < length bm" "?q \<le> length bm"
    using assms by (simp_all add: div_ceil_def)
  have words: "list_ex (\<lambda>w. w \<noteq> - 1) (take ?q bm) \<longleftrightarrow> (\<exists>k < ?q. \<exists>j < 64. \<not> bit (bm ! k) j)"
  proof -
    have "list_ex (\<lambda>w. w \<noteq> - 1) (take ?q bm) \<longleftrightarrow> (\<exists>k < ?q. bm ! k \<noteq> - 1)"
      using len(2) by (simp add: list_ex_length min_absorb2 cong: conj_cong)
    then show ?thesis unfolding all_ones_iff by blast
  qed
  have split: "(\<forall>i < e. P (i div 64) (i mod 64)) \<longleftrightarrow>
      (\<forall>k < ?q. \<forall>j < 64. P k j) \<and> (\<forall>j < ?r. P ?q j)" for P
  proof -
    have lo: "k * 64 + j < e" if "k < ?q" "j < 64" for k j
    proof -
      have "k * 64 + j < (k + 1) * 64" using that by simp
      also have "\<dots> \<le> ?q * 64" using that by (intro mult_right_mono) auto
      also have "\<dots> \<le> e" by simp
      finally show ?thesis .
    qed
    have hi: "?q * 64 + j < e" if "j < ?r" for j
      using that by (metis add.commute add_less_cancel_left mod_div_mult_eq)
    have dm: "(k * 64 + j) div 64 = k" "(k * 64 + j) mod 64 = j" if "j < 64" for k j :: nat
      using that by simp_all
    have cases: "i div 64 < ?q \<or> i div 64 = ?q \<and> i mod 64 < ?r" if "i < e" for i
      using that by (metis div_le_mono div_mult_mod_eq less_imp_le nat_add_left_cancel_less
          nat_less_le)
    have r64: "?r < 64" by simp
    show ?thesis
    proof safe
      fix k j :: nat assume "\<forall>i < e. P (i div 64) (i mod 64)" "k < ?q" "j < 64"
      with lo [of k j] dm [of j k] show "P k j" by metis
    next
      fix j :: nat assume "\<forall>i < e. P (i div 64) (i mod 64)" "j < ?r"
      with hi [of j] dm [of j ?q] r64 show "P ?q j" by (metis order_less_trans)
    next
      fix i assume "\<forall>k < ?q. \<forall>j < 64. P k j" "\<forall>j < ?r. P ?q j" "i < e"
      with cases [of i] show "P (i div 64) (i mod 64)" by (auto simp del: div_less_iff_less_mult)
    qed
  qed
  have "(\<forall>i < e. i \<in> bitmap_indices bm) \<longleftrightarrow> (\<forall>i < e. bit (bm ! (i div 64)) (i mod 64))"
    using bitmap_words_cover [OF assms] by (auto simp: bitmap_indices_def)
  also have "\<dots> \<longleftrightarrow> (\<forall>k < ?q. \<forall>j < 64. bit (bm ! k) j) \<and> (\<forall>j < ?r. bit (bm ! ?q) j)"
    by (rule split)
  finally have all: "(\<forall>i < e. i \<in> bitmap_indices bm) \<longleftrightarrow>
      (\<forall>k < ?q. \<forall>j < 64. bit (bm ! k) j) \<and> (\<forall>j < ?r. bit (bm ! ?q) j)" .
  show ?thesis
    unfolding all using len
    by (auto simp: bitmap_complete_def Let_def words low_mask_iff [simplified])
qed

end
