(* ===== verification/Stream_State.thy ===== *)
theory Stream_State
  imports Wire_Types Chunk_Bitmap
begin

text \<open>
  Per-connection stream reassembly, \<open>StreamingState\<close> of \<^verbatim>\<open>src/protocol.rs\<close>: admission of
  streams, reservation and commit of chunks, the whole-chunk path of the older frames,
  tombstones of rejected and reaped streams, and the reaper. This theory is the model; its
  properties are in \<open>Stream_Assembly\<close>.

  Both hash maps are association lists (the reaper iterates over one of them). A time is a
  natural number and every operation that reads the clock takes \<open>now\<close>. A stream's pooled
  buffer is its bytes, allocated zero-filled (\<open>with_len_data\<close> of \<open>Aligned\<close>). An operation
  that can panic (an index or slice out of range, an \<open>expect\<close>) returns an option, \<open>None\<close>
  being the panic.
\<close>

subsection \<open>Constants and data\<close>

definition MAX_STREAM_SIZE :: usize where "MAX_STREAM_SIZE = 64 * 1024 * 1024"
definition MAX_INFLIGHT_STREAM_BYTES :: usize where
  "MAX_INFLIGHT_STREAM_BYTES = 2 * MAX_STREAM_SIZE"
definition STREAM_IDLE_TIMEOUT :: nat where "STREAM_IDLE_TIMEOUT = 60"
definition MIN_SUSTAINED_RATE_WINDOW :: nat where "MIN_SUSTAINED_RATE_WINDOW = 300"
definition MIN_SUSTAINED_BYTES_PER_WINDOW :: usize where
  "MIN_SUSTAINED_BYTES_PER_WINDOW = 8 * 1024"
definition REJECTED_STREAMS_BITMAP_WORD_BUDGET :: usize where
  "REJECTED_STREAMS_BITMAP_WORD_BUDGET = 131072"
definition REJECTED_STREAMS_ENTRY_BUDGET :: usize where "REJECTED_STREAMS_ENTRY_BUDGET = 4096"

record RejectedStreamTombstone =
  t_total_size :: u64
  t_chunk_stride :: "usize option"
  t_expected_chunks :: "usize option"
  t_received_chunks :: bitmap

record StreamChunkReservation =
  r_stream_id :: u64
  r_chunk_index :: usize
  r_offset :: usize
  r_len :: usize

record CompletedV5Stream =
  cs_actor_id :: u64
  cs_type_hash :: u32
  cs_correlation_id :: u32
  cs_is_response :: bool
  cs_payload :: "byte list"

record InProgressStream =
  s_stream_id :: u64
  s_total_size :: u64
  s_type_hash :: u32
  s_actor_id :: u64
  s_correlation_id :: u32
  s_is_response :: bool
  s_schema_hash :: "u64 option"
  s_received_size :: usize
  s_buffer :: "byte list"
  s_chunk_stride :: "usize option"
  s_received_chunks :: bitmap
  s_expected_chunks :: "usize option"
  s_duplicate_chunks :: u32
  s_started_at :: nat
  s_last_activity :: nat
  s_total_bytes_progressed :: usize
  s_rate_window_started_at :: nat
  s_progressed_bytes_at_window_start :: usize

record StreamingState =
  active_streams :: "(u64 \<times> InProgressStream) list"
  rejected_streams :: "(u64 \<times> RejectedStreamTombstone) list"
  rejected_streams_bitmap_words :: usize
  max_concurrent_streams :: usize

abbreviation lookup_active :: "StreamingState \<Rightarrow> u64 \<Rightarrow> InProgressStream option" where
  "lookup_active st \<equiv> map_of (active_streams st)"

abbreviation lookup_rejected :: "StreamingState \<Rightarrow> u64 \<Rightarrow> RejectedStreamTombstone option" where
  "lookup_rejected st \<equiv> map_of (rejected_streams st)"

abbreviation update_active :: "u64 \<Rightarrow> InProgressStream \<Rightarrow> StreamingState \<Rightarrow> StreamingState" where
  "update_active i s st \<equiv> st \<lparr> active_streams := AList.update i s (active_streams st) \<rparr>"

subsection \<open>Tombstones\<close>

definition expected_chunk_count :: "u64 \<Rightarrow> usize \<Rightarrow> usize" where
  "expected_chunk_count total_size chunk_len = div_ceil (unat total_size) chunk_len"

definition establish_stride :: "usize \<Rightarrow> RejectedStreamTombstone \<Rightarrow> RejectedStreamTombstone" where
  "establish_stride chunk_len t =
     (if t_chunk_stride t \<noteq> None \<or> chunk_len = 0 then t
      else
        let expected = expected_chunk_count (t_total_size t) chunk_len in
        t \<lparr> t_chunk_stride := Some chunk_len, t_expected_chunks := Some expected,
            t_received_chunks := replicate (bitmap_words_for expected) 0 \<rparr>)"

definition tombstone_mark_chunk_received ::
  "usize \<Rightarrow> RejectedStreamTombstone \<Rightarrow> RejectedStreamTombstone" where
  "tombstone_mark_chunk_received chunk_index t =
     (if chunk_index div 64 < length (t_received_chunks t)
      then t \<lparr> t_received_chunks := bitmap_set (t_received_chunks t) chunk_index \<rparr> else t)"

definition tombstone_rejected :: "u64 \<Rightarrow> usize \<Rightarrow> RejectedStreamTombstone" where
  "tombstone_rejected total_size first_chunk_len =
     tombstone_mark_chunk_received 0 (establish_stride first_chunk_len
       \<lparr> t_total_size = total_size, t_chunk_stride = None, t_expected_chunks = None,
         t_received_chunks = [] \<rparr>)"

definition tombstone_reaped ::
  "u64 \<Rightarrow> usize option \<Rightarrow> usize option \<Rightarrow> bitmap \<Rightarrow> RejectedStreamTombstone" where
  "tombstone_reaped total_size chunk_stride expected_chunks received_chunks =
     \<lparr> t_total_size = total_size, t_chunk_stride = chunk_stride,
       t_expected_chunks = expected_chunks, t_received_chunks = received_chunks \<rparr>"

definition tombstone_is_complete :: "RejectedStreamTombstone \<Rightarrow> bool option" where
  "tombstone_is_complete t =
     (case t_expected_chunks t of
        None \<Rightarrow> Some (t_total_size t = 0)
      | Some expected \<Rightarrow> bitmap_complete (t_received_chunks t) expected)"

subsection \<open>One stream\<close>

definition stream_mark_chunk_received :: "usize \<Rightarrow> InProgressStream \<Rightarrow> bool \<times> InProgressStream" where
  "stream_mark_chunk_received chunk_index s =
     (if length (s_received_chunks s) \<le> chunk_index div 64 then (False, s)
      else if bitmap_test (s_received_chunks s) chunk_index
      then (False, s \<lparr> s_duplicate_chunks := sat_add_word (s_duplicate_chunks s) 1 \<rparr>)
      else (True, s \<lparr> s_received_chunks := bitmap_set (s_received_chunks s) chunk_index \<rparr>))"

definition all_chunks_received :: "InProgressStream \<Rightarrow> bool option" where
  "all_chunks_received s =
     (case s_expected_chunks s of
        None \<Rightarrow> Some (s_total_size s = 0)
      | Some expected \<Rightarrow> bitmap_complete (s_received_chunks s) expected)"

subsection \<open>The tombstone table\<close>

definition streaming_state_new :: StreamingState where
  "streaming_state_new =
     \<lparr> active_streams = [], rejected_streams = [], rejected_streams_bitmap_words = 0,
       max_concurrent_streams = 16 \<rparr>"

definition remove_tombstone :: "u64 \<Rightarrow> StreamingState \<Rightarrow> StreamingState" where
  "remove_tombstone stream_id st =
     (case lookup_rejected st stream_id of
        None \<Rightarrow> st
      | Some removed \<Rightarrow>
          st \<lparr> rejected_streams := AList.delete stream_id (rejected_streams st),
               rejected_streams_bitmap_words :=
                 rejected_streams_bitmap_words st - length (t_received_chunks removed) \<rparr>)"

definition projected_bitmap_words :: "u64 \<Rightarrow> usize \<Rightarrow> StreamingState \<Rightarrow> usize option" where
  "projected_bitmap_words stream_id new_words st =
     (let is_new_entry = (lookup_rejected st stream_id = None) in
      if is_new_entry \<and> length (rejected_streams st) \<ge> REJECTED_STREAMS_ENTRY_BUDGET then None
      else
        let previous_words = (case lookup_rejected st stream_id of
                                None \<Rightarrow> 0
                              | Some existing \<Rightarrow> length (t_received_chunks existing));
            projected_words =
              saturating_add (rejected_streams_bitmap_words st - previous_words) new_words
        in if projected_words \<le> REJECTED_STREAMS_BITMAP_WORD_BUDGET then Some projected_words
           else None)"

definition try_insert_tombstone ::
  "u64 \<Rightarrow> RejectedStreamTombstone \<Rightarrow> StreamingState \<Rightarrow> bool \<times> StreamingState" where
  "try_insert_tombstone stream_id tombstone st =
     (case projected_bitmap_words stream_id (length (t_received_chunks tombstone)) st of
        None \<Rightarrow> (False, st)
      | Some projected_words \<Rightarrow>
          (True, st \<lparr> rejected_streams_bitmap_words := projected_words,
                     rejected_streams := AList.update stream_id tombstone (rejected_streams st) \<rparr>))"

text \<open>\<open>div_ceil\<close> panics on a zero divisor, so a zero first chunk is a panic here.\<close>

definition reject_stream :: "u64 \<Rightarrow> u64 \<Rightarrow> usize \<Rightarrow> StreamingState \<Rightarrow> (bool \<times> StreamingState) option" where
  "reject_stream stream_id total_size first_chunk_len st =
     (if first_chunk_len = 0 then None
      else
        let expected_chunks = expected_chunk_count total_size first_chunk_len in
        if expected_chunks \<le> 1 then Some (True, remove_tombstone stream_id st)
        else
          let new_words = bitmap_words_for expected_chunks in
          if projected_bitmap_words stream_id new_words st = None then Some (False, st)
          else Some (try_insert_tombstone stream_id
                       (tombstone_rejected total_size first_chunk_len) st))"

text \<open>A chunk of a tombstoned stream: recorded, and the tombstone goes once complete.\<close>

definition tombstone_chunk ::
  "u64 \<Rightarrow> usize \<Rightarrow> RejectedStreamTombstone \<Rightarrow> StreamingState \<Rightarrow> StreamingState option" where
  "tombstone_chunk stream_id chunk_index tombstone st =
     (let tombstone = tombstone_mark_chunk_received chunk_index tombstone;
          st = st \<lparr> rejected_streams := AList.update stream_id tombstone (rejected_streams st) \<rparr>
      in case tombstone_is_complete tombstone of
           None \<Rightarrow> None
         | Some complete \<Rightarrow> Some (if complete then remove_tombstone stream_id st else st))"

definition mark_reap_discarded_chunk_received ::
  "u64 \<Rightarrow> usize \<Rightarrow> StreamingState \<Rightarrow> StreamingState option" where
  "mark_reap_discarded_chunk_received stream_id chunk_index st =
     (case lookup_rejected st stream_id of
        None \<Rightarrow> Some st
      | Some tombstone \<Rightarrow> tombstone_chunk stream_id chunk_index tombstone st)"

subsection \<open>Admission\<close>

definition is_resource_busy :: "GossipError \<Rightarrow> bool" where
  "is_resource_busy e \<longleftrightarrow> e = Network ResourceBusy"

definition is_stream_reaped_error :: "GossipError \<Rightarrow> bool" where
  "is_stream_reaped_error e \<longleftrightarrow> e = Network NotFound"

definition new_stream ::
  "nat \<Rightarrow> StreamHeader \<Rightarrow> u32 \<Rightarrow> u64 option \<Rightarrow> bool \<Rightarrow> usize \<Rightarrow> InProgressStream" where
  "new_stream now header correlation_id schema_hash is_response total_size =
     \<lparr> s_stream_id = sh_stream_id header, s_total_size = sh_total_size header,
       s_type_hash = sh_type_hash header, s_actor_id = sh_actor_id header,
       s_correlation_id = correlation_id, s_is_response = is_response,
       s_schema_hash = schema_hash, s_received_size = 0, s_buffer = replicate total_size 0,
       s_chunk_stride = None, s_received_chunks = [], s_expected_chunks = None,
       s_duplicate_chunks = 0, s_started_at = now, s_last_activity = now,
       s_total_bytes_progressed = 0, s_rate_window_started_at = now,
       s_progressed_bytes_at_window_start = 0 \<rparr>"

definition inflight_bytes :: "StreamingState \<Rightarrow> usize" where
  "inflight_bytes st = val_sum (\<lambda>s. unat (s_total_size s)) (active_streams st)"

definition start_stream_with_correlation_and_kind ::
  "nat \<Rightarrow> StreamHeader \<Rightarrow> u32 \<Rightarrow> u64 option \<Rightarrow> bool \<Rightarrow> StreamingState \<Rightarrow>
   unit result \<times> StreamingState" where
  "start_stream_with_correlation_and_kind now header correlation_id schema_hash is_response st =
     (if lookup_active st (sh_stream_id header) \<noteq> None then (Inr (), st)
      else
        let total_size = unat (sh_total_size header) in
        if total_size > MAX_STREAM_SIZE then (Inl (Network InvalidData), st)
        else if length (active_streams st) \<ge> max_concurrent_streams st
        then (Inl (Network ResourceBusy), st)
        else if saturating_add (inflight_bytes st) total_size > MAX_INFLIGHT_STREAM_BYTES
        then (Inl (Network ResourceBusy), st)
        else (Inr (),
              update_active (sh_stream_id header)
                (new_stream now header correlation_id schema_hash is_response total_size) st))"

definition start_stream_with_correlation ::
  "nat \<Rightarrow> StreamHeader \<Rightarrow> u32 \<Rightarrow> u64 option \<Rightarrow> StreamingState \<Rightarrow> unit result \<times> StreamingState" where
  "start_stream_with_correlation now header correlation_id schema_hash st =
     start_stream_with_correlation_and_kind now header correlation_id schema_hash False st"

subsection \<open>Reservation of a chunk\<close>

definition set_stride :: "usize \<Rightarrow> InProgressStream \<Rightarrow> InProgressStream" where
  "set_stride stride s =
     (let expected = div_ceil (unat (s_total_size s)) stride in
      s \<lparr> s_chunk_stride := Some stride, s_expected_chunks := Some expected,
          s_received_chunks := replicate (div_ceil expected 64) 0 \<rparr>)"

definition stream_reserve ::
  "u64 \<Rightarrow> usize \<Rightarrow> usize \<Rightarrow> InProgressStream \<Rightarrow>
   (StreamChunkReservation result \<times> InProgressStream) option" where
  "stream_reserve stream_id chunk_index chunk_len s =
     (if chunk_len = 0 then Some (Inl (Network InvalidData), s)
      else
        let (stride, s) = (case s_chunk_stride s of
                             Some stride \<Rightarrow> (stride, s)
                           | None \<Rightarrow> (chunk_len, set_stride chunk_len s))
        in case s_expected_chunks s of
             None \<Rightarrow> None
           | Some expected \<Rightarrow>
               if chunk_index \<ge> expected then Some (Inl (Network InvalidData), s)
               else case checked_mul chunk_index stride of
                 None \<Rightarrow> Some (Inl (Network InvalidData), s)
               | Some offset \<Rightarrow>
                   let remaining = wrapping_sub (unat (s_total_size s)) offset;
                       expected_len = min remaining stride
                   in if chunk_len \<noteq> expected_len then Some (Inl (Network InvalidData), s)
                      else if length (s_received_chunks s) \<le> chunk_index div 64 then None
                      else if bitmap_test (s_received_chunks s) chunk_index
                      then Some (Inl (Network InvalidData),
                                 s \<lparr> s_duplicate_chunks := sat_add_word (s_duplicate_chunks s) 1 \<rparr>)
                      else Some (Inr \<lparr> r_stream_id = stream_id, r_chunk_index = chunk_index,
                                       r_offset = offset, r_len = chunk_len \<rparr>, s))"

definition reserve_v5_chunk ::
  "u64 \<Rightarrow> u32 \<Rightarrow> usize \<Rightarrow> StreamingState \<Rightarrow>
   (StreamChunkReservation result \<times> StreamingState) option" where
  "reserve_v5_chunk stream_id chunk_index chunk_len st =
     (case lookup_active st stream_id of
        None \<Rightarrow> Some (Inl (Network InvalidData), st)
      | Some s \<Rightarrow>
          map_option (map_prod id (\<lambda>s. update_active stream_id s st))
            (stream_reserve stream_id (unat chunk_index) chunk_len s))"

definition begin_v5_stream ::
  "nat \<Rightarrow> StreamHeader \<Rightarrow> u32 \<Rightarrow> bool \<Rightarrow> usize \<Rightarrow> StreamingState \<Rightarrow>
   (StreamChunkReservation result \<times> StreamingState) option" where
  "begin_v5_stream now header correlation_id is_response first_chunk_len st =
     (if first_chunk_len = 0 then Some (Inl (Network InvalidData), st)
      else if first_chunk_len > unat (sh_total_size header)
      then Some (Inl (Network InvalidData), st)
      else case start_stream_with_correlation_and_kind now header correlation_id None is_response st of
        (Inl e, st) \<Rightarrow> Some (Inl e, st)
      | (Inr _, st) \<Rightarrow> reserve_v5_chunk (sh_stream_id header) 0 first_chunk_len st)"

definition begin_v5_stream_or_discard ::
  "nat \<Rightarrow> StreamHeader \<Rightarrow> u32 \<Rightarrow> bool \<Rightarrow> usize \<Rightarrow> StreamingState \<Rightarrow>
   (StreamChunkReservation option result \<times> StreamingState) option" where
  "begin_v5_stream_or_discard now header correlation_id is_response first_chunk_len st =
     (let st = remove_tombstone (sh_stream_id header) st;
          total_size = sh_total_size header
      in case begin_v5_stream now header correlation_id is_response first_chunk_len st of
           None \<Rightarrow> None
         | Some (Inr reservation, st) \<Rightarrow> Some (Inr (Some reservation), st)
         | Some (Inl e, st) \<Rightarrow>
             if is_resource_busy e
             then (case reject_stream (sh_stream_id header) total_size first_chunk_len st of
                     None \<Rightarrow> None
                   | Some (True, st) \<Rightarrow> Some (Inr None, st)
                   | Some (False, st) \<Rightarrow> Some (Inl (Network QuotaExceeded), st))
             else Some (Inl e, st))"

definition reserve_v5_chunk_or_discard ::
  "u64 \<Rightarrow> u32 \<Rightarrow> usize \<Rightarrow> StreamingState \<Rightarrow>
   (StreamChunkReservation option result \<times> StreamingState) option" where
  "reserve_v5_chunk_or_discard stream_id chunk_index chunk_len st =
     (case lookup_rejected st stream_id of
        Some tombstone \<Rightarrow>
          map_option (Pair (Inr None)) (tombstone_chunk stream_id (unat chunk_index) tombstone st)
      | None \<Rightarrow>
          map_option (map_prod (map_sum id Some) id)
            (reserve_v5_chunk stream_id chunk_index chunk_len st))"

subsection \<open>Reading and committing a chunk\<close>

text \<open>
  \<open>v5_chunk_target\<close> returns the mutable range the reader fills next; the model returns its
  bounds, and \<open>write_chunk_bytes\<close> is the copy of the bytes one read delivered into it.
\<close>

definition v5_chunk_target ::
  "StreamChunkReservation \<Rightarrow> usize \<Rightarrow> StreamingState \<Rightarrow> (usize \<times> usize) result option" where
  "v5_chunk_target reservation read st =
     (case lookup_active st (r_stream_id reservation) of
        None \<Rightarrow> Some (Inl (Network NotFound))
      | Some s \<Rightarrow>
          if read > r_len reservation then Some (Inl (Network InvalidData))
          else
            let start = r_offset reservation + read;
                stop = r_offset reservation + r_len reservation
            in if length (s_buffer s) < stop then None else Some (Inr (start, stop)))"

definition write_chunk_bytes ::
  "StreamChunkReservation \<Rightarrow> usize \<Rightarrow> byte list \<Rightarrow> StreamingState \<Rightarrow> StreamingState" where
  "write_chunk_bytes reservation read bytes st =
     (case lookup_active st (r_stream_id reservation) of
        None \<Rightarrow> st
      | Some s \<Rightarrow>
          update_active (r_stream_id reservation)
            (s \<lparr> s_buffer := copy_into (r_offset reservation + read) bytes (s_buffer s) \<rparr>) st)"

definition record_v5_chunk_progress ::
  "nat \<Rightarrow> StreamChunkReservation \<Rightarrow> usize \<Rightarrow> StreamingState \<Rightarrow> StreamingState" where
  "record_v5_chunk_progress now reservation new_bytes st =
     (case lookup_active st (r_stream_id reservation) of
        None \<Rightarrow> st
      | Some s \<Rightarrow>
          update_active (r_stream_id reservation)
            (s \<lparr> s_last_activity := now,
                 s_total_bytes_progressed :=
                   saturating_add (s_total_bytes_progressed s) new_bytes \<rparr>) st)"

definition commit_v5_chunk ::
  "nat \<Rightarrow> StreamChunkReservation \<Rightarrow> StreamingState \<Rightarrow>
   (CompletedV5Stream option result \<times> StreamingState) option" where
  "commit_v5_chunk now reservation st =
     (case lookup_active st (r_stream_id reservation) of
        None \<Rightarrow> Some (Inl (Network InvalidData), st)
      | Some s \<Rightarrow>
          if length (s_received_chunks s) \<le> r_chunk_index reservation div 64 then None
          else if bitmap_test (s_received_chunks s) (r_chunk_index reservation)
          then Some (Inl (Network InvalidData), st)
          else
            let s = s \<lparr> s_received_chunks :=
                          bitmap_set (s_received_chunks s) (r_chunk_index reservation),
                        s_received_size := s_received_size s + r_len reservation,
                        s_last_activity := now \<rparr>;
                st = update_active (r_stream_id reservation) s st
            in case all_chunks_received s of
                 None \<Rightarrow> None
               | Some False \<Rightarrow> Some (Inr None, st)
               | Some True \<Rightarrow>
                   Some (Inr (Some \<lparr> cs_actor_id = s_actor_id s, cs_type_hash = s_type_hash s,
                                     cs_correlation_id = s_correlation_id s,
                                     cs_is_response = s_is_response s,
                                     cs_payload = s_buffer s \<rparr>),
                         st \<lparr> active_streams :=
                                AList.delete (r_stream_id reservation) (active_streams st) \<rparr>))"

subsection \<open>Whole chunks, completion and abort\<close>

definition assemble_complete_message_with_correlation ::
  "u64 \<Rightarrow> StreamingState \<Rightarrow>
   ((byte list \<times> u32 \<times> u64 option) option result \<times> StreamingState) option" where
  "assemble_complete_message_with_correlation stream_id st =
     (case lookup_active st stream_id of
        None \<Rightarrow> Some (Inl (Network InvalidData), st)
      | Some s \<Rightarrow>
          let st = st \<lparr> active_streams := AList.delete stream_id (active_streams st) \<rparr> in
          if s_received_size s < unat (s_total_size s) then Some (Inl (Network InvalidData), st)
          else case all_chunks_received s of
            None \<Rightarrow> None
          | Some False \<Rightarrow> Some (Inl (Network InvalidData), st)
          | Some True \<Rightarrow> Some (Inr (Some (s_buffer s, s_correlation_id s, s_schema_hash s)), st))"

definition finalize_stream_with_correlation ::
  "u64 \<Rightarrow> u64 option \<Rightarrow> StreamingState \<Rightarrow>
   ((byte list \<times> u32 \<times> u64 option) option result \<times> StreamingState) option" where
  "finalize_stream_with_correlation stream_id schema_hash st =
     (case lookup_active st stream_id of
        Some s \<Rightarrow>
          if s_schema_hash s \<noteq> schema_hash then Some (Inl (Network InvalidData), st)
          else assemble_complete_message_with_correlation stream_id st
      | None \<Rightarrow> assemble_complete_message_with_correlation stream_id st)"

text \<open>
  The checks of \<open>add_chunk_with_correlation\<close> up to the duplicate test, on the stream's own
  state: the offset of an acceptable chunk, or the error.
\<close>

definition check_chunk ::
  "StreamHeader \<Rightarrow> byte list \<Rightarrow> InProgressStream \<Rightarrow> usize result \<times> InProgressStream" where
  "check_chunk header chunk_data s =
     (let err = Inl (Network InvalidData); len = length chunk_data;
          chunk_size = unat (sh_chunk_size header); total = unat (s_total_size s) in
      if sh_total_size header \<noteq> 0 \<and> sh_total_size header \<noteq> s_total_size s then (err, s)
      else if s_received_size s + len > total then (err, s)
      else if chunk_size \<noteq> len then (err, s)
      else
        let s = (if s_chunk_stride s = None \<and> sh_chunk_size header > 0 then set_stride chunk_size s
                 else s);
            stride = (case s_chunk_stride s of Some stride \<Rightarrow> stride | None \<Rightarrow> chunk_size);
            chunk_index = unat (sh_chunk_index header)
        in if chunk_size > stride then (err, s)
           else case checked_mul chunk_index stride of
             None \<Rightarrow> (err, s)
           | Some offset \<Rightarrow>
               if offset + len > total then (err, s)
               else case s_expected_chunks s of
                 None \<Rightarrow> (Inr offset, s)
               | Some expected \<Rightarrow>
                   if chunk_index \<ge> expected then (err, s)
                   else
                     let want = (if chunk_index + 1 = expected then total - offset else stride)
                     in if len \<noteq> want then (err, s) else (Inr offset, s))"

definition add_chunk_with_correlation ::
  "nat \<Rightarrow> StreamHeader \<Rightarrow> byte list \<Rightarrow> StreamingState \<Rightarrow>
   ((byte list \<times> u32 \<times> u64 option) option result \<times> StreamingState) option" where
  "add_chunk_with_correlation now header chunk_data st =
     (case lookup_active st (sh_stream_id header) of
        None \<Rightarrow> Some (Inl (Network InvalidData), st)
      | Some s \<Rightarrow>
          (case check_chunk header chunk_data s of
             (Inl e, s) \<Rightarrow> Some (Inl e, update_active (sh_stream_id header) s st)
           | (Inr offset, s) \<Rightarrow>
               (case stream_mark_chunk_received (unat (sh_chunk_index header)) s of
                  (False, s) \<Rightarrow> Some (Inr None, update_active (sh_stream_id header) s st)
                | (True, s) \<Rightarrow>
                    let s = s \<lparr> s_buffer := copy_into offset chunk_data (s_buffer s),
                                s_received_size := s_received_size s + length chunk_data,
                                s_last_activity := now,
                                s_total_bytes_progressed :=
                                  saturating_add (s_total_bytes_progressed s) (length chunk_data) \<rparr>;
                        st = update_active (sh_stream_id header) s st
                    in case all_chunks_received s of
                         None \<Rightarrow> None
                       | Some True \<Rightarrow>
                           assemble_complete_message_with_correlation (sh_stream_id header) st
                       | Some False \<Rightarrow> Some (Inr None, st))))"

definition metadata_for :: "u64 \<Rightarrow> StreamingState \<Rightarrow> (u64 \<times> u32 \<times> u32 \<times> bool) option" where
  "metadata_for stream_id st =
     map_option (\<lambda>s. (s_actor_id s, s_type_hash s, s_correlation_id s, s_is_response s))
       (lookup_active st stream_id)"

definition abort_stream :: "u64 \<Rightarrow> StreamingState \<Rightarrow> bool \<times> StreamingState" where
  "abort_stream stream_id st =
     (lookup_active st stream_id \<noteq> None,
      st \<lparr> active_streams := AList.delete stream_id (active_streams st) \<rparr>)"

definition active_stream_count :: "StreamingState \<Rightarrow> usize" where
  "active_stream_count st = length (active_streams st)"

subsection \<open>The reaper\<close>

text \<open>
  The closure of \<open>retain\<close> in \<open>cleanup_stale_with\<close>: \<open>None\<close> drops the stream, \<open>Some\<close> keeps it,
  with its rate window moved on when a full window has been cleared.
\<close>

definition reap_check :: "nat \<Rightarrow> nat \<Rightarrow> nat \<Rightarrow> usize \<Rightarrow> InProgressStream \<Rightarrow> InProgressStream option" where
  "reap_check now idle_timeout rate_window min_bytes_per_window s =
     (let idle = now - s_last_activity s in
      if idle > idle_timeout then None
      else
        let window_elapsed = now - s_rate_window_started_at s in
        if window_elapsed \<ge> rate_window
        then
          let bytes_this_window =
                s_total_bytes_progressed s - s_progressed_bytes_at_window_start s
          in if bytes_this_window < min_bytes_per_window then None
             else Some (s \<lparr> s_rate_window_started_at := now,
                            s_progressed_bytes_at_window_start := s_total_bytes_progressed s \<rparr>)
        else Some s)"

fun retain_streams ::
  "(InProgressStream \<Rightarrow> InProgressStream option) \<Rightarrow> (u64 \<times> InProgressStream) list \<Rightarrow>
   (u64 \<times> InProgressStream) list \<times> (u64 \<times> InProgressStream) list" where
  "retain_streams check [] = ([], [])"
| "retain_streams check ((i, s) # rest) =
     (let (kept, reaped) = retain_streams check rest in
      case check s of
        None \<Rightarrow> (kept, (i, s) # reaped)
      | Some s \<Rightarrow> ((i, s) # kept, reaped))"

definition tombstone_reaped_stream ::
  "u64 \<Rightarrow> InProgressStream \<Rightarrow> StreamingState \<Rightarrow> (bool \<times> StreamingState) option" where
  "tombstone_reaped_stream stream_id s st =
     (if s_chunk_stride s = None then Some (True, remove_tombstone stream_id st)
      else
        let tombstone = tombstone_reaped (s_total_size s) (s_chunk_stride s)
                          (s_expected_chunks s) (s_received_chunks s)
        in case tombstone_is_complete tombstone of
             None \<Rightarrow> None
           | Some True \<Rightarrow> Some (True, remove_tombstone stream_id st)
           | Some False \<Rightarrow> Some (try_insert_tombstone stream_id tombstone st))"

fun tombstone_all ::
  "(u64 \<times> InProgressStream) list \<Rightarrow> bool \<Rightarrow> StreamingState \<Rightarrow> (bool \<times> StreamingState) option" where
  "tombstone_all [] budget_exhausted st = Some (budget_exhausted, st)"
| "tombstone_all ((i, s) # reaped) budget_exhausted st =
     (case tombstone_reaped_stream i s st of
        None \<Rightarrow> None
      | Some (ok, st) \<Rightarrow> tombstone_all reaped (budget_exhausted \<or> \<not> ok) st)"

definition cleanup_stale_with ::
  "nat \<Rightarrow> nat \<Rightarrow> nat \<Rightarrow> usize \<Rightarrow> StreamingState \<Rightarrow> (bool \<times> StreamingState) option" where
  "cleanup_stale_with now idle_timeout rate_window min_bytes_per_window st =
     (let (kept, reaped) = retain_streams
            (reap_check now idle_timeout rate_window min_bytes_per_window) (active_streams st)
      in map_option (map_prod Not id)
           (tombstone_all reaped False (st \<lparr> active_streams := kept \<rparr>)))"

definition cleanup_stale :: "nat \<Rightarrow> StreamingState \<Rightarrow> (bool \<times> StreamingState) option" where
  "cleanup_stale now st =
     cleanup_stale_with now STREAM_IDLE_TIMEOUT MIN_SUSTAINED_RATE_WINDOW
       MIN_SUSTAINED_BYTES_PER_WINDOW st"

end
