(* ===== verification/Stream_Assembly.thy ===== *)
theory Stream_Assembly
  imports Stream_State
begin

text \<open>
  Properties of stream reassembly (\<open>Stream_State\<close>). \<open>stream_wf\<close> ties a stream's buffer,
  stride, bitmap and byte counter together; \<open>state_inv\<close> adds the bounds on the tables and the
  exact accounting of tombstone words. Every operation keeps it, none panics under it, and a
  delivered payload consists of exactly the committed chunks.
\<close>

subsection \<open>Chunk geometry\<close>

definition chunk_span :: "nat \<Rightarrow> nat \<Rightarrow> nat \<Rightarrow> nat" where
  "chunk_span tot stride i = min (tot - i * stride) stride"

lemma chunk_span_sum: "(\<Sum>i < n. chunk_span tot stride i) = min tot (n * stride)"
  by (induction n) (auto simp: chunk_span_def min_def)

lemma chunk_span_totalal:
  assumes "0 < stride"
  shows "(\<Sum>i < div_ceil tot stride. chunk_span tot stride i) = tot"
  using div_ceil_le_iff [OF assms, of tot "div_ceil tot stride"]
  by (simp add: chunk_span_sum)

lemma chunk_in_range:
  assumes "0 < stride" "i < div_ceil tot stride"
  shows "i * stride < tot" "i * stride + chunk_span tot stride i \<le> tot"
    "0 < chunk_span tot stride i"
  using assms less_div_ceil_iff [of stride i tot] by (auto simp: chunk_span_def)

lemma chunk_disjoint:
  assumes "i \<noteq> j"
  shows "i * stride + chunk_span tot stride i \<le> j * stride \<or>
    j * stride + chunk_span tot stride j \<le> i * stride"
proof (cases "i < j")
  case True
  then have "i * stride + stride \<le> j * stride" by (metis Suc_leI mult_Suc mult_le_mono1 add.commute)
  then show ?thesis by (auto simp: chunk_span_def)
next
  case False
  with assms have "j * stride + stride \<le> i * stride"
    by (metis Suc_leI mult_Suc mult_le_mono1 add.commute linorder_neqE_nat)
  then show ?thesis by (auto simp: chunk_span_def)
qed

lemma chunk_of_position:
  assumes "0 < stride" "p < tot"
  obtains i where "i < div_ceil tot stride" "i * stride \<le> p"
    "p < i * stride + chunk_span tot stride i"
proof
  let ?i = "p div stride"
  have le: "?i * stride \<le> p" by simp
  have lt: "p < ?i * stride + stride" using assms(1) by (metis dividend_less_div_times add.commute)
  show "?i < div_ceil tot stride"
    using less_div_ceil_iff [OF assms(1)] le assms(2) by (metis order_le_less_trans)
  show "?i * stride \<le> p" by (rule le)
  show "p < ?i * stride + chunk_span tot stride ?i"
    using lt le assms(2) unfolding chunk_span_def by linarith
qed

subsection \<open>Streams\<close>

definition stream_wf :: "InProgressStream \<Rightarrow> bool" where
  "stream_wf s \<longleftrightarrow>
     length (s_buffer s) = unat (s_total_size s) \<and> unat (s_total_size s) \<le> MAX_STREAM_SIZE \<and>
     (case s_chunk_stride s of
        None \<Rightarrow> s_expected_chunks s = None \<and> s_received_chunks s = [] \<and> s_received_size s = 0
      | Some stride \<Rightarrow>
          0 < stride \<and>
          s_expected_chunks s = Some (div_ceil (unat (s_total_size s)) stride) \<and>
          length (s_received_chunks s) = div_ceil (div_ceil (unat (s_total_size s)) stride) 64 \<and>
          bitmap_indices (s_received_chunks s) \<subseteq> {..< div_ceil (unat (s_total_size s)) stride} \<and>
          s_received_size s = (\<Sum>i \<in> bitmap_indices (s_received_chunks s).
            chunk_span (unat (s_total_size s)) stride i))"

definition reservation_fits :: "StreamChunkReservation \<Rightarrow> InProgressStream \<Rightarrow> bool" where
  "reservation_fits r s \<longleftrightarrow>
     (\<exists>stride. s_chunk_stride s = Some stride \<and>
        r_chunk_index r < div_ceil (unat (s_total_size s)) stride \<and>
        r_offset r = r_chunk_index r * stride \<and>
        r_len r = chunk_span (unat (s_total_size s)) stride (r_chunk_index r))"

text \<open>What reserving and committing leave unchanged: the identity and size of the stream.\<close>

definition same_stream :: "InProgressStream \<Rightarrow> InProgressStream \<Rightarrow> bool" where
  "same_stream s s' \<longleftrightarrow>
     s_stream_id s' = s_stream_id s \<and> s_total_size s' = s_total_size s \<and>
     s_type_hash s' = s_type_hash s \<and> s_actor_id s' = s_actor_id s \<and>
     s_correlation_id s' = s_correlation_id s \<and> s_is_response s' = s_is_response s \<and>
     s_schema_hash s' = s_schema_hash s"

lemma same_stream_refl [simp]: "same_stream s s"
  by (simp add: same_stream_def)

lemma stream_wf_new:
  "unat (sh_total_size h) \<le> MAX_STREAM_SIZE \<Longrightarrow>
   stream_wf (new_stream now h c sch resp (unat (sh_total_size h)))"
  by (simp add: stream_wf_def new_stream_def)

lemma bitmap_indices_zeros [simp]: "bitmap_indices (replicate n 0) = {}"
  by (auto simp: bitmap_indices_def index_word_less)

lemma bitmap_indices_Nil [simp]: "bitmap_indices [] = {}"
  by (simp add: bitmap_indices_def)

lemma stream_wf_set_stride:
  "stream_wf s \<Longrightarrow> s_chunk_stride s = None \<Longrightarrow> 0 < n \<Longrightarrow> stream_wf (set_stride n s)"
  by (simp add: stream_wf_def set_stride_def Let_def)

lemma set_stride_same [simp]:
  "same_stream s (set_stride n s)" "s_buffer (set_stride n s) = s_buffer s"
  "s_chunk_stride (set_stride n s) = Some n" "s_total_size (set_stride n s) = s_total_size s"
  by (simp_all add: same_stream_def set_stride_def Let_def)

lemma all_chunks_received_iff:
  assumes "stream_wf s"
  shows "all_chunks_received s = Some (case s_chunk_stride s of
    None \<Rightarrow> unat (s_total_size s) = 0
  | Some stride \<Rightarrow> bitmap_indices (s_received_chunks s) = {..< div_ceil (unat (s_total_size s)) stride})"
proof (cases "s_chunk_stride s")
  case None
  with assms show ?thesis by (simp add: stream_wf_def all_chunks_received_def unat_eq_0)
next
  case (Some stride)
  with assms show ?thesis
    by (auto simp: stream_wf_def all_chunks_received_def bitmap_complete_iff)
qed

text \<open>A complete stream has received exactly its declared size.\<close>

text \<open>Reservation in closed form: the stream with its stride fixed, then the three checks.\<close>

definition with_stride :: "usize \<Rightarrow> InProgressStream \<Rightarrow> InProgressStream" where
  "with_stride n s = (case s_chunk_stride s of Some _ \<Rightarrow> s | None \<Rightarrow> set_stride n s)"

lemma with_stride_props:
  assumes "stream_wf s" "0 < n"
  shows "stream_wf (with_stride n s)" "same_stream s (with_stride n s)"
    "s_buffer (with_stride n s) = s_buffer s" "s_total_size (with_stride n s) = s_total_size s"
    "bitmap_indices (s_received_chunks (with_stride n s)) = bitmap_indices (s_received_chunks s)"
    "s_chunk_stride (with_stride n s) = Some (case s_chunk_stride s of Some k \<Rightarrow> k | None \<Rightarrow> n)"
  using assms stream_wf_set_stride [of s n]
  by (auto simp: with_stride_def stream_wf_def set_stride_def Let_def same_stream_def
      split: option.splits)

lemma stream_wf_stride:
  assumes "stream_wf s" "s_chunk_stride s = Some stride"
  shows "0 < stride" "s_expected_chunks s = Some (div_ceil (unat (s_total_size s)) stride)"
    "length (s_received_chunks s) = div_ceil (div_ceil (unat (s_total_size s)) stride) 64"
    "bitmap_indices (s_received_chunks s) \<subseteq> {..< div_ceil (unat (s_total_size s)) stride}"
    "length (s_buffer s) = unat (s_total_size s)"
  using assms by (simp_all add: stream_wf_def)

lemma stream_wf_index:
  assumes "stream_wf s" "s_chunk_stride s = Some stride" "i < div_ceil (unat (s_total_size s)) stride"
  shows "i div 64 < length (s_received_chunks s)"
    "bitmap_test (s_received_chunks s) i \<longleftrightarrow> i \<in> bitmap_indices (s_received_chunks s)"
    "i * stride \<le> unat (s_total_size s)" "i * stride \<le> USIZE_MAX"
proof -
  note w = stream_wf_stride [OF assms(1,2)]
  have "i < 64 * length (s_received_chunks s)" by (rule bitmap_words_cover [OF w(3) assms(3)])
  then show "i div 64 < length (s_received_chunks s)"
    "bitmap_test (s_received_chunks s) i \<longleftrightarrow> i \<in> bitmap_indices (s_received_chunks s)"
    by (simp_all add: index_word_less bitmap_test_iff)
  have "i * stride < unat (s_total_size s)" by (rule chunk_in_range(1) [OF w(1) assms(3)])
  moreover have "unat (s_total_size s) \<le> USIZE_MAX"
    using unat_le_max [of "s_total_size s"] by (simp add: USIZE_MAX_def)
  ultimately show "i * stride \<le> unat (s_total_size s)" "i * stride \<le> USIZE_MAX" by simp_all
qed

lemma stream_reserve_eq:
  assumes "stream_wf s" "0 < n"
  defines "s1 \<equiv> with_stride n s"
  defines "stride \<equiv> (case s_chunk_stride s of Some k \<Rightarrow> k | None \<Rightarrow> n)"
  shows "stream_reserve sid i n s = Some (
    if div_ceil (unat (s_total_size s)) stride \<le> i \<or> n \<noteq> chunk_span (unat (s_total_size s)) stride i
    then (Inl (Network InvalidData), s1)
    else if i \<in> bitmap_indices (s_received_chunks s)
    then (Inl (Network InvalidData),
          s1 \<lparr> s_duplicate_chunks := sat_add_word (s_duplicate_chunks s1) 1 \<rparr>)
    else (Inr \<lparr> r_stream_id = sid, r_chunk_index = i, r_offset = i * stride, r_len = n \<rparr>, s1))"
proof -
  note p = with_stride_props [OF assms(1,2), folded s1_def]
  have st: "s_chunk_stride s1 = Some stride" using p(6) by (simp add: stride_def)
  note w = stream_wf_stride [OF p(1) st]
  have pair: "(case s_chunk_stride s of None \<Rightarrow> (n, set_stride n s) | Some k \<Rightarrow> (k, s)) = (stride, s1)"
    by (simp add: s1_def stride_def with_stride_def split: option.split)
  show ?thesis
  proof (cases "i < div_ceil (unat (s_total_size s)) stride")
    case True
    then have "i < div_ceil (unat (s_total_size s1)) stride" by (simp add: p(4))
    note x = stream_wf_index [OF p(1) st this]
    with True w p assms(2) x show ?thesis
      by (simp add: stream_reserve_def pair chunk_span_def wrapping_sub_def checked_mul_def Let_def)
  next
    case False
    with w p assms(2) show ?thesis by (simp add: stream_reserve_def pair)
  qed
qed


definition reserve_post ::
  "u64 \<Rightarrow> usize \<Rightarrow> usize \<Rightarrow> InProgressStream \<Rightarrow> StreamChunkReservation result \<Rightarrow> InProgressStream \<Rightarrow> bool"
where
  "reserve_post sid i n s res s' \<longleftrightarrow>
     stream_wf s' \<and> same_stream s s' \<and> s_buffer s' = s_buffer s \<and>
     bitmap_indices (s_received_chunks s') = bitmap_indices (s_received_chunks s) \<and>
     (s_chunk_stride s \<noteq> None \<longrightarrow> s_chunk_stride s' = s_chunk_stride s) \<and>
     (s_chunk_stride s = None \<longrightarrow> 0 < n \<longrightarrow> s_chunk_stride s' = Some n) \<and>
     (case res of
        Inl e \<Rightarrow> e = Network InvalidData
      | Inr r \<Rightarrow> reservation_fits r s' \<and> r_stream_id r = sid \<and> r_chunk_index r = i \<and> r_len r = n \<and>
               i \<notin> bitmap_indices (s_received_chunks s))"

lemma stream_reserve_post:
  assumes "stream_wf s"
  shows "\<exists>res s'. stream_reserve sid i n s = Some (res, s') \<and> reserve_post sid i n s res s'"
proof (cases "n = 0")
  case True
  with assms show ?thesis by (simp add: stream_reserve_def reserve_post_def)
next
  case False
  then have n: "0 < n" by simp
  let ?s1 = "with_stride n s"
  note p = with_stride_props [OF assms n]
  have "stream_wf (?s1 \<lparr> s_duplicate_chunks := d \<rparr>)" "same_stream s (?s1 \<lparr> s_duplicate_chunks := d \<rparr>)" for d
    using p by (simp_all add: stream_wf_def same_stream_def)
  with p show ?thesis
    unfolding stream_reserve_eq [OF assms n]
    by (auto simp: reserve_post_def reservation_fits_def)
qed

subsection \<open>The tables\<close>

definition tombstone_wf :: "RejectedStreamTombstone \<Rightarrow> bool" where
  "tombstone_wf t \<longleftrightarrow>
     (\<exists>e. t_expected_chunks t = Some e \<and> length (t_received_chunks t) = div_ceil e 64)"

definition active_inv :: "StreamingState \<Rightarrow> bool" where
  "active_inv st \<longleftrightarrow>
     keys_distinct (active_streams st) \<and>
     (\<forall>i s. lookup_active st i = Some s \<longrightarrow> stream_wf s) \<and>
     active_stream_count st \<le> max_concurrent_streams st \<and>
     inflight_bytes st \<le> MAX_INFLIGHT_STREAM_BYTES"

definition tombstone_words :: "StreamingState \<Rightarrow> usize" where
  "tombstone_words st = val_sum (\<lambda>t. length (t_received_chunks t)) (rejected_streams st)"

definition rejected_inv :: "StreamingState \<Rightarrow> bool" where
  "rejected_inv st \<longleftrightarrow>
     keys_distinct (rejected_streams st) \<and>
     (\<forall>i t. lookup_rejected st i = Some t \<longrightarrow> tombstone_wf t) \<and>
     rejected_streams_bitmap_words st = tombstone_words st \<and>
     tombstone_words st \<le> REJECTED_STREAMS_BITMAP_WORD_BUDGET \<and>
     length (rejected_streams st) \<le> REJECTED_STREAMS_ENTRY_BUDGET"

definition state_inv :: "StreamingState \<Rightarrow> bool" where
  "state_inv st \<longleftrightarrow> active_inv st \<and> rejected_inv st"

lemma active_inv_cong:
  "active_streams st' = active_streams st \<Longrightarrow>
   max_concurrent_streams st' = max_concurrent_streams st \<Longrightarrow> active_inv st' = active_inv st"
  by (simp add: active_inv_def active_stream_count_def inflight_bytes_def)

lemma rejected_inv_cong:
  "rejected_streams st' = rejected_streams st \<Longrightarrow>
   rejected_streams_bitmap_words st' = rejected_streams_bitmap_words st \<Longrightarrow>
   rejected_inv st' = rejected_inv st"
  by (simp add: rejected_inv_def tombstone_words_def)

lemma rejected_inv_active [simp]: "rejected_inv (st \<lparr> active_streams := a \<rparr>) = rejected_inv st"
  by (rule rejected_inv_cong) simp_all

lemma state_inv_new: "state_inv streaming_state_new"
  by (simp add: state_inv_def active_inv_def rejected_inv_def streaming_state_new_def
      active_stream_count_def inflight_bytes_def tombstone_words_def)

lemma active_inv_wf: "active_inv st \<Longrightarrow> lookup_active st i = Some s \<Longrightarrow> stream_wf s"
  by (simp add: active_inv_def)

lemma active_inv_update:
  assumes "active_inv st" "lookup_active st i = Some s" "stream_wf s'" "s_total_size s' = s_total_size s"
  shows "active_inv (update_active i s' st)"
  using assms val_sum_update_old [of "active_streams st" i s "\<lambda>s. unat (s_total_size s)" s']
  by (auto simp: active_inv_def active_stream_count_def inflight_bytes_def length_update_old
      keys_distinct_update)

lemma active_inv_insert:
  assumes "active_inv st" "lookup_active st i = None" "stream_wf s"
    "active_stream_count st < max_concurrent_streams st"
    "inflight_bytes st + unat (s_total_size s) \<le> MAX_INFLIGHT_STREAM_BYTES"
  shows "active_inv (update_active i s st)"
  using assms val_sum_update_new [of "active_streams st" i "\<lambda>s. unat (s_total_size s)" s]
  by (auto simp: active_inv_def active_stream_count_def inflight_bytes_def length_update_new
      keys_distinct_update)

lemma active_inv_delete:
  assumes "active_inv st"
  shows "active_inv (st \<lparr> active_streams := AList.delete i (active_streams st) \<rparr>)"
proof (cases "lookup_active st i")
  case None
  then show ?thesis using assms by (simp add: delete_fresh)
next
  case (Some s)
  then have "val_sum (\<lambda>s. unat (s_total_size s)) (AList.delete i (active_streams st))
      \<le> inflight_bytes st"
    using assms val_sum_delete [of "active_streams st" i s "\<lambda>s. unat (s_total_size s)"]
    by (simp add: active_inv_def inflight_bytes_def)
  moreover have "length (AList.delete i (active_streams st)) \<le> length (active_streams st)"
    by (rule length_delete_le)
  ultimately show ?thesis
    using assms
    by (auto simp: active_inv_def active_stream_count_def inflight_bytes_def keys_distinct_delete)
qed

lemma rejected_inv_remove: "rejected_inv st \<Longrightarrow> rejected_inv (remove_tombstone i st)"
proof (cases "lookup_rejected st i")
  case (Some t)
  assume inv: "rejected_inv st"
  then have "val_sum (\<lambda>t. length (t_received_chunks t)) (AList.delete i (rejected_streams st)) +
      length (t_received_chunks t) = tombstone_words st"
    using Some val_sum_delete [of "rejected_streams st" i t "\<lambda>t. length (t_received_chunks t)"]
    by (simp add: rejected_inv_def tombstone_words_def)
  moreover have "length (AList.delete i (rejected_streams st)) \<le> length (rejected_streams st)"
    by (rule length_delete_le)
  ultimately show ?thesis
    using inv Some
    by (auto simp: rejected_inv_def remove_tombstone_def tombstone_words_def keys_distinct_delete)
qed (simp add: remove_tombstone_def)

lemma remove_tombstone_active [simp]:
  "active_streams (remove_tombstone i st) = active_streams st"
  "max_concurrent_streams (remove_tombstone i st) = max_concurrent_streams st"
  by (simp_all add: remove_tombstone_def split: option.split)

lemma lookup_remove_tombstone:
  "lookup_rejected (remove_tombstone i st) = (lookup_rejected st)(i := None)"
  by (auto simp: remove_tombstone_def fun_upd_idem_iff split: option.split)

lemma rejected_inv_insert:
  assumes "rejected_inv st" "tombstone_wf t"
  shows "rejected_inv (snd (try_insert_tombstone i t st))"
proof (cases "projected_bitmap_words i (length (t_received_chunks t)) st")
  case None
  with assms show ?thesis by (simp add: try_insert_tombstone_def)
next
  case (Some w)
  let ?f = "\<lambda>t. length (t_received_chunks t)"
  show ?thesis
  proof (cases "lookup_rejected st i")
    case N: None
    have "val_sum ?f (AList.update i t (rejected_streams st)) = tombstone_words st + ?f t"
      using N by (simp add: val_sum_update_new tombstone_words_def)
    with N Some assms show ?thesis
      by (auto simp: projected_bitmap_words_def try_insert_tombstone_def rejected_inv_def
          tombstone_words_def length_update_new keys_distinct_update saturating_add_def Let_def
          USIZE_MAX_def REJECTED_STREAMS_BITMAP_WORD_BUDGET_def split: if_splits)
  next
    case S: (Some u)
    have "val_sum ?f (AList.update i t (rejected_streams st)) + ?f u = tombstone_words st + ?f t"
      using S val_sum_update_old [of "rejected_streams st" i u ?f t] by (simp add: tombstone_words_def)
    moreover have "?f u \<le> tombstone_words st"
      using S val_sum_ge [of "rejected_streams st" i u ?f] by (simp add: tombstone_words_def)
    ultimately show ?thesis
      using S Some assms
      by (auto simp: projected_bitmap_words_def try_insert_tombstone_def rejected_inv_def
          tombstone_words_def length_update_old keys_distinct_update saturating_add_def Let_def
          USIZE_MAX_def REJECTED_STREAMS_BITMAP_WORD_BUDGET_def split: if_splits)
  qed
qed

lemma try_insert_tombstone_active [simp]:
  "active_streams (snd (try_insert_tombstone i t st)) = active_streams st"
  "max_concurrent_streams (snd (try_insert_tombstone i t st)) = max_concurrent_streams st"
  by (simp_all add: try_insert_tombstone_def split: option.split)

lemma lookup_try_insert:
  "lookup_rejected (snd (try_insert_tombstone i t st)) =
     (if fst (try_insert_tombstone i t st) then (lookup_rejected st)(i \<mapsto> t) else lookup_rejected st)"
  by (simp add: try_insert_tombstone_def split: option.split)

subsection \<open>Operations keep the invariant\<close>

lemma tombstone_wf_mark:
  "tombstone_wf t \<Longrightarrow> tombstone_wf (tombstone_mark_chunk_received k t)"
  by (auto simp: tombstone_wf_def tombstone_mark_chunk_received_def)

lemma tombstone_complete_iff:
  assumes "tombstone_wf t"
  shows "tombstone_is_complete t =
    Some (\<forall>i < the (t_expected_chunks t). i \<in> bitmap_indices (t_received_chunks t))"
  using assms by (auto simp: tombstone_wf_def tombstone_is_complete_def bitmap_complete_iff)

lemma tombstone_wf_rejected:
  "0 < n \<Longrightarrow> tombstone_wf (tombstone_rejected total_size n)"
  unfolding tombstone_rejected_def
  by (rule tombstone_wf_mark)
    (auto simp: tombstone_wf_def establish_stride_def Let_def bitmap_words_for_def)

lemma tombstone_chunk_inv:
  assumes "state_inv st" "lookup_rejected st i = Some t"
  shows "\<exists>st'. tombstone_chunk i k t st = Some st' \<and> state_inv st' \<and>
    active_streams st' = active_streams st \<and>
    lookup_rejected st' = (lookup_rejected st)(i :=
      (let t' = tombstone_mark_chunk_received k t in
       if \<forall>j < the (t_expected_chunks t). j \<in> bitmap_indices (t_received_chunks t') then None
       else Some t'))"
proof -
  let ?t = "tombstone_mark_chunk_received k t"
  let ?st = "st \<lparr> rejected_streams := AList.update i ?t (rejected_streams st) \<rparr>"
  have wf: "tombstone_wf t" using assms by (simp add: state_inv_def rejected_inv_def)
  have len: "length (t_received_chunks ?t) = length (t_received_chunks t)"
    and exp: "t_expected_chunks ?t = t_expected_chunks t"
    by (simp_all add: tombstone_mark_chunk_received_def)
  have "tombstone_words ?st = tombstone_words st"
    using assms(2) len
      val_sum_update_old [of "rejected_streams st" i t "\<lambda>t. length (t_received_chunks t)" ?t]
    by (simp add: tombstone_words_def)
  then have inv: "rejected_inv ?st"
    using assms tombstone_wf_mark [OF wf, of k]
    by (auto simp: state_inv_def rejected_inv_def keys_distinct_update length_update_old)
  have act: "active_inv ?st" "active_inv (remove_tombstone i ?st)"
    using assms(1) active_inv_cong [of ?st st] active_inv_cong [of "remove_tombstone i ?st" st]
    by (simp_all add: state_inv_def)
  show ?thesis
    using inv act rejected_inv_remove [OF inv, of i] lookup_remove_tombstone [of i ?st]
      tombstone_complete_iff [OF tombstone_wf_mark [OF wf, of k]]
    by (auto simp: tombstone_chunk_def state_inv_def exp Let_def)
qed

lemma reject_stream_inv:
  assumes "state_inv st" "0 < n"
  shows "\<exists>ok st'. reject_stream i sz n st = Some (ok, st') \<and> state_inv st' \<and>
    active_streams st' = active_streams st \<and>
    (\<forall>j. j \<noteq> i \<longrightarrow> lookup_rejected st' j = lookup_rejected st j)"
proof -
  let ?t = "tombstone_rejected sz n"
  obtain ok st1 where ins: "try_insert_tombstone i ?t st = (ok, st1)" by (rule prod.exhaust)
  have "state_inv (snd (try_insert_tombstone i ?t st))"
    using assms rejected_inv_insert [OF _ tombstone_wf_rejected [OF assms(2)], of st i]
      active_inv_cong [of "snd (try_insert_tombstone i ?t st)" st]
    by (simp add: state_inv_def)
  moreover have "state_inv (remove_tombstone i st)"
    using assms(1) rejected_inv_remove active_inv_cong [of "remove_tombstone i st" st]
    by (simp add: state_inv_def)
  moreover have "\<forall>j. j \<noteq> i \<longrightarrow> lookup_rejected (snd (try_insert_tombstone i ?t st)) j = lookup_rejected st j"
    by (simp add: lookup_try_insert)
  ultimately show ?thesis
    using assms ins try_insert_tombstone_active(1) [of i ?t st]
    by (auto simp: reject_stream_def Let_def lookup_remove_tombstone)
qed

text \<open>Starting a stream: nothing but a fresh entry, within the limits, is ever added.\<close>

lemma start_stream_cases:
  assumes "active_inv st" "start_stream_with_correlation_and_kind now h c sch resp st = r"
  obtains (known) "r = (Inr (), st)" "lookup_active st (sh_stream_id h) \<noteq> None"
  | (malformed) "r = (Inl (Network InvalidData), st)" "lookup_active st (sh_stream_id h) = None"
  | (busy) "r = (Inl (Network ResourceBusy), st)" "lookup_active st (sh_stream_id h) = None"
  | (fresh) s where "r = (Inr (), update_active (sh_stream_id h) s st)"
      "lookup_active st (sh_stream_id h) = None"
      "s = new_stream now h c sch resp (unat (sh_total_size h))" "stream_wf s"
      "active_inv (update_active (sh_stream_id h) s st)"
proof -
  let ?s = "new_stream now h c sch resp (unat (sh_total_size h))"
  consider (a) "lookup_active st (sh_stream_id h) \<noteq> None"
    | (b) "lookup_active st (sh_stream_id h) = None" "unat (sh_total_size h) > MAX_STREAM_SIZE"
    | (c) "lookup_active st (sh_stream_id h) = None" "unat (sh_total_size h) \<le> MAX_STREAM_SIZE"
        "length (active_streams st) \<ge> max_concurrent_streams st \<or>
         saturating_add (inflight_bytes st) (unat (sh_total_size h)) > MAX_INFLIGHT_STREAM_BYTES"
    | (d) "lookup_active st (sh_stream_id h) = None" "unat (sh_total_size h) \<le> MAX_STREAM_SIZE"
        "length (active_streams st) < max_concurrent_streams st"
        "saturating_add (inflight_bytes st) (unat (sh_total_size h)) \<le> MAX_INFLIGHT_STREAM_BYTES"
    by fastforce
  then show thesis
  proof cases
    case d
    have "inflight_bytes st + unat (sh_total_size h) \<le> MAX_INFLIGHT_STREAM_BYTES"
      using d(4) by (auto simp: saturating_add_def MAX_INFLIGHT_STREAM_BYTES_def
          MAX_STREAM_SIZE_def USIZE_MAX_def min_def split: if_splits)
    with d assms(1) have "active_inv (update_active (sh_stream_id h) ?s st)"
      by (intro active_inv_insert stream_wf_new)
        (simp_all add: active_stream_count_def new_stream_def)
    with d fresh [of ?s] stream_wf_new [OF d(2)] show thesis
      by (simp add: assms(2) [symmetric] start_stream_with_correlation_and_kind_def)
  qed (use known malformed busy in
    \<open>auto simp: assms(2) [symmetric] start_stream_with_correlation_and_kind_def Let_def\<close>)
qed

subsection \<open>Contents\<close>

text \<open>
  \<open>agrees M s\<close>: stream \<open>s\<close> carries the message \<open>M\<close> as far as it has received it, that is,
  it has its size and every received chunk holds the bytes of \<open>M\<close> at its place.
\<close>

definition agrees :: "byte list \<Rightarrow> InProgressStream \<Rightarrow> bool" where
  "agrees M s \<longleftrightarrow>
     unat (s_total_size s) = length M \<and>
     (\<forall>stride i. s_chunk_stride s = Some stride \<longrightarrow> i \<in> bitmap_indices (s_received_chunks s) \<longrightarrow>
        slice (i * stride) (i * stride + chunk_span (length M) stride i) (s_buffer s) =
        slice (i * stride) (i * stride + chunk_span (length M) stride i) M)"

definition holds :: "usize \<Rightarrow> byte list \<Rightarrow> u64 \<Rightarrow> StreamingState \<Rightarrow> bool" where
  "holds m M i st \<longleftrightarrow>
     (\<forall>s. lookup_active st i = Some s \<longrightarrow> agrees M s \<and> s_chunk_stride s = Some m)"

definition chunk_of :: "byte list \<Rightarrow> StreamChunkReservation \<Rightarrow> byte list" where
  "chunk_of M r = slice (r_offset r) (r_offset r + r_len r) M"

lemma agrees_new: "unat (sh_total_size h) = length M \<Longrightarrow> agrees M (new_stream now h c sch resp n)"
  by (simp add: agrees_def new_stream_def)

lemma agrees_reserve: "agrees M s \<Longrightarrow> reserve_post sid i n s res s' \<Longrightarrow> stream_wf s \<Longrightarrow> agrees M s'"
  by (cases "s_chunk_stride s")
    (auto simp: agrees_def reserve_post_def same_stream_def stream_wf_def)

text \<open>The slices of a list cover it.\<close>

lemma slice_eq_nth:
  "slice a b xs = slice a b ys \<Longrightarrow> a \<le> p \<Longrightarrow> p < b \<Longrightarrow> p < length xs \<Longrightarrow> p < length ys \<Longrightarrow> xs ! p = ys ! p"
  using nth_slice [of "p - a" b a xs] nth_slice [of "p - a" b a ys] by auto

lemma complete_agrees:
  assumes "stream_wf s" "agrees M s" "all_chunks_received s = Some True"
  shows "s_buffer s = M"
proof (rule nth_equalityI)
  show len: "length (s_buffer s) = length M"
    using assms(1,2) by (simp add: stream_wf_def agrees_def)
  fix p assume p: "p < length (s_buffer s)"
  show "s_buffer s ! p = M ! p"
  proof (cases "s_chunk_stride s")
    case None
    with assms p show ?thesis by (simp add: all_chunks_received_iff stream_wf_def)
  next
    case (Some stride)
    then have pos: "0 < stride" using assms(1) by (simp add: stream_wf_def)
    obtain i where i: "i < div_ceil (length M) stride" "i * stride \<le> p"
      "p < i * stride + chunk_span (length M) stride i"
      by (rule chunk_of_position [OF pos, of p "length M"]) (use p len in auto)
    have "i \<in> bitmap_indices (s_received_chunks s)"
      using assms i(1) Some by (simp add: all_chunks_received_iff agrees_def)
    with assms(2) Some have
      "slice (i * stride) (i * stride + chunk_span (length M) stride i) (s_buffer s) =
       slice (i * stride) (i * stride + chunk_span (length M) stride i) M"
      by (simp add: agrees_def)
    from slice_eq_nth [OF this i(2,3)] p len show ?thesis by simp
  qed
qed

text \<open>The stream after a chunk has been written into its reservation and committed.\<close>

definition committed :: "nat \<Rightarrow> StreamChunkReservation \<Rightarrow> byte list \<Rightarrow> InProgressStream \<Rightarrow> InProgressStream" where
  "committed now r data s =
     s \<lparr> s_buffer := copy_into (r_offset r) data (s_buffer s),
         s_total_bytes_progressed := saturating_add (s_total_bytes_progressed s) (length data),
         s_received_chunks := bitmap_set (s_received_chunks s) (r_chunk_index r),
         s_received_size := s_received_size s + r_len r,
         s_last_activity := now \<rparr>"

lemma fits_range:
  assumes "stream_wf s" "reservation_fits r s"
  shows "r_offset r + r_len r \<le> length (s_buffer s)" "0 < r_len r"
    "r_chunk_index r div 64 < length (s_received_chunks s)"
    "bitmap_test (s_received_chunks s) (r_chunk_index r) \<longleftrightarrow>
       r_chunk_index r \<in> bitmap_indices (s_received_chunks s)"
    "bitmap_indices (bitmap_set (s_received_chunks s) (r_chunk_index r)) =
       insert (r_chunk_index r) (bitmap_indices (s_received_chunks s))"
proof -
  obtain stride where st: "s_chunk_stride s = Some stride"
    "r_chunk_index r < div_ceil (unat (s_total_size s)) stride"
    "r_offset r = r_chunk_index r * stride"
    "r_len r = chunk_span (unat (s_total_size s)) stride (r_chunk_index r)"
    using assms(2) by (auto simp: reservation_fits_def)
  note w = stream_wf_stride [OF assms(1) st(1)] and x = stream_wf_index [OF assms(1) st(1,2)]
  show "r_offset r + r_len r \<le> length (s_buffer s)" "0 < r_len r"
    using chunk_in_range [OF w(1) st(2)] w(5) st(3,4) by simp_all
  show "r_chunk_index r div 64 < length (s_received_chunks s)"
    "bitmap_test (s_received_chunks s) (r_chunk_index r) \<longleftrightarrow>
       r_chunk_index r \<in> bitmap_indices (s_received_chunks s)"
    by (rule x(1,2))+
  show "bitmap_indices (bitmap_set (s_received_chunks s) (r_chunk_index r)) =
       insert (r_chunk_index r) (bitmap_indices (s_received_chunks s))"
    using x(1) by (intro bitmap_indices_set) (simp add: index_word_less)
qed

lemma finite_bitmap_indices: "finite (bitmap_indices bm)"
  by (rule finite_subset [of _ "{..< 64 * length bm}"]) (auto simp: bitmap_indices_def)

lemma committed_wf:
  assumes "stream_wf s" "reservation_fits r s" "length data = r_len r"
    "r_chunk_index r \<notin> bitmap_indices (s_received_chunks s)"
  shows "stream_wf (committed now r data s)"
proof -
  note f = fits_range [OF assms(1,2)]
  obtain stride where st: "s_chunk_stride s = Some stride"
    "r_chunk_index r < div_ceil (unat (s_total_size s)) stride"
    "r_len r = chunk_span (unat (s_total_size s)) stride (r_chunk_index r)"
    using assms(2) by (auto simp: reservation_fits_def)
  show ?thesis
    using assms(1,3,4) st f(1,5) finite_bitmap_indices [of "s_received_chunks s"]
    by (simp add: stream_wf_def committed_def)
qed

lemma committed_agrees:
  assumes "stream_wf s" "reservation_fits r s" "agrees M s" "length data = r_len r"
    "r_chunk_index r \<notin> bitmap_indices (s_received_chunks s)" "data = chunk_of M r"
  shows "agrees M (committed now r data s)"
proof -
  note f = fits_range [OF assms(1,2)]
  obtain stride where st: "s_chunk_stride s = Some stride"
    "r_offset r = r_chunk_index r * stride"
    "r_len r = chunk_span (length M) stride (r_chunk_index r)"
    using assms(2,3) by (auto simp: reservation_fits_def agrees_def)
  have "slice (i * stride) (i * stride + chunk_span (length M) stride i)
      (copy_into (r_offset r) data (s_buffer s)) =
    slice (i * stride) (i * stride + chunk_span (length M) stride i) M"
    if "i = r_chunk_index r \<or> i \<in> bitmap_indices (s_received_chunks s)" for i
  proof (cases "i = r_chunk_index r")
    case True
    then show ?thesis
      using assms(4,6) f(1) st by (simp add: slice_copy_into_same chunk_of_def)
  next
    case False
    with that assms(3) st(1) have
      "slice (i * stride) (i * stride + chunk_span (length M) stride i) (s_buffer s) =
       slice (i * stride) (i * stride + chunk_span (length M) stride i) M"
      by (simp add: agrees_def)
    moreover have "slice (i * stride) (i * stride + chunk_span (length M) stride i)
        (copy_into (r_offset r) data (s_buffer s)) =
      slice (i * stride) (i * stride + chunk_span (length M) stride i) (s_buffer s)"
      using chunk_disjoint [OF False, of stride "length M"] assms(4) f(1) st
      by (auto simp: slice_copy_into_before slice_copy_into_after)
    ultimately show ?thesis by simp
  qed
  with assms(3) st(1) f(5) show ?thesis by (auto simp: agrees_def committed_def)
qed

subsection \<open>Frames as events\<close>

text \<open>
  The effect of one frame, or of one run of the reaper, on the streaming state: the payload
  of a data frame is written into its reservation and committed. The result says whether the
  connection stays open, and carries a completed stream if there is one.
\<close>

definition deliver_chunk ::
  "nat \<Rightarrow> StreamChunkReservation \<Rightarrow> byte list \<Rightarrow> StreamingState \<Rightarrow>
   (CompletedV5Stream option result \<times> StreamingState) option" where
  "deliver_chunk now r data st =
     commit_v5_chunk now r (record_v5_chunk_progress now r (length data) (write_chunk_bytes r 0 data st))"

text \<open>The bytes of the chunk with the given index of a message cut into chunks of \<open>m\<close> bytes.\<close>

definition nth_chunk :: "usize \<Rightarrow> byte list \<Rightarrow> usize \<Rightarrow> byte list" where
  "nth_chunk m M k = slice (k * m) (k * m + m) M"

lemma nth_chunk_span: "nth_chunk m M k = slice (k * m) (k * m + chunk_span (length M) m k) M"
  by (simp add: nth_chunk_def slice_def chunk_span_def min_def)

lemma length_nth_chunk: "length (nth_chunk m M k) = chunk_span (length M) m k"
  by (simp add: nth_chunk_def slice_def chunk_span_def)

datatype stream_event =
    StreamStartFrame nat StreamHeader u32 bool "byte list"
  | StreamDataFrame nat u64 u32 "byte list"
  | StreamAbortFrame u64
  | ReaperRun nat

definition finish_frame ::
  "nat \<Rightarrow> byte list \<Rightarrow> (StreamChunkReservation option result \<times> StreamingState) option \<Rightarrow>
   (CompletedV5Stream option result \<times> StreamingState) option" where
  "finish_frame now data reserved =
     (case reserved of
        None \<Rightarrow> None
      | Some (Inl e, st) \<Rightarrow> Some (Inl e, st)
      | Some (Inr None, st) \<Rightarrow> Some (Inr None, st)
      | Some (Inr (Some r), st) \<Rightarrow> deliver_chunk now r data st)"

fun apply_event ::
  "stream_event \<Rightarrow> StreamingState \<Rightarrow> (CompletedV5Stream option result \<times> StreamingState) option" where
  "apply_event (StreamStartFrame now h c resp data) st =
     finish_frame now data (begin_v5_stream_or_discard now h c resp (length data) st)"
| "apply_event (StreamDataFrame now i k data) st =
     finish_frame now data (reserve_v5_chunk_or_discard i k (length data) st)"
| "apply_event (StreamAbortFrame i) st = Some (Inr None, snd (abort_stream i st))"
| "apply_event (ReaperRun now) st =
     map_option (\<lambda>(ok, st). (if ok then Inr None else Inl (Network QuotaExceeded), st))
       (cleanup_stale now st)"

text \<open>A connection: events until one is fatal; the completed streams in order, each with the
  stream id of the frame that completed it.\<close>

fun event_stream :: "stream_event \<Rightarrow> u64 option" where
  "event_stream (StreamStartFrame now h c resp data) = Some (sh_stream_id h)"
| "event_stream (StreamDataFrame now i k data) = Some i"
| "event_stream (StreamAbortFrame i) = Some i"
| "event_stream (ReaperRun now) = None"

fun run_events ::
  "stream_event list \<Rightarrow> StreamingState \<Rightarrow> ((u64 option \<times> CompletedV5Stream) list \<times> StreamingState) option"
where
  "run_events [] st = Some ([], st)"
| "run_events (e # es) st =
     (case apply_event e st of
        None \<Rightarrow> None
      | Some (Inl _, st) \<Rightarrow> Some ([], st)
      | Some (Inr None, st) \<Rightarrow> run_events es st
      | Some (Inr (Some c), st) \<Rightarrow>
          map_option (\<lambda>(cs, st). ((event_stream e, c) # cs, st)) (run_events es st))"

text \<open>An event of a sender that transmits message \<open>M\<close> on stream \<open>j\<close> in chunks of \<open>m\<close> bytes, or
  an event of another stream.\<close>

fun carries :: "usize \<Rightarrow> byte list \<Rightarrow> u64 \<Rightarrow> stream_event \<Rightarrow> bool" where
  "carries m M j (StreamStartFrame now h c resp data) \<longleftrightarrow>
     (sh_stream_id h = j \<longrightarrow> unat (sh_total_size h) = length M \<and> data = nth_chunk m M 0)"
| "carries m M j (StreamDataFrame now i k data) \<longleftrightarrow> (i = j \<longrightarrow> data = nth_chunk m M (unat k))"
| "carries m M j (StreamAbortFrame i) \<longleftrightarrow> True"
| "carries m M j (ReaperRun now) \<longleftrightarrow> True"

subsection \<open>Every event keeps the invariant and the contents\<close>

definition res_ok :: "StreamChunkReservation \<Rightarrow> StreamingState \<Rightarrow> bool" where
  "res_ok r st \<longleftrightarrow>
     (\<exists>s. lookup_active st (r_stream_id r) = Some s \<and> reservation_fits r s \<and>
          r_chunk_index r \<notin> bitmap_indices (s_received_chunks s))"

lemma reserve_v5_chunk_post:
  assumes "state_inv st"
  shows "\<exists>res st'. reserve_v5_chunk i k n st = Some (res, st') \<and> state_inv st' \<and>
    (\<forall>m M j. holds m M j st \<longrightarrow> holds m M j st') \<and>
    (\<forall>M s. 0 < n \<longrightarrow> lookup_active st i = Some s \<longrightarrow> agrees M s \<longrightarrow> s_chunk_stride s = None \<longrightarrow>
       holds n M i st') \<and>
    (case res of Inl e \<Rightarrow> e = Network InvalidData
     | Inr r \<Rightarrow> r_stream_id r = i \<and> r_chunk_index r = unat k \<and> r_len r = n \<and> res_ok r st')"
proof (cases "lookup_active st i")
  case None
  with assms show ?thesis by (simp add: reserve_v5_chunk_def)
next
  case (Some s)
  have wf: "stream_wf s" using assms Some active_inv_wf by (auto simp: state_inv_def)
  obtain res s' where r: "stream_reserve i (unat k) n s = Some (res, s')"
    "reserve_post i (unat k) n s res s'"
    using stream_reserve_post [OF wf] by blast
  have "state_inv (update_active i s' st)"
    using assms r(2) active_inv_update [OF _ Some, of s']
    by (simp add: state_inv_def reserve_post_def same_stream_def)
  moreover have "holds m M j (update_active i s' st)" if "holds m M j st" for m M j
    using that Some agrees_reserve [OF _ r(2) wf] r(2) by (auto simp: holds_def reserve_post_def)
  moreover have "holds n M i (update_active i s' st)"
    if "0 < n" "agrees M s" "s_chunk_stride s = None" for M
    using that agrees_reserve [OF _ r(2) wf] r(2) by (auto simp: holds_def reserve_post_def)
  ultimately show ?thesis
    using r Some
    by (auto simp: reserve_v5_chunk_def reserve_post_def res_ok_def split: sum.splits)
qed

lemma begin_v5_stream_post:
  assumes "state_inv st"
  shows "\<exists>res st'. begin_v5_stream now h c resp n st = Some (res, st') \<and> state_inv st' \<and>
    (\<forall>m M j. holds m M j st \<longrightarrow> (j = sh_stream_id h \<longrightarrow> unat (sh_total_size h) = length M \<and> n = m) \<longrightarrow>
       holds m M j st') \<and>
    (case res of Inl e \<Rightarrow> e = Network InvalidData \<or> e = Network ResourceBusy \<and> 0 < n \<and> st' = st
     | Inr r \<Rightarrow> r_stream_id r = sh_stream_id h \<and> r_chunk_index r = 0 \<and> r_len r = n \<and> res_ok r st')"
proof (cases "n = 0 \<or> n > unat (sh_total_size h)")
  case True
  with assms show ?thesis by (auto simp: begin_v5_stream_def)
next
  case False
  have act: "active_inv st" using assms by (simp add: state_inv_def)
  obtain r where r: "start_stream_with_correlation_and_kind now h c None resp st = r" by blast
  from act r show ?thesis
  proof (cases rule: start_stream_cases)
    case known
    then have eq: "begin_v5_stream now h c resp n st = reserve_v5_chunk (sh_stream_id h) 0 n st"
      using False r by (simp add: begin_v5_stream_def)
    obtain res st' where "reserve_v5_chunk (sh_stream_id h) 0 n st = Some (res, st')" "state_inv st'"
      "\<forall>m M j. holds m M j st \<longrightarrow> holds m M j st'"
      "case res of Inl e \<Rightarrow> e = Network InvalidData | Inr r \<Rightarrow> r_stream_id r = sh_stream_id h \<and>
         r_chunk_index r = unat (0 :: u32) \<and> r_len r = n \<and> res_ok r st'"
      using reserve_v5_chunk_post [OF assms, of "sh_stream_id h" 0 n] by blast
    then show ?thesis unfolding eq by (cases res) simp_all
  next
    case (fresh s)
    let ?st = "update_active (sh_stream_id h) s st"
    have inv: "state_inv ?st" using fresh assms by (simp add: state_inv_def)
    have h: "holds m M j ?st" if "holds m M j st" "j \<noteq> sh_stream_id h" for m M j
      using that by (auto simp: holds_def fresh(3))
    have s: "agrees M s" "s_chunk_stride s = None" if "unat (sh_total_size h) = length M" for M
      using that agrees_new [of h M now c None resp] by (auto simp: fresh(3) new_stream_def)
    have eq: "begin_v5_stream now h c resp n st = reserve_v5_chunk (sh_stream_id h) 0 n ?st"
      using False r fresh(1) by (simp add: begin_v5_stream_def)
    obtain res st' where "reserve_v5_chunk (sh_stream_id h) 0 n ?st = Some (res, st')" "state_inv st'"
      "\<forall>m M j. holds m M j ?st \<longrightarrow> holds m M j st'"
      "\<forall>M s. 0 < n \<longrightarrow> lookup_active ?st (sh_stream_id h) = Some s \<longrightarrow> agrees M s \<longrightarrow>
        s_chunk_stride s = None \<longrightarrow> holds n M (sh_stream_id h) st'"
      "case res of Inl e \<Rightarrow> e = Network InvalidData | Inr r \<Rightarrow> r_stream_id r = sh_stream_id h \<and>
         r_chunk_index r = unat (0 :: u32) \<and> r_len r = n \<and> res_ok r st'"
      using reserve_v5_chunk_post [OF inv, of "sh_stream_id h" 0 n] by blast
    moreover have "holds m M j st'" if "holds m M j st"
      "j = sh_stream_id h \<longrightarrow> unat (sh_total_size h) = length M \<and> n = m" for m M j
      using calculation(3,4) h [OF that(1)] s [of M] that(2) False
      by (cases "j = sh_stream_id h") simp_all
    ultimately show ?thesis unfolding eq by (cases res) simp_all
  qed (use False r assms in \<open>auto simp: begin_v5_stream_def\<close>)
qed

lemma state_inv_remove_tombstone: "state_inv st \<Longrightarrow> state_inv (remove_tombstone i st)"
  using rejected_inv_remove active_inv_cong [of "remove_tombstone i st" st]
  by (simp add: state_inv_def)

lemma holds_active: "active_streams st' = active_streams st \<Longrightarrow> holds m M j st' = holds m M j st"
  by (simp add: holds_def)

lemma begin_or_discard_post:
  assumes "state_inv st"
  shows "\<exists>res st'. begin_v5_stream_or_discard now h c resp n st = Some (res, st') \<and> state_inv st' \<and>
    (\<forall>m M j. holds m M j st \<longrightarrow> (j = sh_stream_id h \<longrightarrow> unat (sh_total_size h) = length M \<and> n = m) \<longrightarrow>
       holds m M j st') \<and>
    (case res of Inr (Some r) \<Rightarrow>
       r_stream_id r = sh_stream_id h \<and> r_chunk_index r = 0 \<and> r_len r = n \<and> res_ok r st'
     | _ \<Rightarrow> True)"
proof -
  let ?st = "remove_tombstone (sh_stream_id h) st"
  have inv: "state_inv ?st" by (rule state_inv_remove_tombstone [OF assms])
  have h0: "holds m M j ?st = holds m M j st" for m M j by (rule holds_active) simp
  from begin_v5_stream_post [OF inv, of now h c resp n, unfolded h0]
  obtain res st1 where b: "begin_v5_stream now h c resp n ?st = Some (res, st1)" "state_inv st1"
    "\<forall>m M j. holds m M j st \<longrightarrow> (j = sh_stream_id h \<longrightarrow> unat (sh_total_size h) = length M \<and> n = m) \<longrightarrow>
       holds m M j st1"
    and res: "case res of Inl e \<Rightarrow> e = Network InvalidData \<or> e = Network ResourceBusy \<and> 0 < n \<and> st1 = ?st
     | Inr r \<Rightarrow> r_stream_id r = sh_stream_id h \<and> r_chunk_index r = 0 \<and> r_len r = n \<and> res_ok r st1"
    by blast
  show ?thesis
  proof (cases "res = Inl (Network ResourceBusy)")
    case True
    then have "0 < n" using res by simp
    from reject_stream_inv [OF b(2) this, of "sh_stream_id h" "sh_total_size h"]
    obtain ok st2 where j: "reject_stream (sh_stream_id h) (sh_total_size h) n st1 = Some (ok, st2)"
      "state_inv st2" "active_streams st2 = active_streams st1" by blast
    with True b holds_active [OF j(3)] show ?thesis
      by (cases ok) (auto simp: begin_v5_stream_or_discard_def is_resource_busy_def)
  next
    case False
    with b res show ?thesis
      by (cases res) (auto simp: begin_v5_stream_or_discard_def is_resource_busy_def)
  qed
qed

lemma reserve_or_discard_post:
  assumes "state_inv st"
  shows "\<exists>res st'. reserve_v5_chunk_or_discard i k n st = Some (res, st') \<and> state_inv st' \<and>
    (\<forall>m M j. holds m M j st \<longrightarrow> holds m M j st') \<and>
    (case res of Inr (Some r) \<Rightarrow>
       r_stream_id r = i \<and> r_chunk_index r = unat k \<and> r_len r = n \<and> res_ok r st'
     | _ \<Rightarrow> True)"
proof (cases "lookup_rejected st i")
  case None
  obtain res st' where "reserve_v5_chunk i k n st = Some (res, st')" "state_inv st'"
    "\<forall>m M j. holds m M j st \<longrightarrow> holds m M j st'"
    "case res of Inl e \<Rightarrow> e = Network InvalidData
     | Inr r \<Rightarrow> r_stream_id r = i \<and> r_chunk_index r = unat k \<and> r_len r = n \<and> res_ok r st'"
    using reserve_v5_chunk_post [OF assms, of i k n] by blast
  with None show ?thesis
    by (cases res) (auto simp: reserve_v5_chunk_or_discard_def)
next
  case (Some t)
  from tombstone_chunk_inv [OF assms Some, of "unat k"] obtain st' where
    "tombstone_chunk i (unat k) t st = Some st'" "state_inv st'"
    "active_streams st' = active_streams st" by blast
  with Some holds_active [of st' st] show ?thesis
    by (auto simp: reserve_v5_chunk_or_discard_def)
qed

lemma deliver_chunk_eq:
  fixes now :: nat
  assumes "lookup_active st (r_stream_id r) = Some s" "stream_wf s" "reservation_fits r s"
    "length data = r_len r" "r_chunk_index r \<notin> bitmap_indices (s_received_chunks s)"
  defines "s' \<equiv> committed now r data s"
  shows "deliver_chunk now r data st = Some (
    if all_chunks_received s' = Some True
    then (Inr (Some \<lparr> cs_actor_id = s_actor_id s, cs_type_hash = s_type_hash s,
                      cs_correlation_id = s_correlation_id s, cs_is_response = s_is_response s,
                      cs_payload = s_buffer s' \<rparr>),
          st \<lparr> active_streams := AList.delete (r_stream_id r) (active_streams st) \<rparr>)
    else (Inr None, update_active (r_stream_id r) s' st))"
proof -
  note f = fits_range [OF assms(2,3)]
  have "stream_wf s'" unfolding s'_def by (rule committed_wf [OF assms(2,3,4,5)])
  then obtain b where b: "all_chunks_received s' = Some b" by (simp add: all_chunks_received_iff)
  have del: "AList.delete i (AList.update i x al) = AList.delete i al" for i :: u64 and x :: InProgressStream and al
    by (induction al) auto
  show ?thesis
    using assms(1,5) f(3,4) b
    by (cases b) (simp_all add: deliver_chunk_def write_chunk_bytes_def record_v5_chunk_progress_def
        commit_v5_chunk_def del s'_def committed_def Let_def)
qed

lemma deliver_chunk_post:
  assumes "state_inv st" "res_ok r st" "length data = r_len r"
  shows "\<exists>res st'. deliver_chunk now r data st = Some (Inr res, st') \<and> state_inv st' \<and>
    (\<forall>m M j. holds m M j st \<longrightarrow> (j = r_stream_id r \<longrightarrow> data = nth_chunk m M (r_chunk_index r)) \<longrightarrow>
       holds m M j st') \<and>
    (\<forall>c m M. res = Some c \<longrightarrow> holds m M (r_stream_id r) st \<longrightarrow>
       data = nth_chunk m M (r_chunk_index r) \<longrightarrow> cs_payload c = M)"
proof -
  obtain s where s: "lookup_active st (r_stream_id r) = Some s" "reservation_fits r s"
    "r_chunk_index r \<notin> bitmap_indices (s_received_chunks s)"
    using assms(2) by (auto simp: res_ok_def)
  have wf: "stream_wf s" using assms(1) s(1) active_inv_wf by (auto simp: state_inv_def)
  let ?s = "committed now r data s"
  have wf': "stream_wf ?s" by (rule committed_wf [OF wf s(2) assms(3) s(3)])
  have agr: "agrees M ?s" "s_chunk_stride ?s = Some m"
    if "holds m M (r_stream_id r) st" "data = nth_chunk m M (r_chunk_index r)" for m M
  proof -
    have "agrees M s" "s_chunk_stride s = Some m" using that(1) s(1) by (simp_all add: holds_def)
    moreover from this have "data = chunk_of M r"
      using that(2) s(2) assms(3)
      by (auto simp: nth_chunk_span chunk_of_def reservation_fits_def agrees_def)
    ultimately show "agrees M ?s" "s_chunk_stride ?s = Some m"
      using committed_agrees [OF wf s(2) _ assms(3) s(3)] by (simp_all add: committed_def)
  qed
  have inv: "state_inv (update_active (r_stream_id r) ?s st)"
    "state_inv (st \<lparr> active_streams := AList.delete (r_stream_id r) (active_streams st) \<rparr>)"
    using assms(1) active_inv_update [OF _ s(1) wf'] active_inv_delete [of st "r_stream_id r"]
    by (simp_all add: state_inv_def committed_def)
  have pay: "s_buffer ?s = M" if "all_chunks_received ?s = Some True" "holds m M (r_stream_id r) st"
    "data = nth_chunk m M (r_chunk_index r)" for m M
    by (rule complete_agrees [OF wf' agr(1) [OF that(2,3)] that(1)])
  show ?thesis
  proof (cases "all_chunks_received ?s = Some True")
    case True
    with inv pay show ?thesis
      by (auto simp: deliver_chunk_eq [OF s(1) wf s(2) assms(3) s(3)] holds_def)
  next
    case False
    with inv agr show ?thesis
      by (auto simp: deliver_chunk_eq [OF s(1) wf s(2) assms(3) s(3)] holds_def)
  qed
qed

subsection \<open>The reaper\<close>

lemma reap_check_same:
  "reap_check now a b c s = Some s' \<Longrightarrow> stream_wf s \<Longrightarrow>
   stream_wf s' \<and> s_total_size s' = s_total_size s \<and> s_chunk_stride s' = s_chunk_stride s \<and>
   (agrees M s \<longrightarrow> agrees M s')"
proof -
  have "stream_wf (s \<lparr> s_rate_window_started_at := x, s_progressed_bytes_at_window_start := y \<rparr>) = stream_wf s"
    "agrees M (s \<lparr> s_rate_window_started_at := x, s_progressed_bytes_at_window_start := y \<rparr>) = agrees M s"
    for x y by (simp_all add: stream_wf_def agrees_def split: option.split)
  then show "reap_check now a b c s = Some s' \<Longrightarrow> stream_wf s \<Longrightarrow>
   stream_wf s' \<and> s_total_size s' = s_total_size s \<and> s_chunk_stride s' = s_chunk_stride s \<and>
   (agrees M s \<longrightarrow> agrees M s')"
    by (auto simp: reap_check_def Let_def split: if_splits)
qed

lemma retain_streams_lookup:
  assumes "keys_distinct al"
  shows "map_of (fst (retain_streams check al)) i = Option.bind (map_of al i) check"
    and "map_of (snd (retain_streams check al)) i =
      (case map_of al i of Some s \<Rightarrow> if check s = None then Some s else None | None \<Rightarrow> None)"
    and "\<forall>kv \<in> set (fst (retain_streams check al)). fst kv \<in> fst ` set al"
    and "\<forall>kv \<in> set (snd (retain_streams check al)). fst kv \<in> fst ` set al"
    and "keys_distinct (fst (retain_streams check al))"
    and "keys_distinct (snd (retain_streams check al))"
  using assms
proof (induction al)
  case (Cons kv al)
  obtain k s where kv: "kv = (k, s)" by (rule prod.exhaust)
  {
    case 1
    then have "map_of al k = None" using kv by (auto simp: map_of_eq_None_iff)
    with 1 show ?case using Cons(1) kv by (auto simp: Let_def split: prod.splits option.splits)
  next
    case 2
    then have "map_of al k = None" using kv by (auto simp: map_of_eq_None_iff)
    with 2 show ?case using Cons(2) kv by (auto simp: Let_def split: prod.splits option.splits)
  next
    case 3
    then show ?case using Cons(3) kv by (auto simp: Let_def split: prod.splits option.splits)
  next
    case 4
    then show ?case using Cons(4) kv by (auto simp: Let_def split: prod.splits option.splits)
  next
    case 5
    then show ?case using Cons(3,5) kv by (auto simp: Let_def split: prod.splits option.splits)
  next
    case 6
    then show ?case using Cons(4,6) kv by (auto simp: Let_def split: prod.splits option.splits)
  }
qed simp_all

lemma retain_streams_sum:
  assumes "\<And>s s'. check s = Some s' \<Longrightarrow> f s' = f s"
  shows "val_sum f (fst (retain_streams check al)) + val_sum f (snd (retain_streams check al)) = val_sum f al"
    and "length (fst (retain_streams check al)) + length (snd (retain_streams check al)) = length al"
  by (induction al) (auto simp: Let_def assms split: prod.splits option.splits)

lemma active_inv_retain:
  assumes "active_inv st"
  shows "active_inv (st \<lparr> active_streams := fst (retain_streams (reap_check now a b c) (active_streams st)) \<rparr>)"
proof -
  let ?al = "active_streams st" and ?chk = "reap_check now a b c"
  have d: "keys_distinct ?al" using assms by (simp add: active_inv_def)
  have "s_total_size s' = s_total_size s" if "?chk s = Some s'" for s s'
    using that by (auto simp: reap_check_def Let_def split: if_splits)
  then have "val_sum (\<lambda>s. unat (s_total_size s)) (fst (retain_streams ?chk ?al)) \<le> inflight_bytes st"
    "length (fst (retain_streams ?chk ?al)) \<le> length ?al"
    using retain_streams_sum [of ?chk "\<lambda>s. unat (s_total_size s)" ?al]
    unfolding inflight_bytes_def by (metis le_add1)+
  moreover have "stream_wf s'" if "map_of (fst (retain_streams ?chk ?al)) i = Some s'" for i s'
  proof -
    from that obtain s where "lookup_active st i = Some s" "?chk s = Some s'"
      unfolding retain_streams_lookup(1) [OF d] by (auto simp: bind_eq_Some_conv)
    with assms reap_check_same show ?thesis by (auto dest: active_inv_wf)
  qed
  ultimately show ?thesis
    using assms retain_streams_lookup(5) [OF d]
    by (auto simp: active_inv_def active_stream_count_def inflight_bytes_def)
qed

lemma tombstone_reaped_inv:
  assumes "rejected_inv st" "stream_wf s"
  shows "\<exists>ok st'. tombstone_reaped_stream i s st = Some (ok, st') \<and> rejected_inv st' \<and>
    active_streams st' = active_streams st \<and> max_concurrent_streams st' = max_concurrent_streams st \<and>
    (\<forall>j. j \<noteq> i \<longrightarrow> lookup_rejected st' j = lookup_rejected st j)"
proof (cases "s_chunk_stride s")
  case None
  with assms show ?thesis
    by (auto simp: tombstone_reaped_stream_def rejected_inv_remove lookup_remove_tombstone)
next
  case (Some stride)
  let ?t = "tombstone_reaped (s_total_size s) (s_chunk_stride s) (s_expected_chunks s) (s_received_chunks s)"
  have wf: "tombstone_wf ?t"
    using stream_wf_stride [OF assms(2) Some] by (simp add: tombstone_wf_def tombstone_reaped_def)
  obtain b where b: "tombstone_is_complete ?t = Some b" by (simp add: tombstone_complete_iff [OF wf])
  obtain ok st1 where t: "try_insert_tombstone i ?t st = (ok, st1)" by (rule prod.exhaust)
  show ?thesis
    using assms(1) Some b rejected_inv_insert [OF assms(1) wf, of i, unfolded t snd_conv]
      lookup_try_insert [of i ?t st, unfolded t snd_conv]
      try_insert_tombstone_active [of i ?t st, unfolded t snd_conv] t
    by (cases b; cases ok)
      (auto simp: tombstone_reaped_stream_def Let_def rejected_inv_remove lookup_remove_tombstone)
qed

lemma tombstone_all_inv:
  assumes "rejected_inv st" "\<forall>(i, s) \<in> set reaped. stream_wf s"
  shows "\<exists>bad st'. tombstone_all reaped b st = Some (bad, st') \<and> rejected_inv st' \<and>
    active_streams st' = active_streams st \<and> max_concurrent_streams st' = max_concurrent_streams st \<and>
    (\<forall>j. j \<notin> fst ` set reaped \<longrightarrow> lookup_rejected st' j = lookup_rejected st j)"
  using assms
proof (induction reaped arbitrary: b st)
  case (Cons p reaped)
  obtain i s where p: "p = (i, s)" by (rule prod.exhaust)
  from tombstone_reaped_inv [of st s i] Cons.prems obtain ok st1 where
    1: "tombstone_reaped_stream i s st = Some (ok, st1)" "rejected_inv st1"
    "active_streams st1 = active_streams st" "max_concurrent_streams st1 = max_concurrent_streams st"
    "\<forall>j. j \<noteq> i \<longrightarrow> lookup_rejected st1 j = lookup_rejected st j"
    by (auto simp: p)
  from Cons.IH [OF 1(2), of "b \<or> \<not> ok"] Cons.prems(2) 1 show ?case by (auto simp: p)
qed simp

lemma cleanup_stale_with_inv:
  assumes "state_inv st"
  shows "\<exists>ok st'. cleanup_stale_with now a b c st = Some (ok, st') \<and> state_inv st' \<and>
    (\<forall>i. lookup_active st' i = Option.bind (lookup_active st i) (reap_check now a b c)) \<and>
    (\<forall>i t. lookup_rejected st i = Some t \<longrightarrow> lookup_active st i = None \<longrightarrow> lookup_rejected st' i = Some t)"
proof -
  let ?al = "active_streams st" and ?chk = "reap_check now a b c"
  have act: "active_inv st" and rej: "rejected_inv st" using assms by (simp_all add: state_inv_def)
  have d: "keys_distinct ?al" using act by (simp add: active_inv_def)
  obtain kept reaped where kr: "retain_streams ?chk ?al = (kept, reaped)" by (rule prod.exhaust)
  have look: "map_of kept i = Option.bind (lookup_active st i) ?chk" for i
    using retain_streams_lookup(1) [OF d, of ?chk i] kr by simp
  have "stream_wf s" if "(i, s) \<in> set reaped" for i s
  proof -
    have "map_of reaped i = Some s"
      using retain_streams_lookup(6) [OF d, of ?chk] kr that by (simp add: map_of_eq_Some_iff)
    then have "lookup_active st i = Some s"
      using retain_streams_lookup(2) [OF d, of ?chk i] kr by (auto split: option.splits if_splits)
    then show ?thesis by (rule active_inv_wf [OF act])
  qed
  with tombstone_all_inv [of "st \<lparr> active_streams := kept \<rparr>" reaped False] rej
  obtain bad st' where t: "tombstone_all reaped False (st \<lparr> active_streams := kept \<rparr>) = Some (bad, st')"
    "rejected_inv st'" "active_streams st' = kept"
    "max_concurrent_streams st' = max_concurrent_streams st"
    "\<forall>j. j \<notin> fst ` set reaped \<longrightarrow> lookup_rejected st' j = lookup_rejected st j"
    by auto
  have "active_inv st'"
    using active_inv_retain [OF act, of now a b c] t(3,4) kr
      active_inv_cong [of st' "st \<lparr> active_streams := kept \<rparr>"] by simp
  moreover have "i \<notin> fst ` set reaped" if "lookup_active st i = None" for i
    using retain_streams_lookup(4) [OF d, of ?chk] kr that by (auto simp: map_of_eq_None_iff)
  ultimately show ?thesis
    using t kr look by (auto simp: cleanup_stale_with_def state_inv_def)
qed

end
