(* ===== verification/Stream_Runs.thy ===== *)
theory Stream_Runs
  imports Stream_Assembly
begin

text \<open>
  Whole runs of the stream receiver of \<open>protocol.rs\<close>: sequences of stream frames, aborts and
  reaper passes on one connection, as \<open>apply_event\<close> executes them.  The theory holds the
  properties of the receiver: it never panics and keeps its budgets, a completed stream is the
  message that was sent, a stream whose chunks all arrive is completed in whatever order they
  arrive, and a stream refused for want of capacity is drained without ending the connection.
\<close>

section \<open>Runs of a connection\<close>

definition event_post :: "stream_event \<Rightarrow> StreamingState \<Rightarrow> CompletedV5Stream option result \<Rightarrow> StreamingState \<Rightarrow> bool" where
  "event_post e st res st' \<longleftrightarrow> state_inv st' \<and>
     (\<forall>m M j. 0 < m \<longrightarrow> m \<le> length M \<longrightarrow> carries m M j e \<longrightarrow> holds m M j st \<longrightarrow>
        holds m M j st' \<and>
        (\<forall>c. res = Inr (Some c) \<longrightarrow> event_stream e = Some j \<longrightarrow> cs_payload c = M))"

lemma finish_frame_post:
  assumes "state_inv st"
    and "case res of Inr (Some r) \<Rightarrow>
       r_stream_id r = i \<and> r_chunk_index r = k \<and> r_len r = length data \<and> res_ok r st
     | _ \<Rightarrow> True"
  shows "\<exists>res' st'. finish_frame now data (Some (res, st)) = Some (res', st') \<and> state_inv st' \<and>
    (\<forall>m M j. holds m M j st \<longrightarrow> (j = i \<longrightarrow> data = nth_chunk m M k) \<longrightarrow> holds m M j st') \<and>
    (\<forall>c m M. res' = Inr (Some c) \<longrightarrow> holds m M i st \<longrightarrow> data = nth_chunk m M k \<longrightarrow> cs_payload c = M)"
proof (cases "\<exists>r. res = Inr (Some r)")
  case False
  with assms(1) show ?thesis by (auto simp: finish_frame_def split: sum.splits option.splits)
next
  case True
  then obtain r where res: "res = Inr (Some r)" by blast
  with assms(2) have r: "r_stream_id r = i" "r_chunk_index r = k" "length data = r_len r" "res_ok r st"
    by simp_all
  from deliver_chunk_post [OF assms(1) r(4,3), of now, unfolded r(1,2)]
  obtain fin st' where d: "deliver_chunk now r data st = Some (Inr fin, st')" "state_inv st'"
    "\<forall>m M j. holds m M j st \<longrightarrow> (j = i \<longrightarrow> data = nth_chunk m M k) \<longrightarrow> holds m M j st'"
    "\<forall>c m M. fin = Some c \<longrightarrow> holds m M i st \<longrightarrow> data = nth_chunk m M k \<longrightarrow> cs_payload c = M"
    by blast
  have "finish_frame now data (Some (res, st)) = Some (Inr fin, st')"
    by (simp add: finish_frame_def res d(1))
  with d(2,3,4) show ?thesis by blast
qed

lemma start_event_post:
  assumes "state_inv st"
  shows "\<exists>res st'. apply_event (StreamStartFrame now h c resp data) st = Some (res, st') \<and>
    event_post (StreamStartFrame now h c resp data) st res st'"
proof -
  from begin_or_discard_post [OF assms, of now h c resp "length data"]
  obtain res st1 where b: "begin_v5_stream_or_discard now h c resp (length data) st = Some (res, st1)"
    and inv: "state_inv st1"
    and h: "\<forall>m M j. holds m M j st \<longrightarrow>
       (j = sh_stream_id h \<longrightarrow> unat (sh_total_size h) = length M \<and> length data = m) \<longrightarrow> holds m M j st1"
    and r: "case res of Inr (Some r) \<Rightarrow>
       r_stream_id r = sh_stream_id h \<and> r_chunk_index r = 0 \<and> r_len r = length data \<and> res_ok r st1
     | _ \<Rightarrow> True"
    by blast
  have h1: "holds m M j st1"
    if "m \<le> length M" "carries m M j (StreamStartFrame now h c resp data)" "holds m M j st" for m M j
    using that h by (auto simp: length_nth_chunk chunk_span_def)
  from finish_frame_post [OF inv r, of now] obtain res' st' where
    f: "finish_frame now data (Some (res, st1)) = Some (res', st')" "state_inv st'"
    "\<forall>m M j. holds m M j st1 \<longrightarrow> (j = sh_stream_id h \<longrightarrow> data = nth_chunk m M 0) \<longrightarrow> holds m M j st'"
    "\<forall>c m M. res' = Inr (Some c) \<longrightarrow> holds m M (sh_stream_id h) st1 \<longrightarrow> data = nth_chunk m M 0 \<longrightarrow>
       cs_payload c = M"
    by blast
  have "event_post (StreamStartFrame now h c resp data) st res' st'"
    unfolding event_post_def
    using f(2,3,4) h1 by (metis carries.simps(1) event_stream.simps(1) option.inject)
  with f(1) b show ?thesis by simp
qed

lemma data_event_post:
  assumes "state_inv st"
  shows "\<exists>res st'. apply_event (StreamDataFrame now i k data) st = Some (res, st') \<and>
    event_post (StreamDataFrame now i k data) st res st'"
proof -
  from reserve_or_discard_post [OF assms, of i k "length data"]
  obtain res st1 where b: "reserve_v5_chunk_or_discard i k (length data) st = Some (res, st1)"
    and inv: "state_inv st1" and h: "\<forall>m M j. holds m M j st \<longrightarrow> holds m M j st1"
    and r: "case res of Inr (Some r) \<Rightarrow>
       r_stream_id r = i \<and> r_chunk_index r = unat k \<and> r_len r = length data \<and> res_ok r st1
     | _ \<Rightarrow> True"
    by blast
  from finish_frame_post [OF inv r, of now] obtain res' st' where
    f: "finish_frame now data (Some (res, st1)) = Some (res', st')" "state_inv st'"
    "\<forall>m M j. holds m M j st1 \<longrightarrow> (j = i \<longrightarrow> data = nth_chunk m M (unat k)) \<longrightarrow> holds m M j st'"
    "\<forall>c m M. res' = Inr (Some c) \<longrightarrow> holds m M i st1 \<longrightarrow> data = nth_chunk m M (unat k) \<longrightarrow>
       cs_payload c = M"
    by blast
  have "event_post (StreamDataFrame now i k data) st res' st'"
    unfolding event_post_def
    using f(2,3,4) h by (metis carries.simps(2) event_stream.simps(2) option.inject)
  with f(1) b show ?thesis by simp
qed

lemma apply_event_post:
  assumes "state_inv st"
  shows "\<exists>res st'. apply_event e st = Some (res, st') \<and> event_post e st res st'"
proof (cases e)
  case (StreamAbortFrame i)
  with assms active_inv_delete [of st i] show ?thesis
    by (auto simp: abort_stream_def event_post_def state_inv_def holds_def)
next
  case (ReaperRun now)
  from cleanup_stale_with_inv [OF assms] obtain ok st' where
    c: "cleanup_stale now st = Some (ok, st')" "state_inv st'"
    "\<forall>i. lookup_active st' i = Option.bind (lookup_active st i)
      (reap_check now STREAM_IDLE_TIMEOUT MIN_SUSTAINED_RATE_WINDOW MIN_SUSTAINED_BYTES_PER_WINDOW)"
    unfolding cleanup_stale_def by blast
  have wf: "stream_wf s" if "lookup_active st i = Some s" for i s
    using assms that active_inv_wf by (auto simp: state_inv_def)
  have "holds m M j st'" if "holds m M j st" for m M j
    using that c(3) by (auto simp: holds_def bind_eq_Some_conv dest: reap_check_same wf)
  with c ReaperRun show ?thesis by (auto simp: event_post_def)
qed (use start_event_post data_event_post assms in auto)

lemma run_events_post:
  assumes "state_inv st"
  shows "\<exists>cs st'. run_events es st = Some (cs, st') \<and> state_inv st' \<and>
    (\<forall>m M j. 0 < m \<longrightarrow> m \<le> length M \<longrightarrow> (\<forall>e \<in> set es. carries m M j e) \<longrightarrow> holds m M j st \<longrightarrow>
       (\<forall>c. (Some j, c) \<in> set cs \<longrightarrow> cs_payload c = M))"
  using assms
proof (induction es arbitrary: st)
  case (Cons e es)
  from apply_event_post [OF Cons.prems] obtain res st1 where
    e: "apply_event e st = Some (res, st1)" and p: "event_post e st res st1" by blast
  then have inv: "state_inv st1"
    and h: "\<And>m M j. \<lbrakk>0 < m; m \<le> length M; carries m M j e; holds m M j st\<rbrakk> \<Longrightarrow> holds m M j st1 \<and>
        (\<forall>c. res = Inr (Some c) \<longrightarrow> event_stream e = Some j \<longrightarrow> cs_payload c = M)"
    by (simp_all add: event_post_def)
  from Cons.IH [OF inv] obtain cs st' where r: "run_events es st1 = Some (cs, st')" "state_inv st'"
    and c: "\<And>m M j c. \<lbrakk>0 < m; m \<le> length M; \<forall>e \<in> set es. carries m M j e; holds m M j st1;
       (Some j, c) \<in> set cs\<rbrakk> \<Longrightarrow> cs_payload c = M"
    by blast
  show ?case
  proof (cases res)
    case (Inl err)
    with e inv show ?thesis by simp
  next
    case (Inr d)
    show ?thesis
    proof (cases d)
      case None
      with e r c h Inr show ?thesis by auto
    next
      case (Some x)
      with e r c h Inr show ?thesis by auto
    qed
  qed
qed simp
section \<open>A stream whose chunks all arrive is completed, in whatever order they arrive\<close>

lemma update_same: "map_of al i = Some x \<Longrightarrow> AList.update i x al = al"
  by (induction al) auto

lemma delete_update [simp]: "AList.delete i (AList.update i x al) = AList.delete i al"
  by (induction al) auto

definition completed_of :: "InProgressStream \<Rightarrow> byte list \<Rightarrow> CompletedV5Stream" where
  "completed_of s M =
     \<lparr> cs_actor_id = s_actor_id s, cs_type_hash = s_type_hash s, cs_correlation_id = s_correlation_id s,
       cs_is_response = s_is_response s, cs_payload = M \<rparr>"

definition chunk_reservation :: "u64 \<Rightarrow> usize \<Rightarrow> byte list \<Rightarrow> usize \<Rightarrow> StreamChunkReservation" where
  "chunk_reservation j m M k =
     \<lparr> r_stream_id = j, r_chunk_index = k, r_offset = k * m, r_len = chunk_span (length M) m k \<rparr>"

lemma deliver_expected_chunk:
  assumes "lookup_active st j = Some s" "stream_wf s" "s_chunk_stride s = Some m" "agrees M s"
    "k < div_ceil (length M) m" "k \<notin> bitmap_indices (s_received_chunks s)"
  obtains s' where
    "stream_wf s'" "s_chunk_stride s' = Some m" "agrees M s'" "completed_of s' = completed_of s"
    "bitmap_indices (s_received_chunks s') = insert k (bitmap_indices (s_received_chunks s))"
    "deliver_chunk now (chunk_reservation j m M k) (nth_chunk m M k) st = Some (
       if bitmap_indices (s_received_chunks s') = {..< div_ceil (length M) m}
       then (Inr (Some (completed_of s M)), st \<lparr> active_streams := AList.delete j (active_streams st) \<rparr>)
       else (Inr None, update_active j s' st))"
proof -
  let ?r = "chunk_reservation j m M k" and ?d = "nth_chunk m M k"
  let ?s = "committed now ?r ?d s"
  have len: "unat (s_total_size s) = length M" using assms(4) by (simp add: agrees_def)
  have fits: "reservation_fits ?r s" using assms(3,5) len by (simp add: reservation_fits_def chunk_reservation_def)
  have ld: "length ?d = r_len ?r" by (simp add: length_nth_chunk chunk_reservation_def)
  have new: "r_chunk_index ?r \<notin> bitmap_indices (s_received_chunks s)"
    using assms(6) by (simp add: chunk_reservation_def)
  have look: "lookup_active st (r_stream_id ?r) = Some s" using assms(1) by (simp add: chunk_reservation_def)
  have wf': "stream_wf ?s" by (rule committed_wf [OF assms(2) fits ld new])
  have agr: "agrees M ?s"
    by (rule committed_agrees [OF assms(2) fits assms(4) ld new])
      (simp add: nth_chunk_span chunk_of_def chunk_reservation_def)
  have st: "s_chunk_stride ?s = Some m" "s_total_size ?s = s_total_size s" "completed_of ?s = completed_of s"
    using assms(3) by (simp_all add: committed_def completed_of_def fun_eq_iff)
  have idx: "bitmap_indices (s_received_chunks ?s) = insert k (bitmap_indices (s_received_chunks s))"
    using fits_range(5) [OF assms(2) fits] by (simp add: committed_def chunk_reservation_def)
  have all: "all_chunks_received ?s =
      Some (bitmap_indices (s_received_chunks ?s) = {..< div_ceil (length M) m})"
    using all_chunks_received_iff [OF wf'] st len by simp
  have "s_buffer ?s = M" if "bitmap_indices (s_received_chunks ?s) = {..< div_ceil (length M) m}"
    using complete_agrees [OF wf' agr] all that by simp
  then show ?thesis
    using deliver_chunk_eq [OF look assms(2) fits ld new, of now] all
    by (intro that [OF wf' st(1) agr st(3) idx])
      (simp add: completed_of_def chunk_reservation_def)
qed

lemma reserve_expected_chunk:
  assumes "lookup_active st j = Some s" "stream_wf s" "s_chunk_stride s = Some m" "agrees M s"
    "unat i < div_ceil (length M) m" "unat i \<notin> bitmap_indices (s_received_chunks s)"
  shows "reserve_v5_chunk j i (length (nth_chunk m M (unat i))) st =
    Some (Inr (chunk_reservation j m M (unat i)), st)"
proof -
  have len: "unat (s_total_size s) = length M" using assms(4) by (simp add: agrees_def)
  note w = stream_wf_stride [OF assms(2,3)]
  have pos: "0 < chunk_span (length M) m (unat i)" using chunk_in_range [OF w(1) assms(5)] by simp
  have "with_stride n s = s" for n using assms(3) by (simp add: with_stride_def)
  then show ?thesis
    using stream_reserve_eq [OF assms(2) pos, of j "unat i"] assms len update_same [OF assms(1)]
    by (simp add: reserve_v5_chunk_def length_nth_chunk chunk_reservation_def)
qed

abbreviation data_frames :: "nat \<Rightarrow> u64 \<Rightarrow> usize \<Rightarrow> byte list \<Rightarrow> u32 list \<Rightarrow> stream_event list" where
  "data_frames now j m M ks \<equiv> map (\<lambda>k. StreamDataFrame now j k (nth_chunk m M (unat k))) ks"

lemma data_frames_complete:
  assumes "lookup_rejected st j = None" "lookup_active st j = Some s" "stream_wf s"
    "s_chunk_stride s = Some m" "agrees M s" "ks \<noteq> []" "distinct ks"
    "unat ` set ks = {..< div_ceil (length M) m} - bitmap_indices (s_received_chunks s)"
  shows "run_events (data_frames now j m M ks) st =
    Some ([(Some j, completed_of s M)], st \<lparr> active_streams := AList.delete j (active_streams st) \<rparr>)"
  using assms
proof (induction ks arbitrary: st s)
  case (Cons k ks)
  let ?I = "bitmap_indices (s_received_chunks s)" and ?n = "div_ceil (length M) m"
  have k: "unat k < ?n" "unat k \<notin> ?I" using Cons.prems(8) by auto
  have I: "?I \<subseteq> {..< ?n}"
    using stream_wf_stride(4) [OF Cons.prems(3,4)] Cons.prems(5) by (simp add: agrees_def)
  obtain s' where s': "stream_wf s'" "s_chunk_stride s' = Some m" "agrees M s'"
    "completed_of s' = completed_of s" "bitmap_indices (s_received_chunks s') = insert (unat k) ?I"
    "deliver_chunk now (chunk_reservation j m M (unat k)) (nth_chunk m M (unat k)) st = Some (
       if bitmap_indices (s_received_chunks s') = {..< ?n}
       then (Inr (Some (completed_of s M)), st \<lparr> active_streams := AList.delete j (active_streams st) \<rparr>)
       else (Inr None, update_active j s' st))"
    by (rule deliver_expected_chunk [OF Cons.prems(2-5) k, of now])
  have step: "apply_event (StreamDataFrame now j k (nth_chunk m M (unat k))) st =
      deliver_chunk now (chunk_reservation j m M (unat k)) (nth_chunk m M (unat k)) st"
    using Cons.prems(1) reserve_expected_chunk [OF Cons.prems(2-5) k]
    by (simp add: reserve_v5_chunk_or_discard_def finish_frame_def)
  have "unat k \<notin> unat ` set ks" using Cons.prems(7) by (auto dest: word_unat_eq_iff [THEN iffD2])
  moreover have "insert (unat k) (unat ` set ks) = {..< ?n} - ?I" using Cons.prems(8) by simp
  ultimately have ks: "unat ` set ks = {..< ?n} - bitmap_indices (s_received_chunks s')"
    unfolding s'(5) by blast
  have full: "bitmap_indices (s_received_chunks s') = {..< ?n} \<longleftrightarrow> ks = []"
    using ks I k(1) unfolding s'(5) by (cases ks) auto
  show ?case
  proof (cases "ks = []")
    case True
    with step s'(6) full show ?thesis by simp
  next
    case False
    have "run_events (data_frames now j m M ks) (update_active j s' st) =
        Some ([(Some j, completed_of s' M)],
          update_active j s' st \<lparr> active_streams := AList.delete j (active_streams (update_active j s' st)) \<rparr>)"
      using Cons.prems(1,7) False by (intro Cons.IH s'(1-3) ks) simp_all
    with step s'(4,6) full False show ?thesis by simp
  qed
qed simp

section \<open>A refused stream is drained\<close>

lemma tombstone_frames_drain:
  assumes "state_inv st" "lookup_rejected st j = Some t" "ks \<noteq> []" "distinct ks"
    "unat ` set ks = {..< the (t_expected_chunks t)} - bitmap_indices (t_received_chunks t)"
  shows "\<exists>st'. run_events (data_frames now j m M ks) st = Some ([], st') \<and> state_inv st' \<and>
    active_streams st' = active_streams st \<and>
    (\<forall>i. lookup_rejected st' i = (if i = j then None else lookup_rejected st i))"
  using assms
proof (induction ks arbitrary: st t)
  case (Cons k ks)
  let ?t = "tombstone_mark_chunk_received (unat k) t" and ?n = "the (t_expected_chunks t)"
  let ?I = "bitmap_indices (t_received_chunks t)"
  have wf: "tombstone_wf t" using Cons.prems(1,2) by (simp add: state_inv_def rejected_inv_def)
  have k: "unat k < ?n" "unat k \<notin> ?I" using Cons.prems(5) by auto
  have "unat k < 64 * length (t_received_chunks t)"
    using wf k(1) by (intro bitmap_words_cover [where e = ?n]) (auto simp: tombstone_wf_def)
  then have t: "bitmap_indices (t_received_chunks ?t) = insert (unat k) ?I" "t_expected_chunks ?t = t_expected_chunks t"
    by (simp_all add: tombstone_mark_chunk_received_def bitmap_indices_set index_word_less)
  have "unat k \<notin> unat ` set ks" using Cons.prems(4) by (auto dest: word_unat_eq_iff [THEN iffD2])
  moreover have "insert (unat k) (unat ` set ks) = {..< ?n} - ?I" using Cons.prems(5) by simp
  ultimately have ks: "unat ` set ks = {..< the (t_expected_chunks ?t)} - bitmap_indices (t_received_chunks ?t)"
    unfolding t by blast
  then have full: "(\<forall>i < ?n. i \<in> bitmap_indices (t_received_chunks ?t)) \<longleftrightarrow> ks = []"
    unfolding t(2) by (cases ks) auto
  from tombstone_chunk_inv [OF Cons.prems(1,2), of "unat k", unfolded Let_def full]
  obtain st1 where st1: "tombstone_chunk j (unat k) t st = Some st1" "state_inv st1"
    "active_streams st1 = active_streams st"
    and look: "lookup_rejected st1 = (lookup_rejected st)(j := if ks = [] then None else Some ?t)"
    by blast
  have look: "lookup_rejected st1 i =
      (if i = j then (if ks = [] then None else Some ?t) else lookup_rejected st i)" for i
    by (simp add: look)
  have step: "apply_event (StreamDataFrame now j k (nth_chunk m M (unat k))) st = Some (Inr None, st1)"
    using Cons.prems(2) st1(1) by (simp add: reserve_v5_chunk_or_discard_def finish_frame_def)
  show ?case
  proof (cases "ks = []")
    case True
    with step st1 look show ?thesis by simp
  next
    case False
    then have "lookup_rejected st1 j = Some ?t" by (simp add: look)
    from Cons.IH [OF st1(2) this False _ ks] Cons.prems(4) st1(3) step show ?thesis
      by (auto simp: look)
  qed
qed simp
section \<open>Admission\<close>

text \<open>A connection has room for a message: a free slot and enough of the byte budget.\<close>

definition has_room :: "usize \<Rightarrow> StreamingState \<Rightarrow> bool" where
  "has_room n st \<longleftrightarrow>
     active_stream_count st < max_concurrent_streams st \<and> inflight_bytes st + n \<le> MAX_INFLIGHT_STREAM_BYTES"

lemma MAX_INFLIGHT_le: "MAX_INFLIGHT_STREAM_BYTES \<le> USIZE_MAX"
  by (simp add: MAX_INFLIGHT_STREAM_BYTES_def MAX_STREAM_SIZE_def USIZE_MAX_def)

lemma MAX_INFLIGHT_less: "MAX_INFLIGHT_STREAM_BYTES < USIZE_MAX"
  by (simp add: MAX_INFLIGHT_STREAM_BYTES_def MAX_STREAM_SIZE_def USIZE_MAX_def)

lemma remove_tombstone_inflight [simp]: "inflight_bytes (remove_tombstone j st) = inflight_bytes st"
  by (simp add: inflight_bytes_def)

lemma start_frame_fresh:
  assumes "lookup_active st (sh_stream_id h) = None" "has_room (length M) st"
    "length M \<le> MAX_STREAM_SIZE" "unat (sh_total_size h) = length M" "0 < m" "m \<le> length M"
  obtains s where "stream_wf s" "s_chunk_stride s = Some m" "agrees M s" "s_received_chunks s = bitmap_new (div_ceil (length M) m)"
    "completed_of s = completed_of (new_stream now h c None resp (length M))"
    "apply_event (StreamStartFrame now h c resp (nth_chunk m M 0)) st =
       deliver_chunk now (chunk_reservation (sh_stream_id h) m M 0) (nth_chunk m M 0)
         (update_active (sh_stream_id h) s (remove_tombstone (sh_stream_id h) st))"
proof -
  let ?j = "sh_stream_id h" and ?st = "remove_tombstone (sh_stream_id h) st"
  let ?n = "new_stream now h c None resp (length M)"
  have len: "length (nth_chunk m M 0) = m" using assms(6) by (simp add: length_nth_chunk chunk_span_def)
  have wf: "stream_wf ?n" using stream_wf_new [of h now c None resp] assms(3,4) by simp
  have none: "s_chunk_stride ?n = None" by (simp add: new_stream_def)
  let ?s = "set_stride m ?n"
  have wf': "stream_wf ?s" by (rule stream_wf_set_stride [OF wf none assms(5)])
  have agr: "agrees M ?s" using assms(4) by (simp add: agrees_def set_stride_def new_stream_def Let_def)
  have start: "start_stream_with_correlation_and_kind now h c None resp ?st = (Inr (), update_active ?j ?n ?st)"
    using assms(1-4) MAX_INFLIGHT_le
    by (simp add: start_stream_with_correlation_and_kind_def has_room_def saturating_add_def
        active_stream_count_def)
  have sz: "unat (s_total_size ?n) = length M" using assms(4) by (simp add: new_stream_def)
  have dc: "0 < div_ceil (length M) m" using assms(5,6) div_ceil_le_iff [of m "length M" 0] by (cases "length M") auto
  have "stream_reserve ?j 0 m ?n = Some (Inr (chunk_reservation ?j m M 0), ?s)"
    using stream_reserve_eq [OF wf assms(5), of ?j 0] none dc assms(6) sz
    by (simp add: with_stride_def chunk_span_def chunk_reservation_def new_stream_def)
  then have "begin_v5_stream now h c resp m ?st =
      Some (Inr (chunk_reservation ?j m M 0), update_active ?j ?s ?st)"
    using assms(4-6) start by (simp add: begin_v5_stream_def reserve_v5_chunk_def)
  then have "begin_v5_stream_or_discard now h c resp m st =
      Some (Inr (Some (chunk_reservation ?j m M 0)), update_active ?j ?s ?st)"
    by (simp add: begin_v5_stream_or_discard_def)
  then show ?thesis
    using len by (intro that [OF wf' _ agr]) (simp_all add: finish_frame_def completed_of_def set_stride_def
        new_stream_def Let_def fun_eq_iff bitmap_new_def bitmap_words_for_def sz assms(4))
qed

lemma start_frame_busy:
  assumes "state_inv st" "lookup_active st (sh_stream_id h) = None" "\<not> has_room (length M) st"
    "length M \<le> MAX_STREAM_SIZE" "unat (sh_total_size h) = length M" "0 < m" "m \<le> length M"
  shows "apply_event (StreamStartFrame now h c resp (nth_chunk m M 0)) st =
    map_option (\<lambda>(ok, st). (if ok then Inr None else Inl (Network QuotaExceeded), st))
      (reject_stream (sh_stream_id h) (sh_total_size h) m (remove_tombstone (sh_stream_id h) st))"
proof -
  let ?st = "remove_tombstone (sh_stream_id h) st"
  have len: "length (nth_chunk m M 0) = m" using assms(7) by (simp add: length_nth_chunk chunk_span_def)
  have "start_stream_with_correlation_and_kind now h c None resp ?st = (Inl (Network ResourceBusy), ?st)"
    using assms(2-5) MAX_INFLIGHT_less
    by (auto simp: start_stream_with_correlation_and_kind_def has_room_def saturating_add_def
        active_stream_count_def Let_def)
  then have "begin_v5_stream now h c resp m ?st = Some (Inl (Network ResourceBusy), ?st)"
    using assms(5-7) by (simp add: begin_v5_stream_def)
  then show ?thesis
    using len by (auto simp: begin_v5_stream_or_discard_def is_resource_busy_def finish_frame_def
        split: option.splits bool.splits)
qed
lemma reject_stream_eq:
  assumes "rejected_inv st" "lookup_rejected st j = None" "0 < m"
    "length (rejected_streams st) < REJECTED_STREAMS_ENTRY_BUDGET"
    "tombstone_words st + bitmap_words_for (div_ceil (unat sz) m) \<le> REJECTED_STREAMS_BITMAP_WORD_BUDGET"
  shows "\<exists>st'. reject_stream j sz m st = Some (True, st') \<and>
    lookup_rejected st' j = (if div_ceil (unat sz) m \<le> 1 then None else Some (tombstone_rejected sz m))"
proof -
  have len: "length (t_received_chunks (tombstone_rejected sz m)) = bitmap_words_for (div_ceil (unat sz) m)"
    using assms(3)
    by (simp add: tombstone_rejected_def tombstone_mark_chunk_received_def establish_stride_def
        expected_chunk_count_def Let_def)
  have "projected_bitmap_words j (bitmap_words_for (div_ceil (unat sz) m)) st \<noteq> None"
    using assms by (auto simp: projected_bitmap_words_def rejected_inv_def Let_def saturating_add_def)
  with assms(2,3) len show ?thesis
    by (auto simp: reject_stream_def expected_chunk_count_def Let_def remove_tombstone_def
        try_insert_tombstone_def)
qed

lemma tombstone_rejected_indices:
  assumes "0 < m" "0 < unat sz"
  shows "t_expected_chunks (tombstone_rejected sz m) = Some (div_ceil (unat sz) m)"
    "bitmap_indices (t_received_chunks (tombstone_rejected sz m)) = {0}"
proof -
  have "0 < div_ceil (unat sz) m" using assms by (simp add: less_div_ceil_iff)
  then have "0 < bitmap_words_for (div_ceil (unat sz) m)"
    by (simp add: bitmap_words_for_def less_div_ceil_iff)
  then show "t_expected_chunks (tombstone_rejected sz m) = Some (div_ceil (unat sz) m)"
    "bitmap_indices (t_received_chunks (tombstone_rejected sz m)) = {0}"
    using assms
    by (simp_all add: tombstone_rejected_def tombstone_mark_chunk_received_def establish_stride_def
        expected_chunk_count_def Let_def bitmap_indices_set)
qed

lemma remove_tombstone_le:
  "length (rejected_streams (remove_tombstone j st)) \<le> length (rejected_streams st)"
  "rejected_inv st \<Longrightarrow> tombstone_words (remove_tombstone j st) \<le> tombstone_words st"
proof -
  show "length (rejected_streams (remove_tombstone j st)) \<le> length (rejected_streams st)"
    by (simp add: remove_tombstone_def length_delete_le split: option.split)
  assume "rejected_inv st"
  then show "tombstone_words (remove_tombstone j st) \<le> tombstone_words st"
    using rejected_inv_remove [of st j]
    by (auto simp: remove_tombstone_def rejected_inv_def split: option.splits)
qed

lemma only_first_chunk:
  assumes "unat ` set ks = {1 ..< n}" "0 < n"
  shows "{0} = {..< n} \<longleftrightarrow> ks = []"
proof
  assume "{0} = {..< n}"
  then have "card {0 :: nat} = card {..< n}" by (rule arg_cong)
  then show "ks = []" using assms(1) by simp
next
  assume "ks = []"
  then have "n = 1" using assms by simp
  then show "{0} = {..< n}" by auto
qed

lemma full_run:
  assumes "lookup_active st (sh_stream_id h) = None" "has_room (length M) st"
    "length M \<le> MAX_STREAM_SIZE" "unat (sh_total_size h) = length M" "0 < m" "m \<le> length M"
    and "distinct ks" "unat ` set ks = {1 ..< div_ceil (length M) m}"
  shows "run_events (StreamStartFrame now h c resp (nth_chunk m M 0) #
      data_frames later (sh_stream_id h) m M ks) st =
    Some ([(Some (sh_stream_id h),
            \<lparr> cs_actor_id = sh_actor_id h, cs_type_hash = sh_type_hash h, cs_correlation_id = c,
              cs_is_response = resp, cs_payload = M \<rparr>)],
          remove_tombstone (sh_stream_id h) st)"
proof -
  let ?j = "sh_stream_id h" and ?n = "div_ceil (length M) m"
  let ?st = "remove_tombstone ?j st"
  obtain s where s: "stream_wf s" "s_chunk_stride s = Some m" "agrees M s"
    "s_received_chunks s = bitmap_new ?n"
    "completed_of s = completed_of (new_stream now h c None resp (length M))"
    "apply_event (StreamStartFrame now h c resp (nth_chunk m M 0)) st =
       deliver_chunk now (chunk_reservation ?j m M 0) (nth_chunk m M 0) (update_active ?j s ?st)"
    by (rule start_frame_fresh [OF assms(1-6), where now = now and c = c and resp = resp])
  have n: "0 < ?n" using assms(5,6) by (cases M) (auto simp: less_div_ceil_iff)
  have look: "lookup_active (update_active ?j s ?st) ?j = Some s" by simp
  have empty: "bitmap_indices (s_received_chunks s) = {}" by (simp add: s(4) bitmap_indices_new)
  then have fresh: "0 \<notin> bitmap_indices (s_received_chunks s)" by simp
  obtain s' where s': "stream_wf s'" "s_chunk_stride s' = Some m" "agrees M s'"
    "completed_of s' = completed_of s" "bitmap_indices (s_received_chunks s') = {0}"
    "deliver_chunk now (chunk_reservation ?j m M 0) (nth_chunk m M 0) (update_active ?j s ?st) = Some (
       if bitmap_indices (s_received_chunks s') = {..< ?n}
       then (Inr (Some (completed_of s M)), update_active ?j s ?st \<lparr> active_streams :=
         AList.delete ?j (active_streams (update_active ?j s ?st)) \<rparr>)
       else (Inr None, update_active ?j s' (update_active ?j s ?st)))"
    by (rule deliver_expected_chunk [OF look s(1-3) n fresh, of now, unfolded empty])
  have gone: "?st \<lparr> active_streams := AList.delete ?j (active_streams st) \<rparr> = ?st"
    using delete_fresh [OF assms(1)] by (simp add: remove_tombstone_def split: option.split)
  have res: "completed_of s M = \<lparr> cs_actor_id = sh_actor_id h, cs_type_hash = sh_type_hash h,
      cs_correlation_id = c, cs_is_response = resp, cs_payload = M \<rparr>"
    unfolding s(5) by (simp add: completed_of_def new_stream_def)
  have one: "bitmap_indices (s_received_chunks s') = {..< ?n} \<longleftrightarrow> ks = []"
    unfolding s'(5) by (rule only_first_chunk [OF assms(8) n])
  show ?thesis
  proof (cases "ks = []")
    case True
    with s(6) s'(6) one gone res show ?thesis by (simp del: apply_event.simps)
  next
    case False
    let ?st' = "update_active ?j s' (update_active ?j s ?st)"
    have "{1 ..< ?n} = {..< ?n} - {0}" by auto
    then have "run_events (data_frames later ?j m M ks) ?st' =
        Some ([(Some ?j, completed_of s' M)],
          ?st' \<lparr> active_streams := AList.delete ?j (active_streams ?st') \<rparr>)"
      using assms(7,8) s'(5) False
      by (intro data_frames_complete [OF _ _ s'(1-3)]) (simp_all add: lookup_remove_tombstone)
    with s(6) s'(4,6) one gone res False show ?thesis by (simp del: apply_event.simps)
  qed
qed

section \<open>Properties of the stream receiver\<close>

text \<open>Concrete inputs for the witnesses: a message of three bytes in chunks of two, and a receiver
  that is assembling its sixteen streams.\<close>

definition small_header :: StreamHeader where
  "small_header = \<lparr> sh_stream_id = 77, sh_total_size = 3, sh_chunk_size = 2, sh_chunk_index = 0,
     sh_type_hash = 5, sh_actor_id = 9 \<rparr>"

definition full_state :: StreamingState where
  "full_state = streaming_state_new \<lparr> active_streams :=
     map (\<lambda>i. (i, new_stream 0 (small_header \<lparr> sh_stream_id := i \<rparr>) 0 None False 3))
       [0, 1, 2, 3, 4, 5, 6, 7, 8, 9, 10, 11, 12, 13, 14, 15] \<rparr>"

abbreviation small_message :: "byte list" where "small_message \<equiv> [10, 20, 30]"

lemma small_message_props:
  "length small_message \<le> MAX_STREAM_SIZE" "unat (sh_total_size small_header) = length small_message"
  "0 < (2 :: nat)" "2 \<le> length small_message" "distinct [1 :: u32]"
  "unat ` set [1 :: u32] = {1 ..< div_ceil (length small_message) 2}"
proof -
  show "unat ` set [1 :: u32] = {1 ..< div_ceil (length small_message) 2}"
    by (auto simp: div_ceil_def)
qed (simp_all add: MAX_STREAM_SIZE_def small_header_def)

lemma new_has_room:
  "lookup_active streaming_state_new (sh_stream_id small_header) = None"
  "has_room (length small_message) streaming_state_new"
  by (simp_all add: has_room_def streaming_state_new_def active_stream_count_def inflight_bytes_def
      MAX_INFLIGHT_STREAM_BYTES_def MAX_STREAM_SIZE_def)

lemma full_state_inv: "state_inv full_state"
proof -
  have wf: "stream_wf (new_stream 0 (small_header \<lparr> sh_stream_id := i \<rparr>) 0 None False 3)" for i
    by (simp add: stream_wf_def new_stream_def small_header_def MAX_STREAM_SIZE_def)
  have "stream_wf s" if "lookup_active full_state i = Some s" for i s
    using map_of_SomeD [OF that] wf by (auto simp: full_state_def)
  then show ?thesis
    by (simp add: state_inv_def active_inv_def rejected_inv_def tombstone_words_def full_state_def
        streaming_state_new_def active_stream_count_def inflight_bytes_def
        new_stream_def small_header_def MAX_INFLIGHT_STREAM_BYTES_def MAX_STREAM_SIZE_def)
qed

lemma full_state_refuses:
  "lookup_active full_state (sh_stream_id small_header) = None"
  "\<not> has_room (length small_message) full_state"
  "length (rejected_streams full_state) < REJECTED_STREAMS_ENTRY_BUDGET"
  "tombstone_words full_state + bitmap_words_for (div_ceil (length small_message) 2)
     \<le> REJECTED_STREAMS_BITMAP_WORD_BUDGET"
  by (simp_all add: has_room_def full_state_def streaming_state_new_def active_stream_count_def
      tombstone_words_def bitmap_words_for_def div_ceil_def small_header_def
      REJECTED_STREAMS_ENTRY_BUDGET_def REJECTED_STREAMS_BITMAP_WORD_BUDGET_def)

text \<open>C9. Whatever frames, aborts and reaper passes a connection processes, the receiver never
  panics, and it stays within its budgets: at most \<open>max_concurrent_streams\<close> streams assembling at
  most \<open>MAX_INFLIGHT_STREAM_BYTES\<close>, at most \<open>REJECTED_STREAMS_ENTRY_BUDGET\<close> tombstones, whose
  bitmap words are counted exactly and stay within their budget.\<close>

theorem receiver_stays_within_budgets:
  "\<exists>completed st. run_events es streaming_state_new = Some (completed, st) \<and>
     active_stream_count st \<le> max_concurrent_streams st \<and>
     inflight_bytes st \<le> MAX_INFLIGHT_STREAM_BYTES \<and>
     length (rejected_streams st) \<le> REJECTED_STREAMS_ENTRY_BUDGET \<and>
     rejected_streams_bitmap_words st = tombstone_words st \<and>
     tombstone_words st \<le> REJECTED_STREAMS_BITMAP_WORD_BUDGET"
  using run_events_post [OF state_inv_new, of es]
  by (auto simp: state_inv_def active_inv_def rejected_inv_def)

text \<open>C10. If every frame of stream \<open>j\<close> carries its part of message \<open>M\<close>, cut into chunks of \<open>m\<close>
  bytes, then every completion of stream \<open>j\<close> has exactly \<open>M\<close> as its payload, however the frames
  are ordered, repeated, dropped or interleaved with other streams, aborts and reaper passes.\<close>

theorem completed_stream_is_message:
  assumes "0 < m" "m \<le> length M" "\<forall>e \<in> set es. carries m M j e"
    and "run_events es streaming_state_new = Some (completed, st)" "(Some j, c) \<in> set completed"
  shows "cs_payload c = M"
proof -
  have "holds m M j streaming_state_new" by (simp add: holds_def streaming_state_new_def)
  with run_events_post [OF state_inv_new, of es] assms show ?thesis by auto
qed

theorem completed_stream_is_message_witness:
  "\<exists>st c. run_events (StreamStartFrame 0 small_header 8 False [10, 20] #
       data_frames 0 77 2 [10, 20, 30] [1]) streaming_state_new = Some ([(Some 77, c)], st) \<and>
     cs_payload c = [10, 20, 30]"
proof -
  note run = full_run [OF new_has_room small_message_props, of 0 8 False 0]
  have c: "cs_payload c = small_message" if "(Some 77, c) \<in> set [(Some (sh_stream_id small_header), d)]"
    "run_events (StreamStartFrame 0 small_header 8 False (nth_chunk 2 small_message 0) #
       data_frames 0 (sh_stream_id small_header) 2 small_message [1]) streaming_state_new =
     Some ([(Some (sh_stream_id small_header), d)], st)" for c d st
    by (rule completed_stream_is_message [OF _ _ _ that(2,1), where m = 2]) (simp_all add: small_header_def)
  show ?thesis
    using run c [OF _ run] by (simp add: small_header_def nth_chunk_def slice_def del: run_events.simps)
qed

text \<open>C11. A stream that is admitted and whose remaining chunks arrive once each, in any order, is
  completed by the last of them: the message comes out once, with the header's actor and type and
  the correlation id of the start frame, and the receiver is left as if the stream had never been,
  but for an old tombstone of its id.\<close>

theorem stream_completes_in_any_order:
  assumes "lookup_active st (sh_stream_id h) = None" "has_room (length M) st"
    "length M \<le> MAX_STREAM_SIZE" "unat (sh_total_size h) = length M" "0 < m" "m \<le> length M"
    and "distinct ks" "unat ` set ks = {1 ..< div_ceil (length M) m}"
  shows "run_events (StreamStartFrame now h c resp (nth_chunk m M 0) #
      data_frames later (sh_stream_id h) m M ks) st =
    Some ([(Some (sh_stream_id h),
            \<lparr> cs_actor_id = sh_actor_id h, cs_type_hash = sh_type_hash h, cs_correlation_id = c,
              cs_is_response = resp, cs_payload = M \<rparr>)],
          remove_tombstone (sh_stream_id h) st)"
  by (rule full_run [OF assms])

theorem stream_completes_in_any_order_witness:
  "run_events (StreamStartFrame 0 small_header 8 False (nth_chunk 2 [10, 20, 30] 0) #
      data_frames 5 (sh_stream_id small_header) 2 [10, 20, 30] [1]) streaming_state_new =
    Some ([(Some (sh_stream_id small_header),
            \<lparr> cs_actor_id = sh_actor_id small_header, cs_type_hash = sh_type_hash small_header,
              cs_correlation_id = 8, cs_is_response = False, cs_payload = [10, 20, 30] \<rparr>)],
          remove_tombstone (sh_stream_id small_header) streaming_state_new)"
  by (rule stream_completes_in_any_order [OF new_has_room small_message_props])

text \<open>C12. A stream that finds no room is refused without ending the connection: with tombstone
  budget left, its start frame and all its remaining chunks, in any order, are consumed without an
  error and without a completion, the streams being assembled are untouched, and after the last
  chunk no tombstone of it remains.\<close>

theorem refused_stream_drains:
  assumes "state_inv st" "lookup_active st (sh_stream_id h) = None" "\<not> has_room (length M) st"
    "length M \<le> MAX_STREAM_SIZE" "unat (sh_total_size h) = length M" "0 < m" "m \<le> length M"
    and "length (rejected_streams st) < REJECTED_STREAMS_ENTRY_BUDGET"
    and "tombstone_words st + bitmap_words_for (div_ceil (length M) m) \<le> REJECTED_STREAMS_BITMAP_WORD_BUDGET"
    and "distinct ks" "unat ` set ks = {1 ..< div_ceil (length M) m}"
  shows "\<exists>st'. run_events (StreamStartFrame now h c resp (nth_chunk m M 0) #
      data_frames later (sh_stream_id h) m M ks) st = Some ([], st') \<and>
    state_inv st' \<and> active_streams st' = active_streams st \<and>
    (\<forall>i. lookup_rejected st' i = (if i = sh_stream_id h then None else lookup_rejected st i))"
proof -
  let ?j = "sh_stream_id h" and ?n = "div_ceil (length M) m"
  let ?st = "remove_tombstone ?j st"
  have inv: "state_inv ?st" "rejected_inv ?st" "rejected_inv st"
    using assms(1) state_inv_remove_tombstone [of st ?j] by (simp_all add: state_inv_def)
  obtain st1 where r: "reject_stream ?j (sh_total_size h) m ?st = Some (True, st1)"
    "lookup_rejected st1 ?j = (if ?n \<le> 1 then None else Some (tombstone_rejected (sh_total_size h) m))"
    using reject_stream_eq [OF inv(2) _ assms(6), of ?j "sh_total_size h"] assms(5,8,9)
      remove_tombstone_le(1) [of ?j st] remove_tombstone_le(2) [OF inv(3), of ?j]
    by (auto simp: lookup_remove_tombstone)
  have st1: "state_inv st1" "active_streams st1 = active_streams st"
    "\<forall>i. i \<noteq> ?j \<longrightarrow> lookup_rejected st1 i = lookup_rejected st i"
    using reject_stream_inv [OF inv(1) assms(6), of ?j "sh_total_size h"] r(1)
    by (auto simp: lookup_remove_tombstone)
  have start: "apply_event (StreamStartFrame now h c resp (nth_chunk m M 0)) st = Some (Inr None, st1)"
    using start_frame_busy [OF assms(1-7)] r(1) by simp
  have sz: "0 < unat (sh_total_size h)" using assms(5-7) by linarith
  note t = tombstone_rejected_indices [OF assms(6) sz, unfolded assms(5)]
  show ?thesis
  proof (cases "ks = []")
    case True
    then have "?n \<le> 1" using assms(11) by (cases "?n \<le> 1") auto
    with True start st1 r(2) show ?thesis by auto
  next
    case False
    then have "\<not> ?n \<le> 1" using assms(11) by (cases ks) auto
    then have "lookup_rejected st1 ?j = Some (tombstone_rejected (sh_total_size h) m)" using r(2) by simp
    moreover have "{1 ..< ?n} = {..< ?n} - {0}" by auto
    ultimately obtain st' where
      "run_events (data_frames later ?j m M ks) st1 = Some ([], st')" "state_inv st'"
      "active_streams st' = active_streams st1"
      "\<forall>i. lookup_rejected st' i = (if i = ?j then None else lookup_rejected st1 i)"
      using tombstone_frames_drain [OF st1(1) _ False assms(10), of ?j _ later m M] t assms(11) by auto
    with st1(2,3) start show ?thesis by simp
  qed
qed

theorem refused_stream_drains_witness:
  "\<exists>st'. run_events (StreamStartFrame 0 small_header 8 False (nth_chunk 2 [10, 20, 30] 0) #
      data_frames 5 (sh_stream_id small_header) 2 [10, 20, 30] [1]) full_state = Some ([], st') \<and>
    state_inv st' \<and> active_streams st' = active_streams full_state \<and>
    (\<forall>i. lookup_rejected st' i = (if i = sh_stream_id small_header then None else lookup_rejected full_state i))"
  by (rule refused_stream_drains [OF full_state_inv full_state_refuses(1,2) small_message_props(1-4)
        full_state_refuses(3,4) small_message_props(5,6)])

text \<open>C13. The reaper removes exactly the streams that have stalled: one that has been idle for longer
  than the idle timeout, or whose rate window has elapsed with too few bytes.  Every other stream
  stays, with its contents untouched, and the receiver stays within its budgets.\<close>

theorem reaper_removes_exactly_stalled:
  assumes "state_inv st"
  shows "\<exists>ok st'. cleanup_stale now st = Some (ok, st') \<and> state_inv st' \<and>
    (\<forall>i. lookup_active st' i \<noteq> None \<longleftrightarrow>
       (\<exists>s. lookup_active st i = Some s \<and> now - s_last_activity s \<le> STREAM_IDLE_TIMEOUT \<and>
          (now - s_rate_window_started_at s < MIN_SUSTAINED_RATE_WINDOW \<or>
           MIN_SUSTAINED_BYTES_PER_WINDOW \<le> s_total_bytes_progressed s - s_progressed_bytes_at_window_start s))) \<and>
    (\<forall>i s s'. lookup_active st i = Some s \<longrightarrow> lookup_active st' i = Some s' \<longrightarrow>
       same_stream s s' \<and> s_buffer s' = s_buffer s \<and> s_received_chunks s' = s_received_chunks s)"
proof -
  let ?chk = "reap_check now STREAM_IDLE_TIMEOUT MIN_SUSTAINED_RATE_WINDOW MIN_SUSTAINED_BYTES_PER_WINDOW"
  from cleanup_stale_with_inv [OF assms] obtain ok st' where
    c: "cleanup_stale now st = Some (ok, st')" "state_inv st'"
    and look: "\<forall>i. lookup_active st' i = Option.bind (lookup_active st i) ?chk"
    unfolding cleanup_stale_def by blast
  have kept: "?chk s \<noteq> None \<longleftrightarrow> now - s_last_activity s \<le> STREAM_IDLE_TIMEOUT \<and>
      (now - s_rate_window_started_at s < MIN_SUSTAINED_RATE_WINDOW \<or>
       MIN_SUSTAINED_BYTES_PER_WINDOW \<le> s_total_bytes_progressed s - s_progressed_bytes_at_window_start s)"
    for s by (auto simp: reap_check_def Let_def)
  have same: "same_stream s s' \<and> s_buffer s' = s_buffer s \<and> s_received_chunks s' = s_received_chunks s"
    if "?chk s = Some s'" for s s'
    using that by (auto simp: reap_check_def Let_def same_stream_def split: if_splits)
  have "lookup_active st' i \<noteq> None \<longleftrightarrow> (\<exists>s. lookup_active st i = Some s \<and> ?chk s \<noteq> None)" for i
    using look by (cases "lookup_active st i") simp_all
  with c look same show ?thesis unfolding kept by auto
qed

theorem reaper_removes_exactly_stalled_witness:
  "\<exists>ok st'. cleanup_stale 0 full_state = Some (ok, st') \<and> lookup_active st' 3 \<noteq> None"
proof -
  have "lookup_active full_state 3 = Some (new_stream 0 (small_header \<lparr> sh_stream_id := 3 \<rparr>) 0 None False 3)"
    by (simp add: full_state_def)
  with reaper_removes_exactly_stalled [OF full_state_inv, of 0] show ?thesis
    by (auto simp: new_stream_def STREAM_IDLE_TIMEOUT_def MIN_SUSTAINED_RATE_WINDOW_def)
qed

text \<open>C14. A refused stream of several chunks whose sender gives up and sends the ordered abort keeps
  its tombstone: the abort only looks among the streams being assembled.  The tombstone goes only
  when all remaining chunks arrive or the id is started again, and neither follows an abort.\<close>

theorem aborted_refused_stream_keeps_tombstone:
  assumes "state_inv st" "lookup_active st (sh_stream_id h) = None" "\<not> has_room (length M) st"
    "length M \<le> MAX_STREAM_SIZE" "unat (sh_total_size h) = length M" "0 < m" "m < length M"
    and "length (rejected_streams st) < REJECTED_STREAMS_ENTRY_BUDGET"
    and "tombstone_words st + bitmap_words_for (div_ceil (length M) m) \<le> REJECTED_STREAMS_BITMAP_WORD_BUDGET"
  shows "\<exists>st'. run_events [StreamStartFrame now h c resp (nth_chunk m M 0), StreamAbortFrame (sh_stream_id h)] st
      = Some ([], st') \<and> lookup_rejected st' (sh_stream_id h) \<noteq> None"
proof -
  let ?j = "sh_stream_id h"
  let ?st = "remove_tombstone ?j st"
  have inv: "rejected_inv ?st" "rejected_inv st"
    using assms(1) state_inv_remove_tombstone [of st ?j] by (simp_all add: state_inv_def)
  have several: "\<not> div_ceil (length M) m \<le> 1"
    using assms(6,7) by (simp add: div_ceil_le_iff)
  obtain st1 where r: "reject_stream ?j (sh_total_size h) m ?st = Some (True, st1)"
    "lookup_rejected st1 ?j \<noteq> None"
    using reject_stream_eq [OF inv(1) _ assms(6), of ?j "sh_total_size h"] assms(5,8,9) several
      remove_tombstone_le(1) [of ?j st] remove_tombstone_le(2) [OF inv(2), of ?j]
    by (auto simp: lookup_remove_tombstone)
  then show ?thesis
    using start_frame_busy [OF assms(1-6), of now c resp] assms(7)
    by (simp add: abort_stream_def del: apply_event.simps(1))
qed

theorem aborted_refused_stream_keeps_tombstone_witness:
  "\<exists>st'. run_events [StreamStartFrame 0 small_header 8 False (nth_chunk 2 small_message 0),
      StreamAbortFrame (sh_stream_id small_header)] full_state = Some ([], st') \<and>
    lookup_rejected st' (sh_stream_id small_header) \<noteq> None"
  by (rule aborted_refused_stream_keeps_tombstone [OF full_state_inv _ _ small_message_props(1-3)])
    (use full_state_refuses in simp_all)

end
