(* ===== verification/Read_Pipeline.thy ===== *)
theory Read_Pipeline
  imports Frame_Parser Stream_Assembly
begin

text \<open>
  The incremental frame reader of \<open>connection_pool/read_pipeline.rs\<close>: the state machine
  \<open>ReadState\<close> that \<open>read_message_step_poll\<close> advances by at most one socket read per poll.  Stream
  chunks bypass the frame buffer and are read directly into the range reserved for them.

  The socket is a parameter: \<open>poll_read len s\<close> is the answer of \<open>AsyncRead::poll_read\<close> for a
  target of \<open>len\<close> bytes in socket state \<open>s\<close>.  The clock and the state of the shared buffer pool
  at the time of the poll are parameters too.  Payloads of messages are represented by the bytes
  they refer to.
\<close>

section \<open>The reader\<close>

datatype 'a poll = Pending | Ready 'a

type_synonym 's poll_read = "usize \<Rightarrow> 's \<Rightarrow> (IoErrorKind + byte list) poll \<times> 's"

datatype ReadState =
    ReadLen (rs_buf: "byte list") (rs_read: usize)
  | ReadBody (rs_msg_len: usize) (rs_buffer: AlignedBuffer) (rs_read: usize)
  | ReadStreamMeta (rs_kind: WireKind) (rs_body_len: usize) (rs_meta: "byte list") (rs_meta_len: usize)
      (rs_read: usize)
  | ReadStreamPayload (rs_reservation: StreamChunkReservation) (rs_read: usize)
  | DiscardStreamPayload (rs_remaining: usize) (rs_on_complete: "(u64 \<times> usize) option")

definition DISCARD_SCRATCH_LEN :: usize where "DISCARD_SCRATCH_LEN = 8192"

definition ReadState_new :: ReadState where
  "ReadState_new = ReadLen (replicate LENGTH_PREFIX_LEN 0) 0"

record 'm ReadPollResult =
  rp_result :: "('m, byte list) MessageReadResult option"
  rp_progressed :: bool

record Reader =
  rd_state :: ReadState
  rd_streams :: StreamingState
  rd_routes :: RouteTable

subsection \<open>Helpers\<close>

text \<open>Ids of streamed direct responses take the even half of the id space.\<close>

definition allocate_direct_response_stream_id :: "u32 \<Rightarrow> u32 \<times> u32" where
  "allocate_direct_response_stream_id counter =
     (counter, if counter \<ge> - 1 - 1 then 2 else counter + 2)"

fun stream_meta_len :: "WireKind \<Rightarrow> usize option" where
  "stream_meta_len WK_StreamStart = Some STREAM_REQUEST_START_HEADER_LEN"
| "stream_meta_len WK_StreamResponseStart = Some STREAM_RESPONSE_START_HEADER_LEN"
| "stream_meta_len WK_StreamData = Some STREAM_DATA_HEADER_LEN"
| "stream_meta_len WK_StreamResponseData = Some STREAM_DATA_HEADER_LEN"
| "stream_meta_len _ = None"

definition completed_v5_stream_result :: "CompletedV5Stream \<Rightarrow> ('m, byte list) MessageReadResult" where
  "completed_v5_stream_result completed =
     (if cs_is_response completed then MR_Response (cs_correlation_id completed) (cs_payload completed)
      else MR_Actor
             (if cs_correlation_id completed = 0 then message_type_byte MT_ActorTell
              else message_type_byte MT_ActorAsk)
             (cs_correlation_id completed) (cs_actor_id completed) (cs_type_hash completed)
             None None (cs_payload completed))"

definition reserve_v5_stream_payload ::
  "nat \<Rightarrow> WireKind \<Rightarrow> usize \<Rightarrow> byte list \<Rightarrow> StreamingState \<Rightarrow>
   (StreamChunkReservation option result \<times> StreamingState) option" where
  "reserve_v5_stream_payload now kind body_len meta st =
     (case stream_meta_len kind of
        None \<Rightarrow> None
      | Some meta_len \<Rightarrow>
          if body_len < meta_len then Some (Inl (Network InvalidData), st)
          else
            let payload_len = body_len - meta_len;
                stream_id = ucast (from_be_bytes (slice 0 4 meta) :: u32);
                word = (from_be_bytes (slice 4 8 meta) :: u32);
                total_size = ucast (from_be_bytes (slice 8 12 meta) :: u32);
                header = \<lparr> sh_stream_id = stream_id, sh_total_size = total_size,
                           sh_chunk_size = of_nat payload_len, sh_chunk_index = 0,
                           sh_type_hash = 0, sh_actor_id = 0 \<rparr>
            in case kind of
                 WK_StreamStart \<Rightarrow>
                   begin_v5_stream_or_discard now
                     (header \<lparr> sh_type_hash := from_be_bytes (slice 20 24 meta),
                               sh_actor_id := from_be_bytes (slice 12 20 meta) \<rparr>)
                     word False payload_len st
               | WK_StreamResponseStart \<Rightarrow>
                   begin_v5_stream_or_discard now header word True payload_len st
               | _ \<Rightarrow> reserve_v5_chunk_or_discard stream_id word payload_len st)"

definition stream_payload_state ::
  "StreamChunkReservation option \<Rightarrow> usize \<Rightarrow> usize \<Rightarrow> ReadState" where
  "stream_payload_state reservation body_len meta_len =
     (case reservation of
        Some r \<Rightarrow> if r_len r = 0 then ReadState_new else ReadStreamPayload r 0
      | None \<Rightarrow> DiscardStreamPayload (body_len - meta_len) None)"

definition discard_remainder_of_reservation :: "StreamChunkReservation \<Rightarrow> usize \<Rightarrow> ReadState" where
  "discard_remainder_of_reservation reservation read =
     DiscardStreamPayload (r_len reservation - read)
       (Some (r_stream_id reservation, r_chunk_index reservation))"

definition finish_discarding_reservation ::
  "StreamingState \<Rightarrow> (u64 \<times> usize) option \<Rightarrow> StreamingState option" where
  "finish_discarding_reservation st on_complete =
     (case on_complete of
        None \<Rightarrow> Some st
      | Some (stream_id, chunk_index) \<Rightarrow> mark_reap_discarded_chunk_received stream_id chunk_index st)"

definition reject_zero_length_frame :: GossipError where
  "reject_zero_length_frame = Network InvalidData"

definition poll_read_once ::
  "'s poll_read \<Rightarrow> usize \<Rightarrow> 's \<Rightarrow> byte list result poll \<times> 's" where
  "poll_read_once pr len s =
     (case pr len s of
        (Pending, s) \<Rightarrow> (Pending, s)
      | (Ready (Inl e), s) \<Rightarrow> (Ready (Inl (Network e)), s)
      | (Ready (Inr bytes), s) \<Rightarrow> (Ready (Inr bytes), s))"

definition on_pending :: "bool \<Rightarrow> 'm ReadPollResult result poll" where
  "on_pending block =
     (if block then Pending else Ready (Inr \<lparr> rp_result = None, rp_progressed = False \<rparr>))"

abbreviation (input) progressed ::
  "('m, byte list) MessageReadResult option \<Rightarrow> 'm ReadPollResult result poll" where
  "progressed r \<equiv> Ready (Inr \<lparr> rp_result = r, rp_progressed = True \<rparr>)"

subsection \<open>One poll, by reader state\<close>

type_synonym ('m, 's) polled = "('m ReadPollResult result poll \<times> Reader \<times> 's) option"

text \<open>The control word has been read: decide where its body goes.\<close>

definition control_received ::
  "allocator \<Rightarrow> AlignedBytesPool \<Rightarrow> usize \<Rightarrow> byte list \<Rightarrow> GossipError + ReadState" where
  "control_received al pool max_message_size buf =
     (case decode_control buf of
        None \<Rightarrow> Inl (Network InvalidData)
      | Some control \<Rightarrow>
          let msg_len = c_body_len control in
          if msg_len = 0 then Inl reject_zero_length_frame
          else if msg_len > max_message_size then Inl (MessageTooLarge msg_len max_message_size)
          else case stream_meta_len (c_kind control) of
            Some meta_len \<Rightarrow>
              if msg_len < meta_len then Inl (Network InvalidData)
              else Inr (ReadStreamMeta (c_kind control) msg_len
                          (replicate STREAM_REQUEST_START_HEADER_LEN 0) meta_len 0)
          | None \<Rightarrow>
              let buffer = fst (with_len al (msg_len + LENGTH_PREFIX_LEN) pool);
                  buffer = buffer \<lparr> ab_data := copy_into 0 buf (ab_data buffer) \<rparr>
              in Inr (ReadBody msg_len buffer 0))"

definition poll_read_len ::
  "'s poll_read \<Rightarrow> allocator \<Rightarrow> AlignedBytesPool \<Rightarrow> usize \<Rightarrow> bool \<Rightarrow> byte list \<Rightarrow> usize \<Rightarrow> Reader \<Rightarrow> 's \<Rightarrow>
   ('m, 's) polled" where
  "poll_read_len pr al pool max_message_size block buf read rd s =
     (if length buf - read = 0 then Some (Ready (Inr \<lparr> rp_result = None, rp_progressed = False \<rparr>), rd, s)
      else case poll_read_once pr (length buf - read) s of
        (Pending, s) \<Rightarrow> Some (on_pending block, rd, s)
      | (Ready (Inl e), s) \<Rightarrow> Some (Ready (Inl e), rd, s)
      | (Ready (Inr bytes), s) \<Rightarrow>
          if bytes = [] then Some (Ready (Inl (eof_in_length_prefix read)), rd, s)
          else
            let buf = copy_into read bytes buf; read = read + length bytes;
                rd = rd \<lparr> rd_state := ReadLen buf read \<rparr>
            in if read < LENGTH_PREFIX_LEN then Some (progressed None, rd, s)
               else case control_received al pool max_message_size buf of
                 Inl e \<Rightarrow> Some (Ready (Inl e), rd, s)
               | Inr state \<Rightarrow> Some (progressed None, rd \<lparr> rd_state := state \<rparr>, s))"

definition poll_read_body ::
  "(byte list \<Rightarrow> 'm option) \<Rightarrow> 's poll_read \<Rightarrow> bool \<Rightarrow> usize \<Rightarrow> AlignedBuffer \<Rightarrow> usize \<Rightarrow> Reader \<Rightarrow> 's \<Rightarrow>
   ('m, 's) polled" where
  "poll_read_body dec pr block msg_len buffer read rd s =
     (let offset = LENGTH_PREFIX_LEN + read; stop = LENGTH_PREFIX_LEN + msg_len in
      if stop < offset \<or> length (ab_data buffer) < stop then None
      else if stop - offset = 0
      then Some (Ready (Inr \<lparr> rp_result = None, rp_progressed = False \<rparr>), rd, s)
      else case poll_read_once pr (stop - offset) s of
        (Pending, s) \<Rightarrow> Some (on_pending block, rd, s)
      | (Ready (Inl e), s) \<Rightarrow> Some (Ready (Inl e), rd, s)
      | (Ready (Inr bytes), s) \<Rightarrow>
          if bytes = [] then Some (Ready (Inl (Network UnexpectedEof)), rd, s)
          else
            let buffer = buffer \<lparr> ab_data := copy_into offset bytes (ab_data buffer) \<rparr>;
                read = read + length bytes
            in if read < msg_len
               then Some (progressed None, rd \<lparr> rd_state := ReadBody msg_len buffer read \<rparr>, s)
               else case parse_message_from_pooled_buffer_with_routes dec buffer msg_len
                           (Some (rd_routes rd)) of
                 None \<Rightarrow> None
               | Some (parsed, routes) \<Rightarrow>
                   let rd = rd \<lparr> rd_state := ReadState_new, rd_routes := the routes \<rparr>
                   in case view parsed of
                        Inl e \<Rightarrow> Some (Ready (Inl e), rd, s)
                      | Inr result \<Rightarrow> Some (progressed (Some result), rd, s))"

definition poll_read_stream_meta ::
  "'s poll_read \<Rightarrow> nat \<Rightarrow> bool \<Rightarrow> WireKind \<Rightarrow> usize \<Rightarrow> byte list \<Rightarrow> usize \<Rightarrow> usize \<Rightarrow> Reader \<Rightarrow> 's \<Rightarrow>
   ('m, 's) polled" where
  "poll_read_stream_meta pr now block kind body_len meta meta_len read rd s =
     (if meta_len < read \<or> length meta < meta_len then None
      else case poll_read_once pr (meta_len - read) s of
        (Pending, s) \<Rightarrow> Some (on_pending block, rd, s)
      | (Ready (Inl e), s) \<Rightarrow> Some (Ready (Inl e), rd, s)
      | (Ready (Inr bytes), s) \<Rightarrow>
          if bytes = [] then Some (Ready (Inl (Network UnexpectedEof)), rd, s)
          else
            let meta = copy_into read bytes meta; read = read + length bytes;
                rd = rd \<lparr> rd_state := ReadStreamMeta kind body_len meta meta_len read \<rparr>
            in if read < meta_len then Some (progressed None, rd, s)
               else case reserve_v5_stream_payload now kind body_len (take meta_len meta) (rd_streams rd) of
                 None \<Rightarrow> None
               | Some (Inl e, st) \<Rightarrow> Some (Ready (Inl e), rd \<lparr> rd_streams := st \<rparr>, s)
               | Some (Inr reservation, st) \<Rightarrow>
                   Some (progressed None,
                         rd \<lparr> rd_state := stream_payload_state reservation body_len meta_len,
                              rd_streams := st \<rparr>, s))"

definition poll_read_stream_payload ::
  "'s poll_read \<Rightarrow> nat \<Rightarrow> bool \<Rightarrow> StreamChunkReservation \<Rightarrow> usize \<Rightarrow> Reader \<Rightarrow> 's \<Rightarrow> ('m, 's) polled" where
  "poll_read_stream_payload pr now block reservation read rd s =
     (case v5_chunk_target reservation read (rd_streams rd) of
        None \<Rightarrow> None
      | Some (Inl e) \<Rightarrow>
          if is_stream_reaped_error e
          then Some (progressed None,
                     rd \<lparr> rd_state := discard_remainder_of_reservation reservation read \<rparr>, s)
          else Some (Ready (Inl e), rd, s)
      | Some (Inr (start, stop)) \<Rightarrow>
          (case poll_read_once pr (stop - start) s of
             (Pending, s) \<Rightarrow> Some (on_pending block, rd, s)
           | (Ready (Inl e), s) \<Rightarrow> Some (Ready (Inl e), rd, s)
           | (Ready (Inr bytes), s) \<Rightarrow>
               if bytes = [] then Some (Ready (Inl (Network UnexpectedEof)), rd, s)
               else
                 let st = record_v5_chunk_progress now reservation (length bytes)
                            (write_chunk_bytes reservation read bytes (rd_streams rd));
                     read = read + length bytes
                 in if read < r_len reservation
                    then Some (progressed None,
                               rd \<lparr> rd_state := ReadStreamPayload reservation read, rd_streams := st \<rparr>, s)
                    else case commit_v5_chunk now reservation st of
                      None \<Rightarrow> None
                    | Some (Inl e, st) \<Rightarrow>
                        Some (Ready (Inl e), rd \<lparr> rd_state := ReadState_new, rd_streams := st \<rparr>, s)
                    | Some (Inr completed, st) \<Rightarrow>
                        Some (progressed (map_option completed_v5_stream_result completed),
                              rd \<lparr> rd_state := ReadState_new, rd_streams := st \<rparr>, s)))"

definition poll_discard_stream_payload ::
  "'s poll_read \<Rightarrow> bool \<Rightarrow> usize \<Rightarrow> (u64 \<times> usize) option \<Rightarrow> Reader \<Rightarrow> 's \<Rightarrow> ('m, 's) polled" where
  "poll_discard_stream_payload pr block remaining on_complete rd s =
     (let read_len = min remaining DISCARD_SCRATCH_LEN in
      if read_len = 0
      then map_option (\<lambda>st. (progressed None, rd \<lparr> rd_state := ReadState_new, rd_streams := st \<rparr>, s))
             (finish_discarding_reservation (rd_streams rd) on_complete)
      else case poll_read_once pr read_len s of
        (Pending, s) \<Rightarrow> Some (on_pending block, rd, s)
      | (Ready (Inl e), s) \<Rightarrow> Some (Ready (Inl e), rd, s)
      | (Ready (Inr bytes), s) \<Rightarrow>
          if bytes = [] then Some (Ready (Inl (Network UnexpectedEof)), rd, s)
          else
            let remaining = remaining - length bytes in
            if remaining = 0
            then map_option (\<lambda>st. (progressed None, rd \<lparr> rd_state := ReadState_new, rd_streams := st \<rparr>, s))
                   (finish_discarding_reservation (rd_streams rd) on_complete)
            else Some (progressed None,
                       rd \<lparr> rd_state := DiscardStreamPayload remaining on_complete \<rparr>, s))"

definition read_message_step_poll ::
  "(byte list \<Rightarrow> 'm option) \<Rightarrow> 's poll_read \<Rightarrow> allocator \<Rightarrow> AlignedBytesPool \<Rightarrow> usize \<Rightarrow> nat \<Rightarrow> bool \<Rightarrow>
   Reader \<Rightarrow> 's \<Rightarrow> ('m, 's) polled" where
  "read_message_step_poll dec pr al pool max_message_size now block rd s =
     (case rd_state rd of
        ReadLen buf read \<Rightarrow> poll_read_len pr al pool max_message_size block buf read rd s
      | ReadBody msg_len buffer read \<Rightarrow> poll_read_body dec pr block msg_len buffer read rd s
      | ReadStreamMeta kind body_len meta meta_len read \<Rightarrow>
          poll_read_stream_meta pr now block kind body_len meta meta_len read rd s
      | ReadStreamPayload reservation read \<Rightarrow> poll_read_stream_payload pr now block reservation read rd s
      | DiscardStreamPayload remaining on_complete \<Rightarrow>
          poll_discard_stream_payload pr block remaining on_complete rd s)"

definition read_message_step_nonblocking ::
  "(byte list \<Rightarrow> 'm option) \<Rightarrow> 's poll_read \<Rightarrow> allocator \<Rightarrow> AlignedBytesPool \<Rightarrow> usize \<Rightarrow> nat \<Rightarrow>
   Reader \<Rightarrow> 's \<Rightarrow> ('m, 's) polled" where
  "read_message_step_nonblocking dec pr al pool max_message_size now rd s =
     read_message_step_poll dec pr al pool max_message_size now False rd s"

end
