(* ===== verification/Read_Refinement.thy ===== *)
theory Read_Refinement
  imports Read_Pipeline Stream_Runs
begin

text \<open>
  The incremental reader of \<open>Read_Pipeline\<close> refines frame-at-a-time processing.  The specification
  \<open>frame_step\<close> handles one whole frame at once; the simulation relation \<open>reading\<close> says how far the
  reader is inside the current frame.  However the socket cuts the byte stream, the reader delivers
  the results, the errors and the states of the specification.
\<close>

section \<open>Frames at once\<close>

type_synonym core = "StreamingState \<times> RouteTable"
type_synonym raw_frame = "WireKind \<times> byte list"

definition frame_bytes :: "raw_frame \<Rightarrow> byte list" where
  "frame_bytes f = control_bytes (fst f) (length (snd f)) @ snd f"

text \<open>Frames that pass the checks on the control word.\<close>

definition readable :: "usize \<Rightarrow> raw_frame \<Rightarrow> bool" where
  "readable max_message_size f \<longleftrightarrow>
     snd f \<noteq> [] \<and> length (snd f) < 2 ^ 27 \<and> length (snd f) \<le> max_message_size \<and>
     (\<forall>ml. stream_meta_len (fst f) = Some ml \<longrightarrow> ml \<le> length (snd f))"

abbreviation completion_results :: "CompletedV5Stream option \<Rightarrow> ('m, byte list) MessageReadResult option" where
  "completion_results c \<equiv> map_option completed_v5_stream_result c"

inductive frame_step ::
  "(byte list \<Rightarrow> 'm option) \<Rightarrow> core \<Rightarrow> raw_frame \<Rightarrow> ('m, byte list) MessageReadResult option result \<Rightarrow>
   core \<Rightarrow> bool" for dec where
  whole: "\<lbrakk>stream_meta_len k = None; ab_data b = frame_bytes (k, body); length (ab_data b) \<le> ab_capacity b;
     parse_message_from_pooled_buffer_with_routes dec b (length body) (Some routes) = Some (parsed, Some routes')\<rbrakk>
   \<Longrightarrow> frame_step dec (st, routes) (k, body) (map_sum id Some (view parsed)) (st, routes')"
| refused: "\<lbrakk>stream_meta_len k = Some ml;
     reserve_v5_stream_payload t k (length body) (take ml body) st = Some (Inl e, st')\<rbrakk>
   \<Longrightarrow> frame_step dec (st, routes) (k, body) (Inl e) (st', routes)"
| discarded: "\<lbrakk>stream_meta_len k = Some ml;
     reserve_v5_stream_payload t k (length body) (take ml body) st = Some (Inr None, st')\<rbrakk>
   \<Longrightarrow> frame_step dec (st, routes) (k, body) (Inr None) (st', routes)"
| chunk: "\<lbrakk>stream_meta_len k = Some ml;
     reserve_v5_stream_payload t k (length body) (take ml body) st = Some (Inr (Some r), st');
     deliver_chunk t' r (drop ml body) st' = Some (Inr completed, st'')\<rbrakk>
   \<Longrightarrow> frame_step dec (st, routes) (k, body) (Inr (completion_results completed)) (st'', routes)"

inductive_cases frame_step_okE: "frame_step dec c f (Inr r) c'"

section \<open>The socket\<close>

text \<open>The bytes still to come and a schedule: per poll, the socket blocks (\<open>None\<close>) or has at least
  one byte, and at most the given number and one.  At the end of the bytes a read returns nothing.\<close>

type_synonym sock = "byte list \<times> nat option list"

fun net_read :: "sock poll_read" where
  "net_read len (input, []) = (Pending, (input, []))"
| "net_read len (input, None # gs) = (Pending, (input, gs))"
| "net_read len (input, Some k # gs) =
     (Ready (Inr (take (min (Suc k) len) input)), (drop (min (Suc k) len) input, gs))"

lemma net_read_cases:
  assumes "0 < len" "len \<le> length p"
  obtains (blocked) gs' where "poll_read_once net_read len (p @ rest, gs) = (Pending, (p @ rest, gs'))"
      "gs' = tl gs" "gs = [] \<or> hd gs = None"
    | (got) n where "poll_read_once net_read len (p @ rest, gs) =
        (Ready (Inr (take n p)), (drop n p @ rest, tl gs))" "0 < n" "n \<le> len" "take n p \<noteq> []"
        "length (take n p) = n"
proof (cases gs)
  case Nil
  then show ?thesis using blocked by (simp add: poll_read_once_def)
next
  case (Cons g gs')
  show ?thesis
  proof (cases g)
    case None
    with Cons blocked show ?thesis by (simp add: poll_read_once_def)
  next
    case (Some k)
    have "p \<noteq> []" using assms by auto
    with Cons Some got [of "min (Suc k) len"] assms show ?thesis by (simp add: poll_read_once_def)
  qed
qed

section \<open>Inside a frame\<close>

lemma fill_step:
  assumes "take n buf = take n xs" "n + length bs \<le> length buf" "bs = take m (drop n xs)"
    "length bs = m" "n \<le> length xs"
  shows "take (n + m) (copy_into n bs buf) = take (n + m) xs"
proof -
  have "take (n + m) (copy_into n bs buf) = take n buf @ bs"
    using assms(2,4) by (simp add: copy_into_def)
  also have "\<dots> = take (n + m) xs"
    using assms(1,3,5) by (simp add: take_add)
  finally show ?thesis .
qed

text \<open>A chunk of which \<open>n\<close> bytes have been read into its range.\<close>

definition partly_read ::
  "nat \<Rightarrow> usize \<Rightarrow> byte list \<Rightarrow> StreamChunkReservation \<Rightarrow> StreamingState \<Rightarrow> StreamingState" where
  "partly_read t n data r st =
     (if n = 0 then st
      else record_v5_chunk_progress t r n (write_chunk_bytes r 0 (take n data) st))"

fun reading :: "raw_frame \<Rightarrow> byte list \<Rightarrow> core \<Rightarrow> ReadState \<Rightarrow> byte list \<Rightarrow> core \<Rightarrow> bool" where
  "reading (k, body) rest c (ReadLen buf n) input c' \<longleftrightarrow>
     n < 4 \<and> length buf = 4 \<and> take n buf = take n (frame_bytes (k, body)) \<and>
     input = drop n (frame_bytes (k, body)) @ rest \<and> c' = c"
| "reading (k, body) rest c (ReadBody msg_len b n) input c' \<longleftrightarrow>
     stream_meta_len k = None \<and> msg_len = length body \<and> n < length body \<and>
     length (ab_data b) = 4 + length body \<and> take (4 + n) (ab_data b) = take (4 + n) (frame_bytes (k, body)) \<and>
     length (ab_data b) \<le> ab_capacity b \<and> input = drop n body @ rest \<and> c' = c"
| "reading (k, body) rest c (ReadStreamMeta k' body_len meta ml n) input c' \<longleftrightarrow>
     k' = k \<and> body_len = length body \<and> stream_meta_len k = Some ml \<and> n < ml \<and> ml \<le> length meta \<and>
     take n meta = take n body \<and> input = drop n body @ rest \<and> c' = c"
| "reading (k, body) rest c (ReadStreamPayload r n) input c' \<longleftrightarrow>
     (\<exists>ml t t' st. stream_meta_len k = Some ml \<and>
        reserve_v5_stream_payload t k (length body) (take ml body) (fst c) = Some (Inr (Some r), st) \<and>
        n < length body - ml \<and> input = drop (ml + n) body @ rest \<and>
        c' = (partly_read t' n (drop ml body) r st, snd c))"
| "reading (k, body) rest c (DiscardStreamPayload rem oc) input c' \<longleftrightarrow>
     (\<exists>ml t. stream_meta_len k = Some ml \<and> oc = None \<and> rem \<le> length body - ml \<and>
        reserve_v5_stream_payload t k (length body) (take ml body) (fst c) = Some (Inr None, fst c') \<and>
        input = drop (length body - rem) body @ rest \<and> snd c' = snd c)"

abbreviation rd_core :: "Reader \<Rightarrow> core" where
  "rd_core rd \<equiv> (rd_streams rd, rd_routes rd)"

lemma reading_start:
  "reading f rest c (ReadState_new) (frame_bytes f @ rest) c"
  by (cases f) (simp add: ReadState_new_def LENGTH_PREFIX_LEN_def)

text \<open>What a poll does to a reader inside frame \<open>f\<close>.\<close>

definition poll_post ::
  "(byte list \<Rightarrow> 'm option) \<Rightarrow> raw_frame \<Rightarrow> byte list \<Rightarrow> core \<Rightarrow> byte list \<Rightarrow> nat option list \<Rightarrow> Reader \<Rightarrow>
   'm ReadPollResult result poll \<Rightarrow> Reader \<Rightarrow> byte list \<Rightarrow> bool" where
  "poll_post dec f rest c input gs rd out rd' input' \<longleftrightarrow>
     (case out of
        Ready (Inl e) \<Rightarrow> frame_step dec c f (Inl e) (rd_core rd')
      | Ready (Inr p) \<Rightarrow>
          (rp_result p = None \<and> reading f rest c (rd_state rd') input' (rd_core rd') \<and>
             (length input' < length input \<or> input' = input \<and> rd' = rd \<and> (gs = [] \<or> hd gs = None)))
          \<or> (rd_state rd' = ReadState_new \<and> input' = rest \<and> length input' \<le> length input \<and>
             frame_step dec c f (Inr (rp_result p)) (rd_core rd'))
      | Pending \<Rightarrow> rd' = rd \<and> input' = input \<and> (gs = [] \<or> hd gs = None))"

lemma poll_post_blocked:
  assumes "reading f rest c (rd_state rd) input (rd_core rd)" "gs = [] \<or> hd gs = None"
  shows "poll_post dec f rest c input gs rd (on_pending block) rd input"
  using assms by (auto simp: poll_post_def on_pending_def)

lemma length_frame_bytes [simp]: "length (frame_bytes f) = 4 + length (snd f)"
  by (simp add: frame_bytes_def)

lemma take_frame_bytes: "take 4 (frame_bytes (k, body)) = control_bytes k (length body)"
  by (simp add: frame_bytes_def)

lemma control_received_frame:
  assumes "readable mx (k, body)" "allocator_ok al" "pool_inv pool"
  shows "\<exists>s. control_received al pool mx (control_bytes k (length body)) = Inr s \<and>
    reading (k, body) rest c s (body @ rest) c"
proof -
  let ?n = "length body" and ?b = "fst (with_len al (length body + 4) pool)"
  have n: "0 < ?n" "?n < 2 ^ 27" "?n \<le> mx" "\<And>ml. stream_meta_len k = Some ml \<Longrightarrow> ml \<le> ?n"
    using assms(1) by (auto simp: readable_def)
  have ml: "stream_meta_len k = Some ml \<Longrightarrow> 0 < ml \<and> ml \<le> 24" for ml
    by (cases k) (auto simp: header_len_defs)
  have b: "ab_data ?b = replicate (?n + 4) 0" "?n + 4 \<le> ab_capacity ?b"
    using with_len_data [of al "?n + 4" pool] with_len_capacity [OF assms(2,3), of "?n + 4"] by simp_all
  have "copy_into 0 (control_bytes k ?n) (replicate (?n + 4) 0) = control_bytes k ?n @ replicate ?n 0"
    by (simp add: copy_into_def)
  then show ?thesis
    using n ml b decode_control_bytes [OF n(2), of k]
    by (cases "stream_meta_len k")
      (auto simp: control_received_def Let_def frame_bytes_def LENGTH_PREFIX_LEN_def
        STREAM_REQUEST_START_HEADER_LEN_def)
qed

lemma poll_read_len_post:
  assumes "readable mx (k, body)" "allocator_ok al" "pool_inv pool"
    and "rd_state rd = ReadLen buf n" "reading (k, body) rest c (ReadLen buf n) input (rd_core rd)"
  shows "\<exists>out rd' input'. poll_read_len net_read al pool mx block buf n rd (input, gs) =
      Some (out, rd', (input', tl gs)) \<and> poll_post dec (k, body) rest c input gs rd out rd' input'"
proof -
  let ?F = "frame_bytes (k, body)"
  have r: "n < 4" "length buf = 4" "take n buf = take n ?F" "input = drop n ?F @ rest" "rd_core rd = c"
    using assms(5) by simp_all
  have len: "0 < 4 - n" "4 - n \<le> length (drop n ?F)" using r(1) by simp_all
  from len show ?thesis
  proof (cases rule: net_read_cases [where rest = rest and gs = gs])
    case (blocked gs')
    with r assms(4) poll_post_blocked [of "(k, body)" rest c rd input gs dec block] show ?thesis
      by (auto simp: poll_read_len_def)
  next
    case (got m)
    let ?bs = "take m (drop n ?F)"
    let ?buf = "copy_into n ?bs buf"
    have full: "take (n + m) ?buf = take (n + m) ?F"
      using r got by (intro fill_step [of _ _ _ _ m]) simp_all
    have lb: "length ?buf = 4" using r(2) got by simp
    have inp: "drop m (drop n ?F) = drop (n + m) ?F" by (simp add: add.commute)
    have lt: "length (drop (n + m) ?F @ rest) < length input" using r got by simp
    show ?thesis
    proof (cases "n + m < 4")
      case True
      with r got full lb inp lt show ?thesis
        by (auto simp: poll_read_len_def poll_post_def LENGTH_PREFIX_LEN_def Let_def)
    next
      case False
      with got(3) r(1) have nm: "n + m = 4" by simp
      with full lb have "?buf = control_bytes k (length body)" by (simp add: take_frame_bytes)
      moreover obtain s where s: "control_received al pool mx (control_bytes k (length body)) = Inr s"
        "reading (k, body) rest c s (body @ rest) c"
        using control_received_frame [OF assms(1-3)] by blast
      moreover have "drop 4 ?F = body" by (simp add: frame_bytes_def)
      ultimately show ?thesis
        using r got nm inp lt
        by (auto simp: poll_read_len_def poll_post_def LENGTH_PREFIX_LEN_def Let_def)
    qed
  qed
qed

lemma parse_total:
  assumes "4 \<le> length (ab_data b)"
  shows "\<exists>parsed routes'. parse_message_from_pooled_buffer_with_routes dec b n (Some routes) =
    Some (parsed, Some routes')"
proof -
  have "\<exists>res routes'. parse_route_bind body (Some routes) = (res, Some routes')" for body
    by (auto simp: parse_route_bind_def Let_def split: option.split sum.split prod.split bool.split)
  then show ?thesis
    using assms
    by (auto simp: parse_message_from_pooled_buffer_with_routes_def LENGTH_PREFIX_LEN_def Let_def
        split: option.split WireKind.split)
qed

lemma poll_read_body_post:
  assumes "rd_state rd = ReadBody len b n" "reading (k, body) rest c (ReadBody len b n) input (rd_core rd)"
  shows "\<exists>out rd' input'. poll_read_body dec net_read block len b n rd (input, gs) =
      Some (out, rd', (input', tl gs)) \<and> poll_post dec (k, body) rest c input gs rd out rd' input'"
proof -
  let ?F = "frame_bytes (k, body)"
  have r: "stream_meta_len k = None" "len = length body" "n < length body"
    "length (ab_data b) = 4 + length body" "take (4 + n) (ab_data b) = take (4 + n) ?F"
    "length (ab_data b) \<le> ab_capacity b" "input = drop n body @ rest" "rd_core rd = c"
    using assms(2) by simp_all
  have l: "0 < length body - n" "length body - n \<le> length (drop n body)" using r(3) by simp_all
  from l show ?thesis
  proof (cases rule: net_read_cases [where rest = rest and gs = gs])
    case (blocked gs')
    with r assms poll_post_blocked [of "(k, body)" rest c rd input gs dec block] show ?thesis
      by (auto simp: poll_read_body_def LENGTH_PREFIX_LEN_def)
  next
    case (got m)
    let ?bs = "take m (drop n body)"
    let ?d = "copy_into (4 + n) ?bs (ab_data b)"
    have F: "drop (4 + n) ?F = drop n body" by (simp add: frame_bytes_def)
    have full: "take (4 + (n + m)) ?d = take (4 + (n + m)) ?F"
      unfolding add.assoc [symmetric] using r got F by (intro fill_step [of _ _ _ _ m]) simp_all
    have ld: "length ?d = 4 + length body" using r(4) got by simp
    have lt: "length (drop (n + m) body @ rest) < length input" using r got by simp
    have inp: "drop m (drop n body) = drop (n + m) body" by (simp add: add.commute)
    show ?thesis
    proof (cases "n + m < length body")
      case True
      with r got full ld inp lt show ?thesis
        by (auto simp: poll_read_body_def poll_post_def LENGTH_PREFIX_LEN_def Let_def)
    next
      case False
      let ?b = "b \<lparr> ab_data := ?d \<rparr>"
      from False got(3) r(3) have nm: "n + m = length body" by simp
      have d: "ab_data ?b = ?F" using full ld nm by simp
      obtain parsed routes' where p: "parse_message_from_pooled_buffer_with_routes dec ?b (length body)
          (Some (rd_routes rd)) = Some (parsed, Some routes')"
        using parse_total [of ?b dec "length body" "rd_routes rd"] ld by auto
      have fs: "frame_step dec c (k, body) (map_sum id Some (view parsed)) (rd_streams rd, routes')"
        unfolding r(8) [symmetric] using r d p by (intro frame_step.whole) simp_all
      have "poll_read_body dec net_read block len b n rd (input, gs) = Some
          (case view parsed of
             Inl e \<Rightarrow> (Ready (Inl e), rd \<lparr> rd_state := ReadState_new, rd_routes := routes' \<rparr>, (rest, tl gs))
           | Inr x \<Rightarrow> (progressed (Some x), rd \<lparr> rd_state := ReadState_new, rd_routes := routes' \<rparr>, (rest, tl gs)))"
        using r got nm p inp
        by (simp add: poll_read_body_def LENGTH_PREFIX_LEN_def Let_def split: sum.split)
      with fs lt nm show ?thesis by (cases "view parsed") (auto simp: poll_post_def)
    qed
  qed
qed

lemma reserve_v5_stream_payload_post:
  assumes "state_inv st" "stream_meta_len k = Some ml" "ml \<le> n"
  shows "\<exists>res st'. reserve_v5_stream_payload t k n meta st = Some (res, st') \<and> state_inv st' \<and>
    (case res of Inr (Some r) \<Rightarrow> r_len r = n - ml \<and> res_ok r st' | _ \<Rightarrow> True)"
proof -
  define reserved where "reserved l out \<longleftrightarrow> (\<exists>res st'. out = Some (res, st') \<and> state_inv st' \<and>
    (case res of Inr (Some r) \<Rightarrow> r_len r = l \<and> res_ok r st' | _ \<Rightarrow> True))"
    for l and out :: "(StreamChunkReservation option result \<times> StreamingState) option"
  have "reserved l (begin_v5_stream_or_discard t h c resp l st)" for h c resp l
    using begin_or_discard_post [OF assms(1), of t h c resp l]
    unfolding reserved_def by (fastforce split: sum.splits option.splits)
  moreover have "reserved l (reserve_v5_chunk_or_discard i x l st)" for i x l
    using reserve_or_discard_post [OF assms(1), of i x l]
    unfolding reserved_def by (fastforce split: sum.splits option.splits)
  ultimately have "reserved (n - ml) (reserve_v5_stream_payload t k n meta st)"
    using assms(2,3) by (cases k) (simp_all add: reserve_v5_stream_payload_def Let_def)
  then show ?thesis by (simp add: reserved_def)
qed

lemma res_ok_pos:
  assumes "state_inv st" "res_ok r st"
  shows "0 < r_len r"
proof -
  obtain s where s: "lookup_active st (r_stream_id r) = Some s" "reservation_fits r s"
    using assms(2) by (auto simp: res_ok_def)
  have "stream_wf s" using assms(1) s(1) active_inv_wf by (auto simp: state_inv_def)
  then show ?thesis by (rule fits_range(2) [OF _ s(2)])
qed

lemma reading_after_meta:
  assumes "stream_meta_len k = Some ml" "ml \<le> length body"
    and "reserve_v5_stream_payload now k (length body) (take ml body) (fst c) = Some (Inr x, st)"
    and "state_inv st" "case x of Some y \<Rightarrow> r_len y = length body - ml \<and> res_ok y st | None \<Rightarrow> True"
  shows "reading (k, body) rest c (stream_payload_state x (length body) ml) (drop ml body @ rest) (st, snd c)"
proof (cases x)
  case None
  with assms show ?thesis by (auto simp: stream_payload_state_def)
next
  case (Some y)
  then have y: "r_len y = length body - ml" "res_ok y st" using assms(5) by simp_all
  then have "0 < r_len y" by (intro res_ok_pos [OF assms(4)])
  with assms Some y show ?thesis by (auto simp: stream_payload_state_def partly_read_def)
qed

lemma poll_read_stream_meta_post:
  fixes dec :: "byte list \<Rightarrow> 'm option"
  assumes "readable mx (k, body)" "state_inv (fst c)"
    "rd_state rd = ReadStreamMeta k' bl meta ml n"
    "reading (k, body) rest c (ReadStreamMeta k' bl meta ml n) input (rd_core rd)"
  shows "\<exists>out rd' input'. poll_read_stream_meta net_read now block k' bl meta ml n rd (input, gs) =
      Some (out, rd', (input', tl gs)) \<and> poll_post dec (k, body) rest c input gs rd out rd' input'"
proof -
  have r: "k' = k" "bl = length body" "stream_meta_len k = Some ml" "n < ml" "ml \<le> length meta"
    "take n meta = take n body" "input = drop n body @ rest" "rd_core rd = c"
    using assms(4) by simp_all
  have ml: "ml \<le> length body" using assms(1) r(3) by (auto simp: readable_def)
  have l: "0 < ml - n" "ml - n \<le> length (drop n body)" using r(4) ml by simp_all
  from l show ?thesis
  proof (cases rule: net_read_cases [where rest = rest and gs = gs])
    case (blocked gs')
    with r assms poll_post_blocked [of "(k, body)" rest c rd input gs dec block] show ?thesis
      by (auto simp: poll_read_stream_meta_def)
  next
    case (got m)
    let ?meta = "copy_into n (take m (drop n body)) meta"
    have full: "take (n + m) ?meta = take (n + m) body"
      using r got ml by (intro fill_step [of _ _ _ _ m]) simp_all
    have lm: "length ?meta = length meta" using r got by simp
    have lt: "length (drop (n + m) body @ rest) < length input" using r got ml by simp
    have inp: "drop m (drop n body) = drop (n + m) body" by (simp add: add.commute)
    show ?thesis
    proof (cases "n + m < ml")
      case True
      with r got full lm inp lt show ?thesis
        by (auto simp: poll_read_stream_meta_def poll_post_def Let_def)
    next
      case False
      from False got(3) r(4) have nm: "n + m = ml" by simp
      have st: "state_inv (rd_streams rd)" using assms(2) r(8) by auto
      obtain res st' where res: "reserve_v5_stream_payload now k (length body) (take ml body) (rd_streams rd)
          = Some (res, st')" "state_inv st'"
        "case res of Inr (Some x) \<Rightarrow> r_len x = length body - ml \<and> res_ok x st' | _ \<Rightarrow> True"
        using reserve_v5_stream_payload_post [OF st r(3) ml, of now "take ml body"] by blast
      have poll: "(poll_read_stream_meta net_read now block k' bl meta ml n rd (input, gs) :: ('m, sock) polled) = Some
          (case res of
             Inl e \<Rightarrow> (Ready (Inl e), rd \<lparr> rd_state := ReadStreamMeta k bl ?meta ml ml, rd_streams := st' \<rparr>,
                        (drop ml body @ rest, tl gs))
           | Inr x \<Rightarrow> (progressed None, rd \<lparr> rd_state := stream_payload_state x bl ml, rd_streams := st' \<rparr>,
                        (drop ml body @ rest, tl gs)))"
        using r got nm full res inp
        by (simp add: poll_read_stream_meta_def Let_def split: sum.split)
      show ?thesis
      proof (cases res)
        case (Inl e)
        have "frame_step dec c (k, body) (Inl e) (st', rd_routes rd)"
          unfolding r(8) [symmetric] using res r Inl by (intro frame_step.refused) simp_all
        with poll Inl show ?thesis by (simp add: poll_post_def)
      next
        case (Inr x)
        have "reading (k, body) rest c (stream_payload_state x bl ml) (drop ml body @ rest) (st', rd_routes rd)"
          using reading_after_meta [OF r(3) ml _ res(2), of now c x rest] res(1,3) r(2,8) Inr by auto
        with poll Inr lt nm show ?thesis by (simp add: poll_post_def)
      qed
    qed
  qed
qed

lemma update_update: "AList.update i x (AList.update i y al) = AList.update i x al"
  by (induction al) auto

lemma partly_read_eq:
  assumes "lookup_active st (r_stream_id r) = Some s" "0 < n" "n \<le> length data"
  shows "partly_read t n data r st = update_active (r_stream_id r)
    (s \<lparr> s_buffer := copy_into (r_offset r) (take n data) (s_buffer s), s_last_activity := t,
         s_total_bytes_progressed := saturating_add (s_total_bytes_progressed s) n \<rparr>) st"
  using assms
  by (simp add: partly_read_def record_v5_chunk_progress_def write_chunk_bytes_def update_update)

lemma copy_into_twice:
  assumes "a + length xs + length ys \<le> length zs"
  shows "copy_into (a + length xs) ys (copy_into a xs zs) = copy_into a (xs @ ys) zs"
  using assms by (simp add: copy_into_def ac_simps)

lemma saturating_add_twice: "saturating_add (saturating_add a b) c = saturating_add a (b + c)"
  by (simp add: saturating_add_def)

lemma partly_read_step:
  assumes "lookup_active st (r_stream_id r) = Some s" "0 < m" "n + m \<le> length data"
    "r_offset r + length data \<le> length (s_buffer s)"
  shows "record_v5_chunk_progress t r m (write_chunk_bytes r n (take m (drop n data)) (partly_read t' n data r st))
    = partly_read t (n + m) data r st"
proof (cases "n = 0")
  case True
  then show ?thesis using assms by (simp add: partly_read_def)
next
  case False
  have "take (n + m) data = take n data @ take m (drop n data)" by (simp add: take_add)
  with assms False copy_into_twice [of "r_offset r" "take n data" "take m (drop n data)" "s_buffer s"]
  show ?thesis
    by (simp add: partly_read_eq record_v5_chunk_progress_def write_chunk_bytes_def update_update
        saturating_add_twice)
qed

lemma deliver_partly_read:
  "0 < length data \<Longrightarrow> commit_v5_chunk t r (partly_read t (length data) data r st) = deliver_chunk t r data st"
  by (simp add: partly_read_def deliver_chunk_def)

lemma partly_read_target:
  assumes "state_inv st" "res_ok r st" "n \<le> r_len r" "length data = r_len r"
  obtains s where "lookup_active st (r_stream_id r) = Some s"
    "r_offset r + length data \<le> length (s_buffer s)"
    "v5_chunk_target r n (partly_read t n data r st) = Some (Inr (r_offset r + n, r_offset r + r_len r))"
proof -
  obtain s where s: "lookup_active st (r_stream_id r) = Some s" "reservation_fits r s"
    using assms(2) by (auto simp: res_ok_def)
  have "stream_wf s" using assms(1) s(1) active_inv_wf by (auto simp: state_inv_def)
  from fits_range(1) [OF this s(2)] have le: "r_offset r + r_len r \<le> length (s_buffer s)" .
  have "v5_chunk_target r n (partly_read t n data r st) = Some (Inr (r_offset r + n, r_offset r + r_len r))"
    using s(1) le assms(3,4) by (cases "n = 0") (simp_all add: v5_chunk_target_def partly_read_eq partly_read_def [of _ 0])
  with that s(1) le assms(4) show ?thesis by simp
qed

lemma poll_read_stream_payload_post:
  fixes dec :: "byte list \<Rightarrow> 'm option"
  assumes "readable mx (k, body)" "state_inv (fst c)" "rd_state rd = ReadStreamPayload res n"
    "reading (k, body) rest c (ReadStreamPayload res n) input (rd_core rd)"
  shows "\<exists>out rd' input'. poll_read_stream_payload net_read now block res n rd (input, gs) =
      Some (out, rd', (input', tl gs)) \<and> poll_post dec (k, body) rest c input gs rd out rd' input'"
proof -
  obtain ml t t' st where r: "stream_meta_len k = Some ml"
    "reserve_v5_stream_payload t k (length body) (take ml body) (fst c) = Some (Inr (Some res), st)"
    "n < length body - ml" "input = drop (ml + n) body @ rest"
    "rd_streams rd = partly_read t' n (drop ml body) res st" "rd_routes rd = snd c"
    using assms(4) by auto
  let ?d = "drop ml body"
  have ml: "ml \<le> length body" using assms(1) r(1) by (auto simp: readable_def)
  have st: "state_inv st" "r_len res = length body - ml" "res_ok res st"
    using reserve_v5_stream_payload_post [OF assms(2) r(1) ml, of t "take ml body"] r(2) by auto
  obtain s where s: "lookup_active st (r_stream_id res) = Some s"
    "r_offset res + length ?d \<le> length (s_buffer s)"
    "v5_chunk_target res n (rd_streams rd) = Some (Inr (r_offset res + n, r_offset res + r_len res))"
    using partly_read_target [OF st(1,3), of n ?d t'] r(3,5) st(2) by auto
  have l: "0 < r_len res - n" "r_len res - n \<le> length (drop n ?d)" using r(3) st(2) by simp_all
  have inp0: "input = drop n ?d @ rest" using r(4) by (simp add: add.commute)
  from l show ?thesis
  proof (cases rule: net_read_cases [where rest = rest and gs = gs])
    case (blocked gs')
    with inp0 s assms poll_post_blocked [of "(k, body)" rest c rd input gs dec block] show ?thesis
      by (auto simp: poll_read_stream_payload_def)
  next
    case (got m)
    have m: "n + m \<le> length ?d" using got(3) st(2) r(3) by simp
    have lt: "length (drop (n + m) ?d @ rest) < length input" using inp0 got m by simp
    have inp: "drop m (drop n ?d) = drop (n + m) ?d" by (simp add: ac_simps)
    define bs where "bs = take m (drop n ?d)"
    have step: "record_v5_chunk_progress now res m (write_chunk_bytes res n bs (rd_streams rd))
        = partly_read now (n + m) ?d res st"
      unfolding r(5) bs_def by (rule partly_read_step [OF s(1) got(2) m s(2)])
    note got = got [folded bs_def, unfolded inp, folded inp0]
    show ?thesis
    proof (cases "n + m < r_len res")
      case True
      let ?rd = "rd \<lparr> rd_state := ReadStreamPayload res (n + m),
        rd_streams := partly_read now (n + m) ?d res st \<rparr>"
      have "(poll_read_stream_payload net_read now block res n rd (input, gs) :: ('m, sock) polled) =
          Some (progressed None, ?rd, (drop (n + m) ?d @ rest, tl gs))"
        using True got s(3) step by (simp add: poll_read_stream_payload_def Let_def)
      moreover have "reading (k, body) rest c (ReadStreamPayload res (n + m)) (drop (n + m) ?d @ rest)
          (partly_read now (n + m) ?d res st, rd_routes rd)"
        using r True st(2) by (auto simp: ac_simps)
      ultimately show ?thesis using lt by (simp add: poll_post_def)
    next
      case False
      from False m st(2) have nm: "n + m = length ?d" by simp
      obtain fin st' where d: "deliver_chunk now res ?d st = Some (Inr fin, st')"
        using deliver_chunk_post [OF st(1,3), of ?d now] st(2) by auto
      have "commit_v5_chunk now res (partly_read now (n + m) ?d res st) = Some (Inr fin, st')"
        using deliver_partly_read [of ?d now res st] d nm r(3) by simp
      then have "(poll_read_stream_payload net_read now block res n rd (input, gs) :: ('m, sock) polled) =
          Some (progressed (completion_results fin), rd \<lparr> rd_state := ReadState_new, rd_streams := st' \<rparr>,
            (rest, tl gs))"
        using False got s(3) step nm by (simp add: poll_read_stream_payload_def Let_def)
      moreover have "frame_step dec c (k, body) (Inr (completion_results fin)) (st', rd_routes rd)"
        using frame_step.chunk [OF r(1,2) d, of dec "snd c"] r(6) by simp
      ultimately show ?thesis using lt nm by (simp add: poll_post_def)
    qed
  qed
qed

lemma poll_discard_post:
  fixes dec :: "byte list \<Rightarrow> 'm option"
  assumes "rd_state rd = DiscardStreamPayload rem oc"
    "reading (k, body) rest c (DiscardStreamPayload rem oc) input (rd_core rd)"
  shows "\<exists>out rd' input' gs'. poll_discard_stream_payload net_read block rem oc rd (input, gs) =
      Some (out, rd', (input', gs')) \<and> (gs' = gs \<or> gs' = tl gs) \<and>
      poll_post dec (k, body) rest c input gs rd out rd' input'"
proof -
  obtain ml t where r: "stream_meta_len k = Some ml" "oc = None" "rem \<le> length body - ml"
    "reserve_v5_stream_payload t k (length body) (take ml body) (fst c) = Some (Inr None, rd_streams rd)"
    "input = drop (length body - rem) body @ rest" "rd_routes rd = snd c"
    using assms(2) by auto
  let ?p = "drop (length body - rem) body"
  have fs: "frame_step dec c (k, body) (Inr None) (rd_core rd)"
    using frame_step.discarded [OF r(1,4), of dec "snd c"] r(6) by simp
  show ?thesis
  proof (cases "rem = 0")
    case True
    with r fs show ?thesis
      by (simp add: poll_discard_stream_payload_def finish_discarding_reservation_def poll_post_def)
  next
    case False
    then have l: "0 < min rem DISCARD_SCRATCH_LEN" "min rem DISCARD_SCRATCH_LEN \<le> length ?p"
      using r(3) by (simp_all add: DISCARD_SCRATCH_LEN_def)
    from l show ?thesis
    proof (cases rule: net_read_cases [where rest = rest and gs = gs])
      case (blocked gs')
      with r l False assms poll_post_blocked [of "(k, body)" rest c rd input gs dec block] show ?thesis
        by (auto simp: poll_discard_stream_payload_def Let_def)
    next
      case (got m)
      have m: "m \<le> rem" using got(3) by simp
      then have inp: "drop m ?p = drop (length body - (rem - m)) body"
        using r(3) by (simp add: diff_diff_right add.commute)
      define left where "left = drop m ?p @ rest"
      have lt: "length left < length input" using r(5) got by (simp add: left_def)
      define bs where "bs = take m ?p"
      note got = got [folded bs_def left_def r(5)]
      show ?thesis
      proof (cases "rem - m = 0")
        case True
        then have "left = rest" using m inp by (simp add: left_def)
        with True got l r(2,6) fs lt show ?thesis
          by (simp add: poll_discard_stream_payload_def finish_discarding_reservation_def poll_post_def Let_def)
      next
        case F2: False
        have "reading (k, body) rest c (DiscardStreamPayload (rem - m) oc) left (rd_core rd)"
          using r(1-4,6) inp unfolding left_def by auto
        moreover have nz: "(min rem DISCARD_SCRATCH_LEN = 0) = False" using l(1) by simp
        ultimately show ?thesis
          using got F2 lt
          by (simp add: poll_discard_stream_payload_def poll_post_def Let_def nz del: reading.simps)
      qed
    qed
  qed
qed

lemma reader_poll:
  fixes dec :: "byte list \<Rightarrow> 'm option"
  assumes "readable mx f" "state_inv (fst c)" "allocator_ok al" "pool_inv pool"
    "reading f rest c (rd_state rd) input (rd_core rd)"
  shows "\<exists>out rd' input' gs'. read_message_step_poll dec net_read al pool mx now block rd (input, gs) =
      Some (out, rd', (input', gs')) \<and> (gs' = gs \<or> gs' = tl gs) \<and>
      poll_post dec f rest c input gs rd out rd' input'"
proof -
  obtain k body where f: "f = (k, body)" by (rule prod.exhaust)
  note a = assms [unfolded f]
  show ?thesis
    unfolding f
  proof (cases "rd_state rd")
    case (ReadLen buf n)
    with poll_read_len_post [OF a(1,3,4), of rd buf n rest c input block gs dec] a(5)
    show "\<exists>out rd' input' gs'. read_message_step_poll dec net_read al pool mx now block rd (input, gs) =
      Some (out, rd', (input', gs')) \<and> (gs' = gs \<or> gs' = tl gs) \<and>
      poll_post dec (k, body) rest c input gs rd out rd' input'"
      by (auto simp: read_message_step_poll_def)
  next
    case (ReadBody len b n)
    with poll_read_body_post [of rd len b n k body rest c input dec block gs] a(5)
    show "\<exists>out rd' input' gs'. read_message_step_poll dec net_read al pool mx now block rd (input, gs) =
      Some (out, rd', (input', gs')) \<and> (gs' = gs \<or> gs' = tl gs) \<and>
      poll_post dec (k, body) rest c input gs rd out rd' input'"
      by (auto simp: read_message_step_poll_def)
  next
    case (ReadStreamMeta k' bl meta ml n)
    with poll_read_stream_meta_post [OF a(1,2), of rd k' bl meta ml n rest input now block gs dec] a(5)
    show "\<exists>out rd' input' gs'. read_message_step_poll dec net_read al pool mx now block rd (input, gs) =
      Some (out, rd', (input', gs')) \<and> (gs' = gs \<or> gs' = tl gs) \<and>
      poll_post dec (k, body) rest c input gs rd out rd' input'"
      by (auto simp: read_message_step_poll_def)
  next
    case (ReadStreamPayload res n)
    with poll_read_stream_payload_post [OF a(1,2), of rd res n rest input now block gs dec] a(5)
    show "\<exists>out rd' input' gs'. read_message_step_poll dec net_read al pool mx now block rd (input, gs) =
      Some (out, rd', (input', gs')) \<and> (gs' = gs \<or> gs' = tl gs) \<and>
      poll_post dec (k, body) rest c input gs rd out rd' input'"
      by (auto simp: read_message_step_poll_def)
  next
    case (DiscardStreamPayload rem oc)
    with poll_discard_post [of rd rem oc k body rest c input block gs dec] a(5)
    show "\<exists>out rd' input' gs'. read_message_step_poll dec net_read al pool mx now block rd (input, gs) =
      Some (out, rd', (input', gs')) \<and> (gs' = gs \<or> gs' = tl gs) \<and>
      poll_post dec (k, body) rest c input gs rd out rd' input'"
      by (auto simp: read_message_step_poll_def)
  qed
qed

section \<open>Runs\<close>

text \<open>A poll happens at a time, with the shared pool in some state, in blocking mode or not.\<close>

record poll_env =
  pe_now :: nat
  pe_pool :: AlignedBytesPool
  pe_block :: bool

fun run_reader ::
  "(byte list \<Rightarrow> 'm option) \<Rightarrow> allocator \<Rightarrow> usize \<Rightarrow> poll_env list \<Rightarrow> Reader \<Rightarrow> sock \<Rightarrow>
   (('m, byte list) MessageReadResult list \<times> GossipError option \<times> Reader \<times> sock) option" where
  "run_reader dec al mx [] rd s = Some ([], None, rd, s)"
| "run_reader dec al mx (e # es) rd s =
     (case read_message_step_poll dec net_read al (pe_pool e) mx (pe_now e) (pe_block e) rd s of
        None \<Rightarrow> None
      | Some (Pending, rd, s) \<Rightarrow> run_reader dec al mx es rd s
      | Some (Ready (Inl err), rd, s) \<Rightarrow> Some ([], Some err, rd, s)
      | Some (Ready (Inr p), rd, s) \<Rightarrow>
          map_option (\<lambda>(rs, rest). (case rp_result p of None \<Rightarrow> rs | Some r \<Rightarrow> r # rs, rest))
            (run_reader dec al mx es rd s))"

inductive frame_steps ::
  "(byte list \<Rightarrow> 'm option) \<Rightarrow> core \<Rightarrow> raw_frame list \<Rightarrow> ('m, byte list) MessageReadResult list \<Rightarrow> core \<Rightarrow> bool"
  for dec where
  none: "frame_steps dec c [] [] c"
| one: "\<lbrakk>frame_step dec c f (Inr r) c1; frame_steps dec c1 fs rs c2\<rbrakk>
   \<Longrightarrow> frame_steps dec c (f # fs) (case r of None \<Rightarrow> rs | Some x \<Rightarrow> x # rs) c2"

lemma frame_step_inv:
  assumes "frame_step dec c f r c'" "state_inv (fst c)" "readable mx f"
  shows "state_inv (fst c')"
  using assms
proof (induction rule: frame_step.induct)
  case (refused k ml t body st e st' routes)
  then show ?case
    using reserve_v5_stream_payload_post [of st k ml "length body" t "take ml body"]
    by (auto simp: readable_def)
next
  case (discarded k ml t body st st' routes)
  then show ?case
    using reserve_v5_stream_payload_post [of st k ml "length body" t "take ml body"]
    by (auto simp: readable_def)
next
  case (chunk k ml t body st r st' t' completed st'' routes)
  then have "state_inv st'" "r_len r = length (drop ml body)" "res_ok r st'"
    using reserve_v5_stream_payload_post [of st k ml "length body" t "take ml body"]
    by (auto simp: readable_def)
  with chunk.hyps(3) deliver_chunk_post [of st' r "drop ml body" t'] show ?case by auto
qed simp

fun positioned :: "raw_frame list \<Rightarrow> core \<Rightarrow> Reader \<Rightarrow> byte list \<Rightarrow> bool" where
  "positioned [] c rd input \<longleftrightarrow> rd_state rd = ReadState_new \<and> rd_core rd = c \<and> input = []"
| "positioned (f # fs) c rd input \<longleftrightarrow>
     reading f (concat (map frame_bytes fs)) c (rd_state rd) input (rd_core rd)"

lemma positioned_start:
  "rd_state rd = ReadState_new \<Longrightarrow> rd_core rd = c \<Longrightarrow> positioned fs c rd (concat (map frame_bytes fs))"
  using reading_start [of "hd fs" "concat (map frame_bytes (tl fs))" c] by (cases fs) simp_all

text \<open>The outcome of a run over \<open>fs\<close>: still inside a frame, stopped by the error of a frame, or at the
  end of the stream behind the last frame.\<close>

definition run_outcome ::
  "(byte list \<Rightarrow> 'm option) \<Rightarrow> core \<Rightarrow> raw_frame list \<Rightarrow> ('m, byte list) MessageReadResult list \<Rightarrow>
   GossipError option \<Rightarrow> Reader \<Rightarrow> byte list \<Rightarrow> bool" where
  "run_outcome dec c fs rs err rd input \<longleftrightarrow>
     (\<exists>read left c'. fs = read @ left \<and> frame_steps dec c read rs c' \<and>
        (case err of
           None \<Rightarrow> positioned left c' rd input
         | Some e \<Rightarrow>
             (\<exists>f left'. left = f # left' \<and> frame_step dec c' f (Inl e) (rd_core rd)) \<or>
             left = [] \<and> e = eof_in_length_prefix 0 \<and> rd_core rd = c'))"

lemma run_outcome_cons:
  assumes "frame_step dec c f (Inr r) c1" "run_outcome dec c1 fs rs err rd input"
  shows "run_outcome dec c (f # fs) (case r of None \<Rightarrow> rs | Some x \<Rightarrow> x # rs) err rd input"
proof -
  obtain read left c' where o: "fs = read @ left" "frame_steps dec c1 read rs c'"
    "case err of
       None \<Rightarrow> positioned left c' rd input
     | Some e \<Rightarrow> (\<exists>f left'. left = f # left' \<and> frame_step dec c' f (Inl e) (rd_core rd)) \<or>
         left = [] \<and> e = eof_in_length_prefix 0 \<and> rd_core rd = c'"
    using assms(2) by (auto simp: run_outcome_def)
  have "frame_steps dec c (f # read) (case r of None \<Rightarrow> rs | Some x \<Rightarrow> x # rs) c'"
    by (rule frame_steps.one [OF assms(1) o(2)])
  with o(1,3) show ?thesis
    unfolding run_outcome_def by (intro exI [of _ "f # read"] exI [of _ left] exI [of _ c']) simp
qed

lemma run_outcome_now:
  "positioned fs c rd input \<Longrightarrow> run_outcome dec c fs [] None rd input"
  unfolding run_outcome_def by (intro exI [of _ "[]"] exI [of _ fs] exI [of _ c]) (simp add: frame_steps.none)

lemma poll_at_end:
  assumes "rd_state rd = ReadState_new"
  shows "read_message_step_poll dec net_read al pool mx now block rd ([], gs) = Some
    (if gs = [] \<or> hd gs = None then on_pending block else Ready (Inl (eof_in_length_prefix 0)), rd, ([], tl gs))"
  using assms
  by (cases gs; cases "hd gs")
    (auto simp: read_message_step_poll_def ReadState_new_def poll_read_len_def poll_read_once_def
      LENGTH_PREFIX_LEN_def)

lemma positioned_poll:
  fixes dec :: "byte list \<Rightarrow> 'm option"
  assumes "\<forall>f \<in> set fs. readable mx f" "state_inv (fst c)" "allocator_ok al" "pool_inv pool"
    "positioned fs c rd input"
  obtains (blocked) out gs' where
      "read_message_step_poll dec net_read al pool mx now block rd (input, gs) = Some (out, rd, (input, gs'))"
      "out = Pending \<or> (\<exists>p. out = Ready (Inr p) \<and> rp_result p = None)" "gs = [] \<or> hd gs = None"
  | (failed) e rd' input' gs' where
      "read_message_step_poll dec net_read al pool mx now block rd (input, gs) =
         Some (Ready (Inl e), rd', (input', gs'))" "run_outcome dec c fs [] (Some e) rd' input'"
  | (inside) p rd' input' gs' where
      "read_message_step_poll dec net_read al pool mx now block rd (input, gs) =
         Some (Ready (Inr p), rd', (input', gs'))" "rp_result p = None" "positioned fs c rd' input'"
      "length input' < length input" "gs' = gs \<or> gs' = tl gs"
  | (finished) p rd' input' gs' f fs' where
      "read_message_step_poll dec net_read al pool mx now block rd (input, gs) =
         Some (Ready (Inr p), rd', (input', gs'))" "fs = f # fs'" "positioned fs' (rd_core rd') rd' input'"
      "length input' \<le> length input" "frame_step dec c f (Inr (rp_result p)) (rd_core rd')"
      "gs' = gs \<or> gs' = tl gs"
proof (cases fs)
  case Nil
  have p: "rd_state rd = ReadState_new" "rd_core rd = c" "input = []" using assms(5) Nil by simp_all
  note at_end = poll_at_end [OF p(1), of dec al pool mx now block gs, folded p(3)]
  show ?thesis
  proof (cases "gs = [] \<or> hd gs = None")
    case True
    with at_end blocked show ?thesis by (cases block) (auto simp: on_pending_def)
  next
    case False
    have "run_outcome dec c fs [] (Some (eof_in_length_prefix 0)) rd input"
      unfolding run_outcome_def Nil
      by (intro exI [of _ "[]"] exI [of _ c]) (simp add: frame_steps.none p(2))
    with at_end False failed show ?thesis by auto
  qed
next
  case F: (Cons f fs')
  let ?rest = "concat (map frame_bytes fs')"
  have f: "readable mx f" using assms(1) F by simp
  have rd: "reading f ?rest c (rd_state rd) input (rd_core rd)" using assms(5) F by simp
  from reader_poll [OF f assms(2-4) rd, of dec now block gs]
  obtain out rd1 input1 gs1 where
    step: "read_message_step_poll dec net_read al pool mx now block rd (input, gs) = Some (out, rd1, (input1, gs1))"
    "gs1 = gs \<or> gs1 = tl gs" and post: "poll_post dec f ?rest c input gs rd out rd1 input1"
    by blast
  show ?thesis
  proof (cases out)
    case Pending
    with post step blocked show ?thesis by (auto simp: poll_post_def)
  next
    case (Ready res)
    show ?thesis
    proof (cases res)
      case (Inl err)
      with post Ready have "frame_step dec c f (Inl err) (rd_core rd1)" by (simp add: poll_post_def)
      then have "run_outcome dec c fs [] (Some err) rd1 input1"
        unfolding run_outcome_def F
        by (intro exI [of _ "[]"] exI [of _ "f # fs'"] exI [of _ c]) (simp add: frame_steps.none)
      with step Ready Inl failed show ?thesis by simp
    next
      case (Inr p)
      note s = step(1) [unfolded Ready Inr]
      from post Ready Inr consider
        (moved) "rp_result p = None" "positioned fs c rd1 input1" "length input1 < length input"
      | (same) "rp_result p = None" "rd1 = rd" "input1 = input" "gs = [] \<or> hd gs = None"
      | (complete) "rd_state rd1 = ReadState_new" "input1 = ?rest" "length input1 \<le> length input"
          "frame_step dec c f (Inr (rp_result p)) (rd_core rd1)"
        unfolding poll_post_def F by auto
      then show ?thesis
      proof cases
        case moved
        then show ?thesis by (rule inside [OF s _ _ _ step(2)])
      next
        case same
        show ?thesis by (rule blocked [OF s [unfolded same(2,3)] _ same(4)]) (simp add: same(1))
      next
        case complete
        show ?thesis
          by (rule finished [OF s F _ complete(3,4) step(2)])
            (use positioned_start [OF complete(1) refl] complete(2) in simp)
      qed
    qed
  qed
qed

lemma run_reader_post:
  fixes dec :: "byte list \<Rightarrow> 'm option"
  assumes "\<forall>f \<in> set fs. readable mx f" "state_inv (fst c)" "allocator_ok al"
    "\<forall>e \<in> set es. pool_inv (pe_pool e)" "positioned fs c rd input"
  shows "\<exists>rs err rd' input' gs'. run_reader dec al mx es rd (input, gs) = Some (rs, err, rd', (input', gs')) \<and>
    run_outcome dec c fs rs err rd' input' \<and>
    (length input + length fs < length es \<longrightarrow> length es \<le> length gs \<longrightarrow> None \<notin> set gs \<longrightarrow> err \<noteq> None)"
  using assms
proof (induction es arbitrary: fs c rd input gs)
  case Nil
  from run_outcome_now [OF Nil.prems(5)] show ?case by simp
next
  case (Cons e es)
  have pool: "pool_inv (pe_pool e)" "\<forall>e \<in> set es. pool_inv (pe_pool e)" using Cons.prems(4) by simp_all
  have grant: "gs \<noteq> [] \<and> hd gs \<noteq> None" if "length (e # es) \<le> length gs" "None \<notin> set gs"
    using that by (cases gs; cases "hd gs") auto
  have tl: "length es \<le> length gs' \<and> None \<notin> set gs'"
    if "gs' = gs \<or> gs' = tl gs" "length (e # es) \<le> length gs" "None \<notin> set gs" for gs'
    using that by (cases gs) auto
  from Cons.prems(1-3) pool(1) Cons.prems(5) show ?case
  proof (cases rule: positioned_poll [where dec = dec and now = "pe_now e" and block = "pe_block e" and gs = gs])
    case (blocked out gs')
    from Cons.IH [OF Cons.prems(1-3) pool(2) Cons.prems(5), of gs'] obtain rs err rd' input' gs'' where
      "run_reader dec al mx es rd (input, gs') = Some (rs, err, rd', (input', gs''))"
      "run_outcome dec c fs rs err rd' input'" by blast
    with blocked grant show ?thesis by auto
  next
    case (failed err rd' input' gs')
    then show ?thesis by simp
  next
    case (inside p rd1 input1 gs1)
    from Cons.IH [OF Cons.prems(1-3) pool(2) inside(3), of gs1] obtain rs err rd' input' gs' where
      "run_reader dec al mx es rd1 (input1, gs1) = Some (rs, err, rd', (input', gs'))"
      "run_outcome dec c fs rs err rd' input'"
      "length input1 + length fs < length es \<longrightarrow> length es \<le> length gs1 \<longrightarrow> None \<notin> set gs1 \<longrightarrow> err \<noteq> None"
      by blast
    with inside tl [OF inside(5)] show ?thesis by auto
  next
    case (finished p rd1 input1 gs1 f fs')
    have f: "readable mx f" "\<forall>f \<in> set fs'. readable mx f" using Cons.prems(1) finished(2) by simp_all
    have inv: "state_inv (fst (rd_core rd1))" by (rule frame_step_inv [OF finished(5) Cons.prems(2) f(1)])
    from Cons.IH [OF f(2) inv Cons.prems(3) pool(2) finished(3), of gs1] obtain rs err rd' input' gs' where
      r: "run_reader dec al mx es rd1 (input1, gs1) = Some (rs, err, rd', (input', gs'))"
      "run_outcome dec (rd_core rd1) fs' rs err rd' input'"
      "length input1 + length fs' < length es \<longrightarrow> length es \<le> length gs1 \<longrightarrow> None \<notin> set gs1 \<longrightarrow> err \<noteq> None"
      by blast
    from run_outcome_cons [OF finished(5) r(2)] r(1,3) finished tl [OF finished(6)] show ?thesis by auto
  qed
qed
section \<open>Properties of the reader\<close>

abbreviation fresh_reader :: "StreamingState \<Rightarrow> RouteTable \<Rightarrow> Reader" where
  "fresh_reader st routes \<equiv> \<lparr> rd_state = ReadState_new, rd_streams = st, rd_routes = routes \<rparr>"

text \<open>C16. The incremental reader refines frame-at-a-time processing: on the bytes of any frames with
  acceptable control words, however the socket cuts or delays them, the reader never panics; the
  messages it has delivered are those of a prefix of the frames processed one at a time, and it is
  inside the next frame, or stopped with that frame's error, or at the end of the stream.\<close>

theorem reader_refines_frames:
  assumes "\<forall>f \<in> set frames. readable max_message_size f" "state_inv st" "allocator_ok al"
    "\<forall>e \<in> set polls. pool_inv (pe_pool e)"
  shows "\<exists>rs err rd input gs.
    run_reader dec al max_message_size polls (fresh_reader st routes)
      (concat (map frame_bytes frames), grants) = Some (rs, err, rd, (input, gs)) \<and>
    run_outcome dec (st, routes) frames rs err rd input"
proof -
  have "positioned frames (st, routes) (fresh_reader st routes) (concat (map frame_bytes frames))"
    by (rule positioned_start) simp_all
  from run_reader_post [OF assms(1) _ assms(3,4) this, of dec grants] assms(2) show ?thesis by auto
qed

text \<open>C17. With a socket that does not block, the reader gets through: after one poll more than there
  are bytes and frames, either all frames have been processed and the peer's close is reported as
  orderly, or a frame was refused with its own error.\<close>

theorem reader_finishes:
  assumes "\<forall>f \<in> set frames. readable max_message_size f" "state_inv st" "allocator_ok al"
    "\<forall>e \<in> set polls. pool_inv (pe_pool e)"
    and "length (concat (map frame_bytes frames)) + length frames < length polls"
      "length polls \<le> length grants" "None \<notin> set grants"
  shows "\<exists>rs e rd input gs.
    run_reader dec al max_message_size polls (fresh_reader st routes)
      (concat (map frame_bytes frames), grants) = Some (rs, Some e, rd, (input, gs)) \<and>
    (frame_steps dec (st, routes) frames rs (rd_core rd) \<and> e = eof_in_length_prefix 0 \<or>
     (\<exists>before f after c. frames = before @ f # after \<and> frame_steps dec (st, routes) before rs c \<and>
        frame_step dec c f (Inl e) (rd_core rd)))"
proof -
  have "positioned frames (st, routes) (fresh_reader st routes) (concat (map frame_bytes frames))"
    by (rule positioned_start) simp_all
  from run_reader_post [OF assms(1) _ assms(3,4) this, of dec grants] assms(2,5-7)
  obtain rs err rd input gs where r: "run_reader dec al max_message_size polls (fresh_reader st routes)
      (concat (map frame_bytes frames), grants) = Some (rs, err, rd, (input, gs))"
    "run_outcome dec (st, routes) frames rs err rd input" "err \<noteq> None"
    by auto
  then obtain e where "err = Some e" by blast
  with r show ?thesis
    by (auto simp: run_outcome_def simp del: split_paired_Ex split_paired_All)
qed

definition plain_allocator :: allocator where
  "plain_allocator = \<lparr> al_with_capacity = (\<lambda>n. \<lparr> ab_block = 1, ab_capacity = n, ab_data = [] \<rparr>),
     al_reserve = (\<lambda>n b. b \<lparr> ab_capacity := length (ab_data b) + n \<rparr>) \<rparr>"

definition some_poll :: poll_env where
  "some_poll = \<lparr> pe_now = 5,
     pe_pool = \<lparr> pool_queue = [], pool_queue_cap = 1, pool_retained = 0, pool_budget = 0 \<rparr>,
     pe_block = False \<rparr>"

lemma witness_setting:
  "allocator_ok plain_allocator" "pool_inv (pe_pool some_poll)"
  "readable 64 (WK_StreamAbort, [0, 0, 0, 4, 0, 0, 0, 1])"
  by (simp_all add: allocator_ok_def plain_allocator_def pool_inv_def some_poll_def readable_def)

theorem reader_refines_frames_witness:
  "\<exists>rs err rd input gs.
    run_reader (\<lambda>_. None :: unit option) plain_allocator 64 [some_poll, some_poll]
      (fresh_reader streaming_state_new route_table_new)
      (concat (map frame_bytes [(WK_StreamAbort, [0, 0, 0, 4, 0, 0, 0, 1])]), [Some 2, Some 7]) =
      Some (rs, err, rd, (input, gs)) \<and>
    run_outcome (\<lambda>_. None) (streaming_state_new, route_table_new)
      [(WK_StreamAbort, [0, 0, 0, 4, 0, 0, 0, 1])] rs err rd input"
  by (rule reader_refines_frames) (simp_all add: witness_setting state_inv_new)

theorem reader_finishes_witness:
  "\<exists>rs e rd input gs.
    run_reader (\<lambda>_. None :: unit option) plain_allocator 64 (replicate 14 some_poll)
      (fresh_reader streaming_state_new route_table_new)
      (concat (map frame_bytes [(WK_StreamAbort, [0, 0, 0, 4, 0, 0, 0, 1])]), replicate 14 (Some 0)) =
      Some (rs, Some e, rd, (input, gs)) \<and>
    (frame_steps (\<lambda>_. None) (streaming_state_new, route_table_new)
       [(WK_StreamAbort, [0, 0, 0, 4, 0, 0, 0, 1])] rs (rd_core rd) \<and> e = eof_in_length_prefix 0 \<or>
     (\<exists>before f after c. [(WK_StreamAbort, [0, 0, 0, 4, 0, 0, 0, 1])] = before @ f # after \<and>
        frame_steps (\<lambda>_. None) (streaming_state_new, route_table_new) before rs c \<and>
        frame_step (\<lambda>_. None :: unit option) c f (Inl e) (rd_core rd)))"
  by (rule reader_finishes) (simp_all add: witness_setting state_inv_new)
section \<open>A stream reaped in the middle of a chunk\<close>

lemma mark_reap_total:
  assumes "state_inv st"
  shows "\<exists>st'. finish_discarding_reservation st oc = Some st' \<and> state_inv st' \<and>
    active_streams st' = active_streams st"
  using assms tombstone_chunk_inv [OF assms]
  by (fastforce simp: finish_discarding_reservation_def mark_reap_discarded_chunk_received_def
      split: option.split prod.split)

lemma discard_drains:
  assumes "rd_state rd = DiscardStreamPayload (length p) oc"
    "finish_discarding_reservation (rd_streams rd) oc = Some st'"
    "max 1 (length p) \<le> length polls" "length polls \<le> length gs" "None \<notin> set gs"
  shows "\<exists>i gs'. i \<le> length polls \<and> run_reader dec al mx (take i polls) rd (p @ rest, gs) =
    Some ([], None, rd \<lparr> rd_state := ReadState_new, rd_streams := st' \<rparr>, (rest, gs'))"
  using assms
proof (induction polls arbitrary: rd p gs)
  case (Cons e es)
  obtain k gs' where gs: "gs = Some k # gs'" using Cons.prems(4,5) by (cases gs; cases "hd gs") auto
  let ?m = "min (Suc k) (min (length p) DISCARD_SCRATCH_LEN)"
  show ?case
  proof (cases "length p \<le> ?m")
    case True
    have "read_message_step_poll dec net_read al (pe_pool e) mx (pe_now e) (pe_block e) rd (p @ rest, gs) =
      Some (progressed None, rd \<lparr> rd_state := ReadState_new, rd_streams := st' \<rparr>,
        (rest, if p = [] then gs else gs'))"
      using Cons.prems(1,2) gs True
      by (auto simp: read_message_step_poll_def poll_discard_stream_payload_def poll_read_once_def Let_def
          DISCARD_SCRATCH_LEN_def)
    then show ?thesis by (intro exI [of _ 1]) simp
  next
    case False
    let ?rd = "rd \<lparr> rd_state := DiscardStreamPayload (length (drop ?m p)) oc \<rparr>"
    have m: "0 < ?m" "?m < length p" using False by (auto simp: DISCARD_SCRATCH_LEN_def)
    have step: "read_message_step_poll dec net_read al (pe_pool e) mx (pe_now e) (pe_block e) rd (p @ rest, gs) =
      Some (progressed None, ?rd, (drop ?m p @ rest, gs'))"
      using Cons.prems(1,2) gs m
      by (auto simp: read_message_step_poll_def poll_discard_stream_payload_def poll_read_once_def Let_def)
    have "finish_discarding_reservation (rd_streams ?rd) oc = Some st'" "max 1 (length (drop ?m p)) \<le> length es"
      "length es \<le> length gs'" "None \<notin> set gs'"
      using Cons.prems(2-5) gs m by auto
    from Cons.IH [OF _ this] obtain i gs'' where "i \<le> length es"
      "run_reader dec al mx (take i es) ?rd (drop ?m p @ rest, gs') =
        Some ([], None, ?rd \<lparr> rd_state := ReadState_new, rd_streams := st' \<rparr>, (rest, gs''))"
      by auto
    with step show ?thesis by (intro exI [of _ "Suc i"]) simp
  qed
qed simp

text \<open>C18. A stream reaped while a chunk of it is being read does not disturb the framing: the
  reader drains exactly the rest of that chunk, touches no stream being assembled, credits the
  chunk to the tombstone, and stands at the start of the next frame.\<close>

theorem reaped_chunk_is_drained:
  assumes "rd_state rd = ReadStreamPayload r n" "lookup_active (rd_streams rd) (r_stream_id r) = None"
    "state_inv (rd_streams rd)" "length p = r_len r - n"
    and "length p + 2 \<le> length polls" "length polls \<le> length grants" "None \<notin> set grants"
  shows "\<exists>i st gs. i \<le> length polls \<and>
    run_reader dec al max_message_size (take i polls) rd (p @ rest, grants) =
      Some ([], None, rd \<lparr> rd_state := ReadState_new, rd_streams := st \<rparr>, (rest, gs)) \<and>
    mark_reap_discarded_chunk_received (r_stream_id r) (r_chunk_index r) (rd_streams rd) = Some st \<and>
    active_streams st = active_streams (rd_streams rd)"
proof -
  let ?oc = "Some (r_stream_id r, r_chunk_index r)"
  let ?rd = "rd \<lparr> rd_state := DiscardStreamPayload (length p) ?oc \<rparr>"
  obtain e es where es: "polls = e # es" using assms(5) by (cases polls) auto
  obtain st where st: "finish_discarding_reservation (rd_streams rd) ?oc = Some st"
    "active_streams st = active_streams (rd_streams rd)"
    using mark_reap_total [OF assms(3), of ?oc] by blast
  have step: "read_message_step_poll dec net_read al (pe_pool e) max_message_size (pe_now e) (pe_block e) rd
      (p @ rest, grants) = Some (progressed None, ?rd, (p @ rest, grants))"
    using assms(1,2,4)
    by (simp add: read_message_step_poll_def poll_read_stream_payload_def v5_chunk_target_def
        is_stream_reaped_error_def discard_remainder_of_reservation_def)
  obtain i gs where "i \<le> length es" "run_reader dec al max_message_size (take i es) ?rd (p @ rest, grants) =
      Some ([], None, ?rd \<lparr> rd_state := ReadState_new, rd_streams := st \<rparr>, (rest, gs))"
    using discard_drains [of ?rd p ?oc st es grants dec al max_message_size rest] st(1) assms(5-7) es by auto
  with step st es show ?thesis
    by (intro exI [of _ "Suc i"] exI [of _ st] exI [of _ gs]) (simp add: finish_discarding_reservation_def)
qed

theorem reaped_chunk_is_drained_witness:
  "\<exists>st0. reject_stream 7 12 4 streaming_state_new = Some (True, st0) \<and> lookup_rejected st0 7 = Some (tombstone_rejected 12 4) \<and>
   (\<exists>i st gs. i \<le> 5 \<and>
    run_reader (\<lambda>_. None :: unit option) plain_allocator 64 (take i (replicate 5 some_poll))
      \<lparr> rd_state = ReadStreamPayload \<lparr> r_stream_id = 7, r_chunk_index = 1, r_offset = 4, r_len = 4 \<rparr> 1,
         rd_streams = st0, rd_routes = route_table_new \<rparr>
      ([1, 2, 3] @ [9], replicate 5 (Some 0)) =
      Some ([], None, \<lparr> rd_state = ReadState_new, rd_streams = st, rd_routes = route_table_new \<rparr>, ([9], gs)) \<and>
    tombstone_chunk 7 1 (tombstone_rejected 12 4) st0 = Some st)"
proof -
  have "\<exists>st0. reject_stream 7 12 4 streaming_state_new = Some (True, st0) \<and>
      lookup_rejected st0 7 = (if div_ceil (unat (12 :: u64)) 4 \<le> 1 then None else Some (tombstone_rejected 12 4))"
    using state_inv_new
    by (intro reject_stream_eq) (simp_all add: state_inv_def streaming_state_new_def REJECTED_STREAMS_ENTRY_BUDGET_def
        REJECTED_STREAMS_BITMAP_WORD_BUDGET_def bitmap_words_for_def div_ceil_def tombstone_words_def)
  then obtain st0 where st0: "reject_stream 7 12 4 streaming_state_new = Some (True, st0)"
      "lookup_rejected st0 7 = Some (tombstone_rejected 12 4)"
    by (auto simp: div_ceil_def)
  with reject_stream_inv [OF state_inv_new, of 4 7 12]
  have "state_inv st0" "active_streams st0 = []" by (auto simp: streaming_state_new_def)
  with st0 show ?thesis
    using reaped_chunk_is_drained [of "\<lparr> rd_state = ReadStreamPayload \<lparr> r_stream_id = 7, r_chunk_index = 1,
      r_offset = 4, r_len = 4 \<rparr> 1, rd_streams = st0, rd_routes = route_table_new \<rparr>"
      "\<lparr> r_stream_id = 7, r_chunk_index = 1, r_offset = 4, r_len = 4 \<rparr>" 1 "[1, 2, 3]"
      "replicate 5 some_poll" "replicate 5 (Some 0)" "\<lambda>_. None :: unit option" plain_allocator 64 "[9]"]
    by (auto simp: mark_reap_discarded_chunk_received_def)
qed

end
