(* ===== verification/Addr_Ownership.thy ===== *)
theory Addr_Ownership
  imports Wire_Types
begin

text \<open>
  The arbitration core of \<^verbatim>\<open>src/addr_ownership.rs\<close>: who may own an address, decided from
  the recorded owner and an incoming claim. The single-owner actor of \<open>Registry_Owner\<close> is
  its only caller.
\<close>

subsection \<open>Claims and owners\<close>

datatype ClaimKind = Verified | Provisional

record Owner =
  node_id :: PeerId
  kind :: ClaimKind

record Claim =
  claimant :: PeerId
  claim_kind :: ClaimKind

datatype RejectReason = LocalAddress | UnverifiedAddress | VerifiedOwnerPresent | ProvisionalFirstCome

datatype Decision = Accept | Reject RejectReason

datatype AddrClaimOutcome = AddrAccepted | AddrRejected

subsection \<open>Arbitration\<close>

definition arbitrate :: "Owner option \<Rightarrow> Claim \<Rightarrow> bool \<Rightarrow> Decision" where
  "arbitrate current cl is_local_addr =
     (if is_local_addr then Reject LocalAddress
      else case current of
        None \<Rightarrow> if claim_kind cl = Provisional then Reject UnverifiedAddress else Accept
      | Some w \<Rightarrow>
          if node_id w = claimant cl then Accept
          else if kind w = Verified then Reject VerifiedOwnerPresent
          else (case claim_kind cl of
                  Verified \<Rightarrow> Accept
                | Provisional \<Rightarrow> Reject ProvisionalFirstCome))"

definition resolved_kind :: "Owner option \<Rightarrow> Claim \<Rightarrow> ClaimKind" where
  "resolved_kind current cl =
     (case current of
        Some w \<Rightarrow> if node_id w = claimant cl \<and> kind w = Verified then Verified else claim_kind cl
      | None \<Rightarrow> claim_kind cl)"

lemma arbitrate_verified_iff:
  assumes "\<And>w. current = Some w \<Longrightarrow> kind w = Verified"
  shows "arbitrate current cl loc = Accept \<longleftrightarrow> \<not> loc \<and>
     (case current of None \<Rightarrow> claim_kind cl = Verified | Some w \<Rightarrow> node_id w = claimant cl)"
  using assms by (cases "claim_kind cl") (auto simp: arbitrate_def split: option.split)

lemma resolved_verified:
  assumes "arbitrate current cl loc = Accept" and "\<And>w. current = Some w \<Longrightarrow> kind w = Verified"
  shows "resolved_kind current cl = Verified"
  using assms
  by (cases "claim_kind cl") (auto simp: arbitrate_def resolved_kind_def split: option.splits if_splits)

end
