(* ===== verification/Registry_Owner.thy ===== *)
theory Registry_Owner
  imports Addr_Ownership
begin

text \<open>
  The single-owner actor of \<^verbatim>\<open>src/registry_owner.rs\<close>: the task that owns the table "which
  identity holds which address", its operator pins, its connection-scoped receipts, its
  reap reservations and the lock-free snapshot it publishes. Each handler is a function of
  the task's state; the task handles one command at a time.

  The sharding hash of the standard library (whose algorithm its documentation leaves open)
  is the argument \<open>h\<close>. A hash map that is only looked up is a map, one that is iterated an
  association list. The \<open>Arc<AtomicU8>\<close> cells shared between the task and the reservation
  guards are a store (\<open>reap_cells\<close>) addressed by index. The weak reference to the routing
  publisher is \<open>None\<close> once the pool is gone and otherwise the list of calls made on it.
  Commit positions are natural numbers: the \<open>u64\<close> counter advances by at most one per
  retracted or committed address and does not wrap in the life of a process.
\<close>

subsection \<open>Tokens, outcomes and receipts\<close>

type_synonym CommitSeq = nat
type_synonym Instant = nat
type_synonym hasher = "SocketAddr \<Rightarrow> u64"

definition OWNER_MAILBOX_CAPACITY :: usize where
  "OWNER_MAILBOX_CAPACITY = 512"

definition REAP_PENDING :: u8 where "REAP_PENDING = 0"
definition REAP_COMMITTED :: u8 where "REAP_COMMITTED = 1"
definition REAP_INVALIDATED :: u8 where "REAP_INVALIDATED = 2"

lemma reap_states_distinct [simp]:
  "REAP_PENDING \<noteq> REAP_COMMITTED" "REAP_COMMITTED \<noteq> REAP_PENDING"
  "REAP_PENDING \<noteq> REAP_INVALIDATED" "REAP_INVALIDATED \<noteq> REAP_PENDING"
  "REAP_COMMITTED \<noteq> REAP_INVALIDATED" "REAP_INVALIDATED \<noteq> REAP_COMMITTED"
  by (simp_all add: REAP_PENDING_def REAP_COMMITTED_def REAP_INVALIDATED_def)

record OwnershipToken =
  token_owner :: PeerId
  token_generation :: CommitSeq

datatype SourceExpectation = Unowned | Owned OwnershipToken

datatype ClaimRejection =
    Arbitration RejectReason | OwnerUnavailable | ReapInProgress | SupersededByNewerConfiguration

datatype DeadPeerReleaseOutcome = Released CommitSeq | ProvenAlive | NotApplicable

record ClaimReceipt =
  receipt_generation :: CommitSeq
  receipt_created :: bool

datatype ClaimCommit =
    Accepted (accepted_kind: ClaimKind) (accepted_displaced: "PeerId option")
      (accepted_created: bool) (accepted_seq: CommitSeq)
  | Rejected ClaimRejection

fun outcome :: "ClaimCommit \<Rightarrow> AddrClaimOutcome" where
  "outcome (Accepted k d c q) = AddrAccepted"
| "outcome (Rejected r) = AddrRejected"

fun is_accepted :: "ClaimCommit \<Rightarrow> bool" where
  "is_accepted (Accepted k d c q) = True"
| "is_accepted (Rejected r) = False"

fun claim_commit_seq :: "ClaimCommit \<Rightarrow> CommitSeq option" where
  "claim_commit_seq (Accepted k d c q) = Some q"
| "claim_commit_seq (Rejected r) = None"

fun receipt :: "ClaimCommit \<Rightarrow> ClaimReceipt option" where
  "receipt (Accepted k d c q) = Some \<lparr>receipt_generation = q, receipt_created = c\<rparr>"
| "receipt (Rejected r) = None"

fun owner_changed :: "ClaimCommit \<Rightarrow> bool" where
  "owner_changed (Accepted k d c q) = (d \<noteq> None)"
| "owner_changed (Rejected r) = False"

fun is_verified :: "ClaimCommit \<Rightarrow> bool" where
  "is_verified (Accepted k d c q) = (k = Verified)"
| "is_verified (Rejected r) = False"

datatype MigrateOutcome =
    Migrated CommitSeq | SourceUnowned | TargetOwnedByOther | TargetIsLocal
  | SourceOwnerMismatch | MigrateReapInProgress

fun is_blocked :: "MigrateOutcome \<Rightarrow> bool" where
  "is_blocked (Migrated q) = False"
| "is_blocked SourceUnowned = False"
| "is_blocked TargetOwnedByOther = True"
| "is_blocked TargetIsLocal = True"
| "is_blocked SourceOwnerMismatch = True"
| "is_blocked MigrateReapInProgress = True"

fun migrate_commit_seq :: "MigrateOutcome \<Rightarrow> CommitSeq option" where
  "migrate_commit_seq (Migrated q) = Some q"
| "migrate_commit_seq _ = None"

record ConfigurePeerCommit =
  configured_claim :: ClaimCommit
  evicted_pin :: "SocketAddr option"
  evicted_release_seq :: "CommitSeq option"
  configured_generation :: nat

datatype RoutingCall =
    PublishOwner SocketAddr PeerId
  | RetractOwner SocketAddr PeerId
  | SetConfiguredPeerAddr SocketAddr PeerId "SocketAddr option"

subsection \<open>The published snapshot\<close>

definition ROUTING_SNAPSHOT_SHARDS :: usize where
  "ROUTING_SNAPSHOT_SHARDS = 64"

record PublishedOwner =
  pub_owner :: Owner
  pub_generation :: CommitSeq

record RoutingSnapshot =
  owner_shards :: "(SocketAddr \<times> PublishedOwner) list list"
  pin_shards :: "(SocketAddr \<times> PeerId) list list"
  snap_pinned_by_peer :: "(PeerId \<times> SocketAddr) list"

definition RoutingSnapshot_default :: RoutingSnapshot where
  "RoutingSnapshot_default =
     \<lparr>owner_shards = replicate ROUTING_SNAPSHOT_SHARDS [],
      pin_shards = replicate ROUTING_SNAPSHOT_SHARDS [],
      snap_pinned_by_peer = []\<rparr>"

definition shard_index :: "hasher \<Rightarrow> SocketAddr \<Rightarrow> usize" where
  "shard_index h addr = unat (h addr) mod ROUTING_SNAPSHOT_SHARDS"

definition published :: "hasher \<Rightarrow> RoutingSnapshot \<Rightarrow> SocketAddr \<Rightarrow> PublishedOwner option" where
  "published h sn addr = map_of (owner_shards sn ! shard_index h addr) addr"

definition snap_owner :: "hasher \<Rightarrow> RoutingSnapshot \<Rightarrow> SocketAddr \<Rightarrow> Owner option" where
  "snap_owner h sn addr = map_option pub_owner (published h sn addr)"

definition snap_peer_id :: "hasher \<Rightarrow> RoutingSnapshot \<Rightarrow> SocketAddr \<Rightarrow> PeerId option" where
  "snap_peer_id h sn addr = map_option node_id (snap_owner h sn addr)"

definition snap_ownership_token ::
  "hasher \<Rightarrow> RoutingSnapshot \<Rightarrow> SocketAddr \<Rightarrow> OwnershipToken option" where
  "snap_ownership_token h sn addr =
     map_option (\<lambda>p. \<lparr>token_owner = node_id (pub_owner p), token_generation = pub_generation p\<rparr>)
       (published h sn addr)"

definition claim_is_current ::
  "hasher \<Rightarrow> RoutingSnapshot \<Rightarrow> SocketAddr \<Rightarrow> PeerId \<Rightarrow> CommitSeq \<Rightarrow> bool" where
  "claim_is_current h sn addr p gen =
     (case published h sn addr of
        None \<Rightarrow> False
      | Some q \<Rightarrow> node_id (pub_owner q) = p \<and> pub_generation q = gen)"

definition snap_len :: "RoutingSnapshot \<Rightarrow> usize" where
  "snap_len sn = sum_list (map length (owner_shards sn))"

definition snap_is_empty :: "RoutingSnapshot \<Rightarrow> bool" where
  "snap_is_empty sn = list_all (\<lambda>shard. shard = []) (owner_shards sn)"

definition with_owner ::
  "hasher \<Rightarrow> SocketAddr \<Rightarrow> (Owner \<times> CommitSeq) option \<Rightarrow> RoutingSnapshot \<Rightarrow> RoutingSnapshot" where
  "with_owner h addr w sn =
     (let i = shard_index h addr; shard = owner_shards sn ! i;
          shard' = (case w of
              Some (wn, gen) \<Rightarrow> AList.update addr \<lparr>pub_owner = wn, pub_generation = gen\<rparr> shard
            | None \<Rightarrow> AList.delete addr shard)
      in sn\<lparr>owner_shards := (owner_shards sn)[i := shard']\<rparr>)"

definition pin_owner :: "hasher \<Rightarrow> RoutingSnapshot \<Rightarrow> SocketAddr \<Rightarrow> PeerId option" where
  "pin_owner h sn addr = map_of (pin_shards sn ! shard_index h addr) addr"

definition pin_is_current :: "hasher \<Rightarrow> RoutingSnapshot \<Rightarrow> SocketAddr \<Rightarrow> PeerId \<Rightarrow> bool" where
  "pin_is_current h sn addr p = (pin_owner h sn addr = Some p)"

definition pinned_addr_for :: "RoutingSnapshot \<Rightarrow> PeerId \<Rightarrow> SocketAddr option" where
  "pinned_addr_for sn p = map_of (snap_pinned_by_peer sn) p"

definition with_pin ::
  "hasher \<Rightarrow> SocketAddr \<Rightarrow> PeerId option \<Rightarrow> RoutingSnapshot \<Rightarrow> RoutingSnapshot" where
  "with_pin h addr pin sn =
     (let i = shard_index h addr; shard = pin_shards sn ! i; rev = snap_pinned_by_peer sn
      in case pin of
           Some p \<Rightarrow>
             let rev' = (case map_of shard addr of
                           Some q \<Rightarrow> if q \<noteq> p then AList.delete q rev else rev
                         | None \<Rightarrow> rev)
             in sn\<lparr>pin_shards := (pin_shards sn)[i := AList.update addr p shard],
                   snap_pinned_by_peer := AList.update p addr rev'\<rparr>
         | None \<Rightarrow>
             let rev' = (case map_of shard addr of
                           Some q \<Rightarrow> if map_of rev q = Some addr then AList.delete q rev else rev
                         | None \<Rightarrow> rev)
             in sn\<lparr>pin_shards := (pin_shards sn)[i := AList.delete addr shard],
                   snap_pinned_by_peer := rev'\<rparr>)"

subsection \<open>The state of the task\<close>

type_synonym receipts = "((PeerId \<times> u64 \<times> SocketAddr) \<times> CommitSeq) list"

record PeerRegistryOwner =
  addr_ownership :: "SocketAddr \<rightharpoonup> Owner"
  claim_generation :: "SocketAddr \<rightharpoonup> CommitSeq"
  claim_committed_at :: "SocketAddr \<rightharpoonup> Instant"
  connection_scoped_claims :: receipts
  operator_pinned :: "SocketAddr \<rightharpoonup> PeerId"
  pinned_by_peer :: "PeerId \<rightharpoonup> SocketAddr"
  reap_reserved :: "SocketAddr \<rightharpoonup> nat"
  reap_cells :: "u8 list"
  liveness_evidence_at :: "SocketAddr \<rightharpoonup> Instant"
  configure_peer_generation :: "PeerId \<rightharpoonup> nat"
  snapshot :: RoutingSnapshot
  routing :: "RoutingCall list option"
  commit_seq :: CommitSeq

definition new_owner :: PeerRegistryOwner where
  "new_owner =
     \<lparr>addr_ownership = Map.empty, claim_generation = Map.empty, claim_committed_at = Map.empty,
      connection_scoped_claims = [], operator_pinned = Map.empty, pinned_by_peer = Map.empty,
      reap_reserved = Map.empty, reap_cells = [], liveness_evidence_at = Map.empty,
      configure_peer_generation = Map.empty, snapshot = RoutingSnapshot_default,
      routing = Some [], commit_seq = 0\<rparr>"

definition routing_call :: "RoutingCall \<Rightarrow> PeerRegistryOwner \<Rightarrow> PeerRegistryOwner" where
  "routing_call c s = s\<lparr>routing := map_option (\<lambda>cs. cs @ [c]) (routing s)\<rparr>"

definition advance :: "PeerRegistryOwner \<Rightarrow> CommitSeq \<times> PeerRegistryOwner" where
  "advance s = (commit_seq s + 1, s\<lparr>commit_seq := commit_seq s + 1\<rparr>)"

definition publish_owner_snapshot ::
  "hasher \<Rightarrow> SocketAddr \<Rightarrow> (Owner \<times> CommitSeq) option \<Rightarrow> PeerRegistryOwner \<Rightarrow> PeerRegistryOwner" where
  "publish_owner_snapshot h addr w s = s\<lparr>snapshot := with_owner h addr w (snapshot s)\<rparr>"

subsection \<open>Claims\<close>

text \<open>The loop of \<open>claim\<close> and of \<open>migrate\<close> that moves the live receipts to a new generation.\<close>

definition sync_receipts :: "PeerId \<Rightarrow> SocketAddr \<Rightarrow> CommitSeq \<Rightarrow> receipts \<Rightarrow> receipts" where
  "sync_receipts p addr gen rs =
     map (\<lambda>(key, g). (key, if fst key = p \<and> snd (snd key) = addr then gen else g)) rs"

definition claim ::
  "hasher \<Rightarrow> SocketAddr \<Rightarrow> Claim \<Rightarrow> bool \<Rightarrow> PeerRegistryOwner \<Rightarrow> ClaimCommit \<times> PeerRegistryOwner" where
  "claim h addr cl is_local_addr s =
     (if reap_reserved s addr \<noteq> None then (Rejected ReapInProgress, s)
      else
        let current = addr_ownership s addr
        in case arbitrate current cl is_local_addr of
             Reject reason \<Rightarrow> (Rejected (Arbitration reason), s)
           | Accept \<Rightarrow>
               let created = (current = None);
                   k = resolved_kind current cl;
                   displaced = (case current of
                       Some w \<Rightarrow> if node_id w \<noteq> claimant cl then Some (node_id w) else None
                     | None \<Rightarrow> None);
                   next_owner = \<lparr>node_id = claimant cl, kind = k\<rparr>;
                   changed = (current \<noteq> Some next_owner);
                   s1 = (if changed
                         then s\<lparr>addr_ownership := (addr_ownership s)(addr \<mapsto> next_owner)\<rparr> else s);
                   (gen, s2) = advance s1;
                   s3 = s2\<lparr>claim_generation := (claim_generation s2)(addr \<mapsto> gen)\<rparr>;
                   s4 = s3\<lparr>connection_scoped_claims :=
                            sync_receipts (claimant cl) addr gen (connection_scoped_claims s3)\<rparr>;
                   s5 = publish_owner_snapshot h addr (Some (next_owner, gen)) s4;
                   s6 = (if changed then routing_call (PublishOwner addr (claimant cl)) s5 else s5)
               in (Accepted k displaced created gen, s6))"

definition claim_connection_scoped ::
  "hasher \<Rightarrow> SocketAddr \<Rightarrow> Claim \<Rightarrow> SocketAddr \<Rightarrow> u64 \<Rightarrow> Instant \<Rightarrow> PeerRegistryOwner \<Rightarrow>
   ClaimCommit \<times> PeerRegistryOwner" where
  "claim_connection_scoped h addr cl session_source instance_id evidence_at s =
     (let (commit, s1) = claim h addr cl False s;
          s2 = (if is_accepted commit
                then s1\<lparr>claim_committed_at := (claim_committed_at s1)(addr \<mapsto> evidence_at)\<rparr> else s1)
      in if operator_pinned s2 addr = Some (claimant cl) then (commit, s2)
         else case commit of
                Accepted k d c gen \<Rightarrow>
                  (commit, s2\<lparr>connection_scoped_claims :=
                     AList.update (claimant cl, instance_id, addr) gen (connection_scoped_claims s2)\<rparr>)
              | Rejected r \<Rightarrow> (commit, s2))"

subsection \<open>Releases\<close>

text \<open>
  The shared tail of every path that drops a recorded owner; the caller has removed it from
  \<open>addr_ownership\<close>.
\<close>

definition retract_owner ::
  "hasher \<Rightarrow> SocketAddr \<Rightarrow> Owner \<Rightarrow> PeerRegistryOwner \<Rightarrow> CommitSeq \<times> PeerRegistryOwner" where
  "retract_owner h addr w s =
     (let s1 = s\<lparr>claim_generation := (claim_generation s)(addr := None),
                 claim_committed_at := (claim_committed_at s)(addr := None),
                 liveness_evidence_at := (liveness_evidence_at s)(addr := None),
                 connection_scoped_claims :=
                   filter (\<lambda>(key, _). snd (snd key) \<noteq> addr) (connection_scoped_claims s)\<rparr>;
          (gen, s2) = advance s1;
          s3 = publish_owner_snapshot h addr None s2;
          s4 = routing_call (RetractOwner addr (node_id w)) s3
      in (gen, s4))"

definition drop_owner :: "hasher \<Rightarrow> SocketAddr \<Rightarrow> Owner \<Rightarrow> PeerRegistryOwner \<Rightarrow> CommitSeq \<times> PeerRegistryOwner" where
  "drop_owner h addr w s =
     retract_owner h addr w (s\<lparr>addr_ownership := (addr_ownership s)(addr := None)\<rparr>)"

definition release ::
  "hasher \<Rightarrow> SocketAddr \<Rightarrow> PeerId \<Rightarrow> CommitSeq \<Rightarrow> PeerRegistryOwner \<Rightarrow>
   CommitSeq option \<times> PeerRegistryOwner" where
  "release h addr expected_owner expected_generation s =
     (if operator_pinned s addr \<noteq> None then (None, s)
      else case addr_ownership s addr of
             None \<Rightarrow> (None, s)
           | Some w \<Rightarrow>
               if node_id w = expected_owner \<and> claim_generation s addr = Some expected_generation
               then (case drop_owner h addr w s of (gen, s') \<Rightarrow> (Some gen, s'))
               else (None, s))"

fun release_uncovered ::
  "hasher \<Rightarrow> PeerId \<Rightarrow> SocketAddr list \<Rightarrow> PeerRegistryOwner \<Rightarrow>
   (SocketAddr \<times> CommitSeq) list \<times> PeerRegistryOwner" where
  "release_uncovered h p [] s = ([], s)"
| "release_uncovered h p (addr # addrs) s =
     (if operator_pinned s addr \<noteq> None then release_uncovered h p addrs s
      else case addr_ownership s addr of
             None \<Rightarrow> release_uncovered h p addrs s
           | Some w \<Rightarrow>
               if node_id w = p
               then (case drop_owner h addr w s of (gen, s1) \<Rightarrow>
                       (case release_uncovered h p addrs s1 of (rs, s2) \<Rightarrow> ((addr, gen) # rs, s2)))
               else release_uncovered h p addrs s)"

definition release_session ::
  "hasher \<Rightarrow> PeerId \<Rightarrow> SocketAddr \<Rightarrow> u64 \<Rightarrow> PeerRegistryOwner \<Rightarrow>
   (SocketAddr \<times> CommitSeq) list \<times> PeerRegistryOwner" where
  "release_session h p session_source instance_id s =
     (let mine = (\<lambda>(key, _). fst key = p \<and> fst (snd key) = instance_id);
          own_entries = map (\<lambda>(key, _). snd (snd key)) (filter mine (connection_scoped_claims s));
          rest = filter (\<lambda>e. \<not> mine e) (connection_scoped_claims s);
          s1 = s\<lparr>connection_scoped_claims := rest\<rparr>;
          no_longer_covered =
            filter (\<lambda>addr. \<not> list_ex (\<lambda>(key, _). fst key = p \<and> snd (snd key) = addr) rest) own_entries
      in release_uncovered h p no_longer_covered s1)"

subsection \<open>Liveness evidence and reap reservations\<close>

text \<open>A compare-and-swap on a shared cell: whether it succeeded, and the store after it.\<close>

definition compare_exchange :: "nat \<Rightarrow> u8 \<Rightarrow> u8 \<Rightarrow> u8 list \<Rightarrow> bool \<times> u8 list" where
  "compare_exchange c old new cells =
     (if cells ! c = old then (True, cells[c := new]) else (False, cells))"

definition invalidate_reap_reservation :: "SocketAddr \<Rightarrow> PeerRegistryOwner \<Rightarrow> PeerRegistryOwner" where
  "invalidate_reap_reservation addr s =
     (case reap_reserved s addr of
        Some c \<Rightarrow>
          s\<lparr>reap_cells := snd (compare_exchange c REAP_PENDING REAP_INVALIDATED (reap_cells s))\<rparr>
      | None \<Rightarrow> s)"

definition note_liveness_evidence ::
  "SocketAddr \<Rightarrow> Instant \<Rightarrow> PeerRegistryOwner \<Rightarrow> PeerRegistryOwner" where
  "note_liveness_evidence addr at s =
     (let newest = (case liveness_evidence_at s addr of
                      Some existing \<Rightarrow> if at > existing then at else existing
                    | None \<Rightarrow> at)
      in invalidate_reap_reservation addr
           (s\<lparr>liveness_evidence_at := (liveness_evidence_at s)(addr \<mapsto> newest)\<rparr>))"

definition newer_than :: "Instant option \<Rightarrow> Instant \<Rightarrow> bool" where
  "newer_than at before = (case at of Some t \<Rightarrow> t > before | None \<Rightarrow> False)"

definition has_newer_liveness_evidence ::
  "SocketAddr \<Rightarrow> Instant \<Rightarrow> PeerRegistryOwner \<Rightarrow> bool" where
  "has_newer_liveness_evidence addr evidence_before s =
     (newer_than (claim_committed_at s addr) evidence_before
      \<or> newer_than (liveness_evidence_at s addr) evidence_before)"

definition configure_peer_generation_of :: "PeerId \<Rightarrow> PeerRegistryOwner \<Rightarrow> nat" where
  "configure_peer_generation_of p s =
     (case configure_peer_generation s p of Some g \<Rightarrow> g | None \<Rightarrow> 0)"

definition reap_baseline_activity_detected ::
  "SocketAddr \<Rightarrow> PeerId \<Rightarrow> Instant \<Rightarrow> nat \<Rightarrow> PeerRegistryOwner \<Rightarrow> bool" where
  "reap_baseline_activity_detected addr p evidence_before baseline s =
     (if has_newer_liveness_evidence addr evidence_before s then True
      else configure_peer_generation_of p s > baseline)"

definition reap_committed :: "SocketAddr \<Rightarrow> PeerRegistryOwner \<Rightarrow> bool" where
  "reap_committed addr s =
     (case reap_reserved s addr of
        Some c \<Rightarrow> reap_cells s ! c = REAP_COMMITTED
      | None \<Rightarrow> False)"

definition release_dead_peer ::
  "hasher \<Rightarrow> PeerId \<Rightarrow> SocketAddr \<Rightarrow> Instant \<Rightarrow> PeerRegistryOwner \<Rightarrow>
   DeadPeerReleaseOutcome \<times> PeerRegistryOwner" where
  "release_dead_peer h p addr evidence_before s =
     (if \<not> reap_committed addr s \<and> newer_than (claim_committed_at s addr) evidence_before
      then (ProvenAlive, s)
      else if \<not> reap_committed addr s \<and> newer_than (liveness_evidence_at s addr) evidence_before
      then (ProvenAlive, s)
      else
        let s1 = s\<lparr>connection_scoped_claims :=
                    filter (\<lambda>(key, _). \<not> (fst key = p \<and> snd (snd key) = addr))
                      (connection_scoped_claims s)\<rparr>
        in if operator_pinned s1 addr \<noteq> None then (NotApplicable, s1)
           else case addr_ownership s1 addr of
                  None \<Rightarrow> (NotApplicable, s1)
                | Some w \<Rightarrow>
                    if node_id w = p
                    then (case drop_owner h addr w s1 of (gen, s2) \<Rightarrow> (Released gen, s2))
                    else (NotApplicable, s1))"

text \<open>The outer \<open>None\<close> is the panic of \<open>expect\<close> on a missing generation.\<close>

definition current_ownership_token ::
  "SocketAddr \<Rightarrow> PeerRegistryOwner \<Rightarrow> OwnershipToken option option" where
  "current_ownership_token addr s =
     (case addr_ownership s addr of
        None \<Rightarrow> Some None
      | Some w \<Rightarrow>
          (case claim_generation s addr of
             None \<Rightarrow> None
           | Some gen \<Rightarrow> Some (Some \<lparr>token_owner = node_id w, token_generation = gen\<rparr>)))"

definition reserve_for_reap ::
  "SocketAddr \<Rightarrow> Instant \<Rightarrow> OwnershipToken option \<Rightarrow> PeerId option \<Rightarrow> PeerId option \<Rightarrow>
   PeerRegistryOwner \<Rightarrow> (nat option \<times> PeerRegistryOwner) option" where
  "reserve_for_reap addr evidence_before expected_ownership expected_pin expected_node_id s =
     (if newer_than (claim_committed_at s addr) evidence_before then Some (None, s)
      else case current_ownership_token addr s of
             None \<Rightarrow> None
           | Some token \<Rightarrow>
               if token \<noteq> expected_ownership then Some (None, s)
               else if operator_pinned s addr \<noteq> expected_pin then Some (None, s)
               else
                 let identity = (case map_option token_owner expected_ownership of
                                   Some p \<Rightarrow> Some p
                                 | None \<Rightarrow> expected_pin)
                 in if identity \<noteq> None \<and> expected_node_id \<noteq> identity then Some (None, s)
                    else if reap_reserved s addr \<noteq> None then Some (None, s)
                    else
                      let valid = length (reap_cells s)
                      in Some (Some valid,
                           s\<lparr>reap_cells := reap_cells s @ [REAP_PENDING],
                             reap_reserved := (reap_reserved s)(addr \<mapsto> valid)\<rparr>))"

subsection \<open>Operator pins\<close>

definition install_pin ::
  "hasher \<Rightarrow> SocketAddr \<Rightarrow> PeerId \<Rightarrow> PeerRegistryOwner \<Rightarrow> SocketAddr option \<times> PeerRegistryOwner" where
  "install_pin h addr p s =
     (let s1 = (case operator_pinned s addr of
                  Some q \<Rightarrow> if q \<noteq> p \<and> pinned_by_peer s q = Some addr
                           then s\<lparr>pinned_by_peer := (pinned_by_peer s)(q := None)\<rparr> else s
                | None \<Rightarrow> s);
          previous = pinned_by_peer s1 p;
          s2 = s1\<lparr>pinned_by_peer := (pinned_by_peer s1)(p \<mapsto> addr)\<rparr>;
          evicted = (case previous of Some a \<Rightarrow> if a \<noteq> addr then Some a else None | None \<Rightarrow> None);
          s3 = (case evicted of
                  Some a \<Rightarrow> s2\<lparr>operator_pinned := (operator_pinned s2)(a := None)\<rparr>
                | None \<Rightarrow> s2);
          s4 = routing_call (SetConfiguredPeerAddr addr p evicted) s3;
          s5 = s4\<lparr>operator_pinned := (operator_pinned s4)(addr \<mapsto> p)\<rparr>;
          sn = with_pin h addr (Some p) (snapshot s5);
          sn' = (case evicted of Some a \<Rightarrow> with_pin h a None sn | None \<Rightarrow> sn)
      in (evicted, s5\<lparr>snapshot := sn'\<rparr>))"

definition set_ordinary_connect_route ::
  "PeerId \<Rightarrow> SocketAddr \<Rightarrow> PeerRegistryOwner \<Rightarrow> bool \<times> PeerRegistryOwner" where
  "set_ordinary_connect_route p addr s =
     (case pinned_by_peer s p of
        Some pinned \<Rightarrow>
          if pinned \<noteq> addr then (False, s)
          else (True, routing_call (SetConfiguredPeerAddr addr p None) s)
      | None \<Rightarrow> (True, routing_call (SetConfiguredPeerAddr addr p None) s))"

definition release_evicted ::
  "hasher \<Rightarrow> PeerId \<Rightarrow> SocketAddr option \<Rightarrow> PeerRegistryOwner \<Rightarrow> CommitSeq option \<times> PeerRegistryOwner" where
  "release_evicted h p evicted s =
     (case evicted of
        None \<Rightarrow> (None, s)
      | Some a \<Rightarrow>
          let s1 = s\<lparr>connection_scoped_claims :=
                      filter (\<lambda>(key, _). \<not> (fst key = p \<and> snd (snd key) = a))
                        (connection_scoped_claims s)\<rparr>
          in case addr_ownership s1 a of
               None \<Rightarrow> (None, s1)
             | Some w \<Rightarrow>
                 if node_id w = p
                 then (case drop_owner h a w s1 of (gen, s2) \<Rightarrow> (Some gen, s2))
                 else (None, s1))"

definition configure_peer ::
  "hasher \<Rightarrow> SocketAddr \<Rightarrow> PeerId \<Rightarrow> nat option \<Rightarrow> PeerRegistryOwner \<Rightarrow>
   ConfigurePeerCommit \<times> PeerRegistryOwner" where
  "configure_peer h addr p expected_generation s =
     (let current = configure_peer_generation_of p s;
          refuse = (\<lambda>r g. \<lparr>configured_claim = r, evicted_pin = None, evicted_release_seq = None,
                           configured_generation = g\<rparr>)
      in if (case pinned_by_peer s p of
               Some previous \<Rightarrow> previous \<noteq> addr \<and> reap_reserved s previous \<noteq> None
             | None \<Rightarrow> False)
         then (refuse (Rejected ReapInProgress) current, s)
         else if (case expected_generation of Some expected \<Rightarrow> expected < current | None \<Rightarrow> False)
         then (refuse (Rejected SupersededByNewerConfiguration) current, s)
         else
           let (generation, s1) = (case expected_generation of
                   Some expected \<Rightarrow> (expected, s)
                 | None \<Rightarrow> (current + 1,
                     s\<lparr>configure_peer_generation :=
                         (configure_peer_generation s)(p \<mapsto> current + 1)\<rparr>));
               (commit, s2) = claim h addr \<lparr>claimant = p, claim_kind = Verified\<rparr> False s1
           in if \<not> is_accepted commit then (refuse commit generation, s2)
              else
                let (evicted, s3) = install_pin h addr p s2;
                    (release_seq, s4) = release_evicted h p evicted s3
                in (\<lparr>configured_claim = commit, evicted_pin = evicted,
                     evicted_release_seq = release_seq, configured_generation = generation\<rparr>, s4))"

subsection \<open>Migration\<close>

definition source_matches :: "SocketAddr \<Rightarrow> SourceExpectation \<Rightarrow> PeerRegistryOwner \<Rightarrow> bool" where
  "source_matches from expected s =
     (case expected of
        Unowned \<Rightarrow> addr_ownership s from = None
      | Owned t \<Rightarrow>
          (case addr_ownership s from of Some w \<Rightarrow> node_id w = token_owner t | None \<Rightarrow> False)
          \<and> claim_generation s from = Some (token_generation t))"

definition carry_newest ::
  "SocketAddr \<Rightarrow> SocketAddr \<Rightarrow> (SocketAddr \<rightharpoonup> Instant) \<Rightarrow> (SocketAddr \<rightharpoonup> Instant)" where
  "carry_newest from to m =
     (case m from of
        None \<Rightarrow> m
      | Some t \<Rightarrow>
          let m' = m(from := None)
          in m'(to \<mapsto> (case m' to of Some u \<Rightarrow> if t > u then t else u | None \<Rightarrow> t)))"

definition migrate_receipts ::
  "PeerId \<Rightarrow> SocketAddr \<Rightarrow> SocketAddr \<Rightarrow> CommitSeq \<Rightarrow> receipts \<Rightarrow> receipts" where
  "migrate_receipts p from to gen rs =
     (let moved = map (\<lambda>(key, _). fst (snd key))
                    (filter (\<lambda>(key, _). snd (snd key) = from \<and> fst key = p) rs);
          kept = filter (\<lambda>(key, _). snd (snd key) \<noteq> from) rs;
          rehomed = fold (\<lambda>i. AList.update (p, i, to) gen) moved kept
      in sync_receipts p to gen rehomed)"

definition move_pin :: "SocketAddr \<Rightarrow> SocketAddr \<Rightarrow> PeerRegistryOwner \<Rightarrow> PeerRegistryOwner" where
  "move_pin from to s =
     (let s1 = s\<lparr>operator_pinned := (operator_pinned s)(from := None)\<rparr>
      in case operator_pinned s from of
           None \<Rightarrow> s1
         | Some p \<Rightarrow>
             routing_call (SetConfiguredPeerAddr to p (Some from))
               (s1\<lparr>operator_pinned := (operator_pinned s1)(to \<mapsto> p),
                   pinned_by_peer := (pinned_by_peer s1)(p \<mapsto> to)\<rparr>))"

definition migrate_snapshot ::
  "hasher \<Rightarrow> SocketAddr \<Rightarrow> SocketAddr \<Rightarrow> Owner \<Rightarrow> CommitSeq \<Rightarrow> PeerId option \<Rightarrow>
   RoutingSnapshot \<Rightarrow> RoutingSnapshot" where
  "migrate_snapshot h from to w gen migrated_pin sn =
     (let sn1 = with_owner h to (Some (w, gen)) (with_owner h from None sn)
      in case migrated_pin of
           None \<Rightarrow> sn1
         | Some p \<Rightarrow> with_pin h to (Some p) (with_pin h from None sn1))"

definition migrate ::
  "hasher \<Rightarrow> SocketAddr \<Rightarrow> SocketAddr \<Rightarrow> SourceExpectation \<Rightarrow> bool \<Rightarrow> PeerRegistryOwner \<Rightarrow>
   MigrateOutcome \<times> PeerRegistryOwner" where
  "migrate h from to expected_source is_local_addr s =
     (if reap_reserved s from \<noteq> None \<or> reap_reserved s to \<noteq> None then (MigrateReapInProgress, s)
      else if is_local_addr then (TargetIsLocal, s)
      else if \<not> source_matches from expected_source s then (SourceOwnerMismatch, s)
      else if (case addr_ownership s to of
                 None \<Rightarrow> False
               | Some existing \<Rightarrow>
                   (case addr_ownership s from of
                      Some w \<Rightarrow> node_id w \<noteq> node_id existing
                    | None \<Rightarrow> True))
      then (TargetOwnedByOther, s)
      else case addr_ownership s from of
             None \<Rightarrow> (SourceUnowned, s)
           | Some src \<Rightarrow>
               let k = resolved_kind (addr_ownership s to)
                         \<lparr>claimant = node_id src, claim_kind = kind src\<rparr>;
                   w = \<lparr>node_id = node_id src, kind = k\<rparr>;
                   s1 = s\<lparr>addr_ownership := (addr_ownership s)(from := None, to \<mapsto> w)\<rparr>;
                   migrated_pin = operator_pinned s1 from;
                   s2 = move_pin from to s1;
                   (gen, s3) = advance s2;
                   s4 = s3\<lparr>claim_generation := (claim_generation s3)(from := None, to \<mapsto> gen),
                           connection_scoped_claims :=
                             migrate_receipts (node_id w) from to gen (connection_scoped_claims s3),
                           claim_committed_at := carry_newest from to (claim_committed_at s3),
                           liveness_evidence_at := carry_newest from to (liveness_evidence_at s3),
                           snapshot := migrate_snapshot h from to w gen migrated_pin (snapshot s3)\<rparr>;
                   s5 = routing_call (RetractOwner from (node_id w)) s4;
                   s6 = routing_call (PublishOwner to (node_id w)) s5
               in (Migrated gen, s6))"

subsection \<open>The command loop\<close>

datatype OwnerCommand =
    CmdClaim SocketAddr Claim bool
  | CmdRelease SocketAddr PeerId CommitSeq
  | CmdMigrate SocketAddr SocketAddr SourceExpectation bool
  | CmdClaimConnectionScoped SocketAddr Claim SocketAddr u64 Instant
  | CmdReleaseSession PeerId SocketAddr u64
  | CmdReleaseDeadPeer PeerId SocketAddr Instant
  | CmdHasNewerLivenessEvidence SocketAddr Instant
  | CmdReapBaselineActivityDetected SocketAddr PeerId Instant nat
  | CmdConfigurePeerGenerationOf PeerId
  | CmdReserveForReap SocketAddr Instant "OwnershipToken option" "PeerId option" "PeerId option"
  | CmdReleaseReapReservation SocketAddr
  | CmdConfigurePeer SocketAddr PeerId "nat option"
  | CmdSetOrdinaryConnectRoute PeerId SocketAddr
  | CmdNoteLivenessEvidence SocketAddr Instant

record ReapReservation =
  guard_addr :: SocketAddr
  guard_released :: bool
  guard_valid :: nat

datatype OwnerReply =
    ReplyClaim ClaimCommit
  | ReplyReleased "CommitSeq option"
  | ReplyMigrated MigrateOutcome
  | ReplySession "(SocketAddr \<times> CommitSeq) list"
  | ReplyDead DeadPeerReleaseOutcome
  | ReplyBool bool
  | ReplyGeneration nat
  | ReplyReservation "ReapReservation option"
  | ReplyConfigured ConfigurePeerCommit
  | ReplyUnit
  | NoReply

definition release_reap_reservation :: "SocketAddr \<Rightarrow> PeerRegistryOwner \<Rightarrow> PeerRegistryOwner" where
  "release_reap_reservation addr s = s\<lparr>reap_reserved := (reap_reserved s)(addr := None)\<rparr>"

fun handle :: "hasher \<Rightarrow> OwnerCommand \<Rightarrow> PeerRegistryOwner \<Rightarrow> (OwnerReply \<times> PeerRegistryOwner) option" where
  "handle h (CmdClaim addr cl loc) s =
     (case claim h addr cl loc s of (r, s') \<Rightarrow> Some (ReplyClaim r, s'))"
| "handle h (CmdRelease addr p gen) s =
     (case release h addr p gen s of (r, s') \<Rightarrow> Some (ReplyReleased r, s'))"
| "handle h (CmdMigrate from to expected loc) s =
     (case migrate h from to expected loc s of (r, s') \<Rightarrow> Some (ReplyMigrated r, s'))"
| "handle h (CmdClaimConnectionScoped addr cl src i at) s =
     (case claim_connection_scoped h addr cl src i at s of (r, s') \<Rightarrow> Some (ReplyClaim r, s'))"
| "handle h (CmdReleaseSession p src i) s =
     (case release_session h p src i s of (r, s') \<Rightarrow> Some (ReplySession r, s'))"
| "handle h (CmdReleaseDeadPeer p addr before) s =
     (case release_dead_peer h p addr before s of (r, s') \<Rightarrow> Some (ReplyDead r, s'))"
| "handle h (CmdHasNewerLivenessEvidence addr before) s =
     Some (ReplyBool (has_newer_liveness_evidence addr before s), s)"
| "handle h (CmdReapBaselineActivityDetected addr p before baseline) s =
     Some (ReplyBool (reap_baseline_activity_detected addr p before baseline s), s)"
| "handle h (CmdConfigurePeerGenerationOf p) s =
     Some (ReplyGeneration (configure_peer_generation_of p s), s)"
| "handle h (CmdReserveForReap addr before tok pin node) s =
     (case reserve_for_reap addr before tok pin node s of
        None \<Rightarrow> None
      | Some (granted, s') \<Rightarrow>
          Some (ReplyReservation
            (map_option (\<lambda>valid. \<lparr>guard_addr = addr, guard_released = False, guard_valid = valid\<rparr>)
               granted), s'))"
| "handle h (CmdReleaseReapReservation addr) s = Some (ReplyUnit, release_reap_reservation addr s)"
| "handle h (CmdConfigurePeer addr p expected) s =
     (case configure_peer h addr p expected s of (r, s') \<Rightarrow> Some (ReplyConfigured r, s'))"
| "handle h (CmdSetOrdinaryConnectRoute p addr) s =
     (case set_ordinary_connect_route p addr s of (r, s') \<Rightarrow> Some (ReplyBool r, s'))"
| "handle h (CmdNoteLivenessEvidence addr at) s = Some (NoReply, note_liveness_evidence addr at s)"

end
