(* ===== verification/Registry_Invariant.thy ===== *)
theory Registry_Invariant
  imports Registry_Owner
begin

text \<open>
  The invariants of the single-owner actor and their preservation by every command: the
  tables agree with each other, with the published snapshot, and with the calls made on the
  routing publisher.
\<close>

subsection \<open>The snapshot as three lookups\<close>

definition snap_wf :: "RoutingSnapshot \<Rightarrow> bool" where
  "snap_wf sn \<longleftrightarrow> length (owner_shards sn) = ROUTING_SNAPSHOT_SHARDS
     \<and> length (pin_shards sn) = ROUTING_SNAPSHOT_SHARDS"

lemma shard_index_less: "shard_index h a < ROUTING_SNAPSHOT_SHARDS"
  by (simp add: shard_index_def ROUTING_SNAPSHOT_SHARDS_def)

lemma snap_wf_with [simp]:
  "snap_wf (with_owner h a w sn) = snap_wf sn"
  "snap_wf (with_pin h a p sn) = snap_wf sn"
  by (auto simp: snap_wf_def with_owner_def with_pin_def Let_def split: option.split)

lemma snap_wf_default [simp]: "snap_wf RoutingSnapshot_default"
  by (simp add: snap_wf_def RoutingSnapshot_default_def)

lemma nth_shards:
  "snap_wf sn \<Longrightarrow> (owner_shards sn)[shard_index h a := x] ! shard_index h b
     = (if shard_index h a = shard_index h b then x else owner_shards sn ! shard_index h b)"
  "snap_wf sn \<Longrightarrow> (pin_shards sn)[shard_index h a := y] ! shard_index h b
     = (if shard_index h a = shard_index h b then y else pin_shards sn ! shard_index h b)"
  using shard_index_less [of h b] by (auto simp: snap_wf_def nth_list_update)

lemma published_with_owner [simp]:
  "snap_wf sn \<Longrightarrow> published h (with_owner h a w sn) b =
     (if b = a then map_option (\<lambda>(v, g). \<lparr>pub_owner = v, pub_generation = g\<rparr>) w
      else published h sn b)"
  by (cases w) (simp_all add: published_def with_owner_def Let_def nth_shards split_beta)

lemma published_with_pin [simp]: "published h (with_pin h' a p sn) = published h sn"
  by (auto simp: published_def fun_eq_iff with_pin_def Let_def split: option.split)

lemma pins_with_owner [simp]:
  "pin_owner h (with_owner h' a w sn) = pin_owner h sn"
  "pinned_addr_for (with_owner h' a w sn) = pinned_addr_for sn"
  by (simp_all add: pin_owner_def pinned_addr_for_def with_owner_def fun_eq_iff Let_def)

lemma pin_owner_with_pin [simp]:
  "snap_wf sn \<Longrightarrow> pin_owner h (with_pin h a p sn) b = (if b = a then p else pin_owner h sn b)"
  by (cases p) (simp_all add: pin_owner_def with_pin_def Let_def nth_shards)

lemma pinned_addr_for_with_pin:
  "pinned_addr_for (with_pin h a (Some p) sn) q =
     (if q = p then Some a else if pin_owner h sn a = Some q then None else pinned_addr_for sn q)"
  "pinned_addr_for (with_pin h a None sn) q =
     (if pin_owner h sn a = Some q \<and> pinned_addr_for sn q = Some a then None
      else pinned_addr_for sn q)"
  by (auto simp: pin_owner_def pinned_addr_for_def with_pin_def Let_def split: option.split)

lemma snap_default [simp]:
  "published h RoutingSnapshot_default a = None"
  "pin_owner h RoutingSnapshot_default a = None"
  "pinned_addr_for RoutingSnapshot_default p = None"
  using shard_index_less [of h a]
  by (simp_all add: published_def pin_owner_def pinned_addr_for_def RoutingSnapshot_default_def)

subsection \<open>Replaying the calls on the routing publisher\<close>

text \<open>The pool's implementation of the publisher, on its map from addresses to identities.\<close>

fun apply_routing_call :: "RoutingCall \<Rightarrow> (SocketAddr \<rightharpoonup> PeerId) \<Rightarrow> (SocketAddr \<rightharpoonup> PeerId)" where
  "apply_routing_call (PublishOwner a p) m = m(a \<mapsto> p)"
| "apply_routing_call (RetractOwner a p) m = (if m a = Some p then m(a := None) else m)"
| "apply_routing_call (SetConfiguredPeerAddr a p ev) m = m"

definition routes :: "RoutingCall list \<Rightarrow> (SocketAddr \<rightharpoonup> PeerId)" where
  "routes cs = fold apply_routing_call cs Map.empty"

lemma routes_simps [simp]:
  "routes [] = Map.empty"
  "routes (cs @ ds) = fold apply_routing_call ds (routes cs)"
  by (simp_all add: routes_def)

subsection \<open>Invariants\<close>

definition core_inv :: "PeerRegistryOwner \<Rightarrow> bool" where
  "core_inv s \<longleftrightarrow>
     (\<forall>a w. addr_ownership s a = Some w \<longrightarrow> kind w = Verified \<and> claim_generation s a \<noteq> None)
     \<and> (\<forall>a g. claim_generation s a = Some g \<longrightarrow> addr_ownership s a \<noteq> None \<and> g \<le> commit_seq s)"

definition pin_inv :: "PeerRegistryOwner \<Rightarrow> bool" where
  "pin_inv s \<longleftrightarrow>
     (\<forall>a p. operator_pinned s a = Some p \<longleftrightarrow> pinned_by_peer s p = Some a)
     \<and> (\<forall>a p. operator_pinned s a = Some p \<longrightarrow> map_option node_id (addr_ownership s a) = Some p)"

definition receipt_inv :: "PeerRegistryOwner \<Rightarrow> bool" where
  "receipt_inv s \<longleftrightarrow> keys_distinct (connection_scoped_claims s)
     \<and> (\<forall>p i a g. ((p, i, a), g) \<in> set (connection_scoped_claims s) \<longrightarrow>
          map_option node_id (addr_ownership s a) = Some p \<and> claim_generation s a = Some g)"

definition published_entry :: "PeerRegistryOwner \<Rightarrow> SocketAddr \<Rightarrow> PublishedOwner option" where
  "published_entry s a =
     (case (addr_ownership s a, claim_generation s a) of
        (Some w, Some g) \<Rightarrow> Some \<lparr>pub_owner = w, pub_generation = g\<rparr>
      | _ \<Rightarrow> None)"

definition snap_inv :: "hasher \<Rightarrow> PeerRegistryOwner \<Rightarrow> bool" where
  "snap_inv h s \<longleftrightarrow> snap_wf (snapshot s)
     \<and> (\<forall>a. published h (snapshot s) a = published_entry s a)
     \<and> (\<forall>a. pin_owner h (snapshot s) a = operator_pinned s a)
     \<and> (\<forall>p. pinned_addr_for (snapshot s) p = pinned_by_peer s p)"

definition cell_inv :: "PeerRegistryOwner \<Rightarrow> bool" where
  "cell_inv s \<longleftrightarrow>
     (\<forall>a c. reap_reserved s a = Some c \<longrightarrow> c < length (reap_cells s))
     \<and> (\<forall>a b c. reap_reserved s a = Some c \<longrightarrow> reap_reserved s b = Some c \<longrightarrow> a = b)"

definition route_inv :: "PeerRegistryOwner \<Rightarrow> bool" where
  "route_inv s \<longleftrightarrow> (\<forall>cs. routing s = Some cs \<longrightarrow>
     (\<forall>a. routes cs a = map_option node_id (addr_ownership s a)))"

definition owner_inv :: "hasher \<Rightarrow> PeerRegistryOwner \<Rightarrow> bool" where
  "owner_inv h s \<longleftrightarrow> core_inv s \<and> pin_inv s \<and> receipt_inv s \<and> snap_inv h s \<and> cell_inv s
     \<and> route_inv s"

lemmas owner_inv_defs = owner_inv_def core_inv_def pin_inv_def receipt_inv_def snap_inv_def
  cell_inv_def route_inv_def

lemma new_owner_inv: "owner_inv h new_owner"
  by (simp add: owner_inv_defs new_owner_def published_entry_def)

subsection \<open>Claims\<close>

text \<open>The state after an accepted claim of \<open>p\<close> for \<open>a\<close>.\<close>

definition claimed :: "hasher \<Rightarrow> SocketAddr \<Rightarrow> PeerId \<Rightarrow> PeerRegistryOwner \<Rightarrow> PeerRegistryOwner" where
  "claimed h a p s =
     s\<lparr>addr_ownership := (addr_ownership s)(a \<mapsto> \<lparr>node_id = p, kind = Verified\<rparr>),
       claim_generation := (claim_generation s)(a \<mapsto> commit_seq s + 1),
       connection_scoped_claims := sync_receipts p a (commit_seq s + 1) (connection_scoped_claims s),
       snapshot := with_owner h a (Some (\<lparr>node_id = p, kind = Verified\<rparr>, commit_seq s + 1)) (snapshot s),
       routing := (if addr_ownership s a = None
                   then map_option (\<lambda>cs. cs @ [PublishOwner a p]) (routing s) else routing s),
       commit_seq := commit_seq s + 1\<rparr>"

definition may_claim :: "SocketAddr \<Rightarrow> PeerId \<Rightarrow> PeerRegistryOwner \<Rightarrow> bool" where
  "may_claim a p s \<longleftrightarrow> reap_reserved s a = None
     \<and> (\<forall>w. addr_ownership s a = Some w \<longrightarrow> w = \<lparr>node_id = p, kind = Verified\<rparr>)"

lemma Owner_eqI: "node_id w = p \<Longrightarrow> kind w = k \<Longrightarrow> w = \<lparr>node_id = p, kind = k\<rparr>"
  by (cases w) simp

lemma claim_eq:
  assumes "core_inv s"
  shows "claim h a cl loc s =
     (if reap_reserved s a \<noteq> None then (Rejected ReapInProgress, s)
      else case arbitrate (addr_ownership s a) cl loc of
        Reject r \<Rightarrow> (Rejected (Arbitration r), s)
      | Accept \<Rightarrow> (Accepted Verified None (addr_ownership s a = None) (commit_seq s + 1),
                  claimed h a (claimant cl) s))"
proof (cases "arbitrate (addr_ownership s a) cl loc")
  case Accept
  have v: "\<And>w. addr_ownership s a = Some w \<Longrightarrow> kind w = Verified"
    using assms by (auto simp: core_inv_def)
  have k: "resolved_kind (addr_ownership s a) cl = Verified"
    using resolved_verified [OF Accept] v by blast
  show ?thesis
  proof (cases "addr_ownership s a")
    case None
    then show ?thesis
      using Accept k by (simp add: claim_def claimed_def advance_def publish_owner_snapshot_def
        routing_call_def Let_def)
  next
    case (Some w)
    then have "node_id w = claimant cl"
      using Accept v arbitrate_verified_iff [of "addr_ownership s a" cl loc] by auto
    then have w: "w = \<lparr>node_id = claimant cl, kind = Verified\<rparr>"
      using v [OF Some] by (rule Owner_eqI)
    have "(addr_ownership s)(a \<mapsto> \<lparr>node_id = claimant cl, kind = Verified\<rparr>) = addr_ownership s"
      using Some w by (simp add: fun_upd_idem)
    then show ?thesis
      using Accept k Some w by (simp add: claim_def claimed_def advance_def
        publish_owner_snapshot_def routing_call_def Let_def)
  qed
qed (simp add: claim_def)

lemma claim_cases:
  assumes "core_inv s"
  obtains (rejected) r where "claim h a cl loc s = (Rejected r, s)"
  | (accepted) "may_claim a (claimant cl) s" and "\<not> loc"
      and "addr_ownership s a = None \<Longrightarrow> claim_kind cl = Verified"
      and "claim h a cl loc s =
        (Accepted Verified None (addr_ownership s a = None) (commit_seq s + 1), claimed h a (claimant cl) s)"
proof (cases "reap_reserved s a \<noteq> None \<or> arbitrate (addr_ownership s a) cl loc \<noteq> Accept")
  case True
  then show thesis
    using claim_eq [OF assms, of h a cl loc] rejected
    by (cases "arbitrate (addr_ownership s a) cl loc") (auto split: if_splits)
next
  case False
  have v: "\<And>w. addr_ownership s a = Some w \<Longrightarrow> kind w = Verified"
    using assms by (auto simp: core_inv_def)
  have e: "\<not> loc \<and> (case addr_ownership s a of None \<Rightarrow> claim_kind cl = Verified
      | Some w \<Rightarrow> node_id w = claimant cl)"
    using False v arbitrate_verified_iff [of "addr_ownership s a" cl loc] by blast
  show thesis
  proof (rule accepted)
    show "may_claim a (claimant cl) s"
      using False e v by (auto simp: may_claim_def intro: Owner_eqI)
  qed (use False e claim_eq [OF assms, of h a cl loc] in auto)
qed

lemma set_sync_receipts:
  "((q, i, b), g) \<in> set (sync_receipts p a gen rs) \<longleftrightarrow>
     (\<exists>g'. ((q, i, b), g') \<in> set rs \<and> g = (if q = p \<and> b = a then gen else g'))"
  by (force simp: sync_receipts_def)

lemma keys_sync_receipts [simp]: "map fst (sync_receipts p a gen rs) = map fst rs"
  by (induction rs) (auto simp: sync_receipts_def)

lemma claimed_inv:
  assumes inv: "owner_inv h s" and may: "may_claim a p s"
  shows "owner_inv h (claimed h a p s)"
proof -
  have core: "core_inv (claimed h a p s)"
    using inv by (auto simp: owner_inv_def core_inv_def claimed_def intro: le_SucI)
  moreover have "\<And>q. operator_pinned s a = Some q \<Longrightarrow> q = p"
    using inv may by (fastforce simp: owner_inv_def pin_inv_def may_claim_def)
  then have "pin_inv (claimed h a p s)"
    using inv by (simp add: owner_inv_def pin_inv_def claimed_def)
  moreover have "receipt_inv (claimed h a p s)"
    using inv may by (fastforce simp: owner_inv_def receipt_inv_def claimed_def may_claim_def
      set_sync_receipts)
  moreover have "snap_inv h (claimed h a p s)"
    using inv by (auto simp: owner_inv_def snap_inv_def claimed_def published_entry_def)
  moreover have "cell_inv (claimed h a p s)"
    using inv by (simp add: owner_inv_def cell_inv_def claimed_def)
  moreover have "route_inv (claimed h a p s)"
    using inv may by (auto simp: owner_inv_def route_inv_def claimed_def may_claim_def)
  ultimately show ?thesis by (simp add: owner_inv_def)
qed

subsection \<open>Dropping an owner\<close>

definition dropped :: "hasher \<Rightarrow> SocketAddr \<Rightarrow> PeerId \<Rightarrow> PeerRegistryOwner \<Rightarrow> PeerRegistryOwner" where
  "dropped h a p s =
     s\<lparr>addr_ownership := (addr_ownership s)(a := None),
       claim_generation := (claim_generation s)(a := None),
       claim_committed_at := (claim_committed_at s)(a := None),
       connection_scoped_claims := filter (\<lambda>(key, _). snd (snd key) \<noteq> a) (connection_scoped_claims s),
       liveness_evidence_at := (liveness_evidence_at s)(a := None),
       snapshot := with_owner h a None (snapshot s),
       routing := map_option (\<lambda>cs. cs @ [RetractOwner a p]) (routing s),
       commit_seq := commit_seq s + 1\<rparr>"

lemma drop_owner_eq: "drop_owner h a w s = (commit_seq s + 1, dropped h a (node_id w) s)"
  by (simp add: drop_owner_def retract_owner_def advance_def publish_owner_snapshot_def
    routing_call_def dropped_def Let_def)

lemma distinct_filter_keys: "keys_distinct rs \<Longrightarrow> keys_distinct (filter P rs)"
  by (induction rs) auto

lemma filter_receipts_inv:
  "owner_inv h s \<Longrightarrow>
   owner_inv h (s\<lparr>connection_scoped_claims := filter P (connection_scoped_claims s)\<rparr>)"
  by (auto simp: owner_inv_defs published_entry_def distinct_filter_keys)

lemma dropped_inv:
  assumes inv: "owner_inv h s" and pin: "operator_pinned s a = None"
    and w: "addr_ownership s a = Some w" and p: "node_id w = p"
  shows "owner_inv h (dropped h a p s)"
proof -
  have "core_inv (dropped h a p s)"
    using inv by (auto simp: owner_inv_def core_inv_def dropped_def intro: le_SucI)
  moreover have "pin_inv (dropped h a p s)"
    using inv pin by (simp add: owner_inv_def pin_inv_def dropped_def) (metis option.distinct(1))
  moreover have "receipt_inv (dropped h a p s)"
    using inv by (auto simp: owner_inv_def receipt_inv_def dropped_def distinct_filter_keys)
  moreover have "snap_inv h (dropped h a p s)"
    using inv by (auto simp: owner_inv_def snap_inv_def dropped_def published_entry_def)
  moreover have "cell_inv (dropped h a p s)"
    using inv by (simp add: owner_inv_def cell_inv_def dropped_def)
  moreover have "route_inv (dropped h a p s)"
    using inv w p by (auto simp: owner_inv_def route_inv_def dropped_def)
  ultimately show ?thesis by (simp add: owner_inv_def)
qed

subsection \<open>Installing a pin\<close>

definition evicted_by :: "SocketAddr \<Rightarrow> PeerId \<Rightarrow> PeerRegistryOwner \<Rightarrow> SocketAddr option" where
  "evicted_by a p s =
     (case pinned_by_peer s p of Some b \<Rightarrow> if b \<noteq> a then Some b else None | None \<Rightarrow> None)"

definition pinned :: "hasher \<Rightarrow> SocketAddr \<Rightarrow> PeerId \<Rightarrow> PeerRegistryOwner \<Rightarrow> PeerRegistryOwner" where
  "pinned h a p s =
     s\<lparr>operator_pinned := (case evicted_by a p s of
          Some b \<Rightarrow> (operator_pinned s)(b := None, a \<mapsto> p) | None \<Rightarrow> (operator_pinned s)(a \<mapsto> p)),
       pinned_by_peer := (pinned_by_peer s)(p \<mapsto> a),
       snapshot := (case evicted_by a p s of
          Some b \<Rightarrow> with_pin h b None (with_pin h a (Some p) (snapshot s))
        | None \<Rightarrow> with_pin h a (Some p) (snapshot s)),
       routing := map_option (\<lambda>cs. cs @ [SetConfiguredPeerAddr a p (evicted_by a p s)]) (routing s)\<rparr>"

lemma install_pin_eq:
  assumes "\<And>q. operator_pinned s a = Some q \<Longrightarrow> q = p"
  shows "install_pin h a p s = (evicted_by a p s, pinned h a p s)"
proof -
  have 1: "(case operator_pinned s a of
      Some q \<Rightarrow> if q \<noteq> p \<and> pinned_by_peer s q = Some a
               then s\<lparr>pinned_by_peer := (pinned_by_peer s)(q := None)\<rparr> else s
    | None \<Rightarrow> s) = s"
    using assms by (auto split: option.split)
  show ?thesis
    unfolding install_pin_def 1 Let_def
    by (cases "pinned_by_peer s p")
       (simp_all add: pinned_def evicted_by_def routing_call_def)
qed

lemma pinned_lookup:
  "operator_pinned (pinned h a p s) b =
     (if b = a then Some p else if pinned_by_peer s p = Some b then None else operator_pinned s b)"
  "pinned_by_peer (pinned h a p s) q = (if q = p then Some a else pinned_by_peer s q)"
  by (auto simp: pinned_def evicted_by_def split: option.split)

lemma pinned_snapshot:
  assumes "snap_wf (snapshot s)"
  shows "pin_owner h (snapshot (pinned h a p s)) b =
     (if b = a then Some p else if pinned_by_peer s p = Some b then None
      else pin_owner h (snapshot s) b)"
    and "published h (snapshot (pinned h a p s)) = published h (snapshot s)"
    and "snap_wf (snapshot (pinned h a p s))"
    and "pinned_addr_for (snapshot (pinned h a p s)) q =
     (if q = p then Some a
      else if pin_owner h (snapshot s) a = Some q then None
      else if pinned_by_peer s p \<noteq> None \<and> pinned_by_peer s p \<noteq> Some a
           \<and> pin_owner h (snapshot s) (the (pinned_by_peer s p)) = Some q
           \<and> pinned_addr_for (snapshot s) q = pinned_by_peer s p then None
      else pinned_addr_for (snapshot s) q)"
  using assms
  by (auto simp: pinned_def evicted_by_def pinned_addr_for_with_pin split: option.split)

lemma pinned_inv:
  assumes inv: "owner_inv h s" and w: "map_option node_id (addr_ownership s a) = Some p"
  shows "owner_inv h (pinned h a p s)"
proof -
  have pins: "\<And>b q. operator_pinned s b = Some q \<longleftrightarrow> pinned_by_peer s q = Some b"
    and owns: "\<And>b q. operator_pinned s b = Some q \<Longrightarrow> map_option node_id (addr_ownership s b) = Some q"
    using inv by (auto simp: owner_inv_def pin_inv_def)
  have here: "\<And>q. operator_pinned s a = Some q \<Longrightarrow> q = p"
    using owns w by fastforce
  have "pin_inv (pinned h a p s)"
    unfolding pin_inv_def pinned_lookup
    using pins owns w here by (simp add: pinned_def) (metis option.inject)
  moreover have "snap_inv h (pinned h a p s)"
  proof -
    have sn: "snap_wf (snapshot s)" "\<And>b. published h (snapshot s) b = published_entry s b"
      "\<And>b. pin_owner h (snapshot s) b = operator_pinned s b"
      "\<And>q. pinned_addr_for (snapshot s) q = pinned_by_peer s q"
      using inv by (simp_all add: owner_inv_def snap_inv_def)
    have "\<And>b. published_entry (pinned h a p s) b = published_entry s b"
      by (simp add: published_entry_def pinned_def)
    then show ?thesis
      unfolding snap_inv_def pinned_lookup pinned_snapshot [OF sn(1)] sn(2-4)
      using pins here by (simp add: pinned_snapshot [OF sn(1)]) (metis option.sel)
  qed
  moreover have "core_inv (pinned h a p s)" "receipt_inv (pinned h a p s)" "cell_inv (pinned h a p s)"
    using inv by (simp_all add: owner_inv_def core_inv_def receipt_inv_def cell_inv_def pinned_def)
  moreover have "route_inv (pinned h a p s)"
    using inv by (auto simp: owner_inv_def route_inv_def pinned_def)
  ultimately show ?thesis by (simp add: owner_inv_def)
qed

subsection \<open>Migration\<close>

lemma set_update_sub: "x \<in> set (AList.update k v al) \<Longrightarrow> x \<in> set al \<or> x = (k, v)"
  by (induction al) (auto split: if_splits)

lemma fold_update_distinct:
  "keys_distinct rs \<Longrightarrow> keys_distinct (fold (\<lambda>i. AList.update (p, i, b) g) moved rs)"
  by (induction moved arbitrary: rs) (simp_all add: keys_distinct_update)

lemma fold_update_sub:
  "x \<in> set (fold (\<lambda>i. AList.update (p, i, b) g) moved rs) \<Longrightarrow>
   x \<in> set rs \<or> (\<exists>i \<in> set moved. x = ((p, i, b), g))"
  by (induction moved arbitrary: rs) (fastforce dest: set_update_sub)+

lemma migrate_receipts_distinct:
  "keys_distinct rs \<Longrightarrow> keys_distinct (migrate_receipts p a b g rs)"
  by (simp add: migrate_receipts_def fold_update_distinct distinct_filter_keys)

lemma migrate_receipts_sub:
  assumes "((q, i, c), g') \<in> set (migrate_receipts p a b g rs)"
  shows "(c = b \<and> q = p \<and> g' = g) \<or> (c \<noteq> a \<and> \<not> (q = p \<and> c = b) \<and> ((q, i, c), g') \<in> set rs)"
proof -
  obtain g'' where m: "((q, i, c), g'') \<in> set (fold (\<lambda>i. AList.update (p, i, b) g)
      (map (\<lambda>(key, _). fst (snd key)) (filter (\<lambda>(key, _). snd (snd key) = a \<and> fst key = p) rs))
      (filter (\<lambda>(key, _). snd (snd key) \<noteq> a) rs))"
    and g: "g' = (if q = p \<and> c = b then g else g'')"
    using assms by (auto simp: migrate_receipts_def Let_def set_sync_receipts)
  from fold_update_sub [OF m] g show ?thesis
    by (auto split: if_splits)
qed

definition moved :: "hasher \<Rightarrow> SocketAddr \<Rightarrow> SocketAddr \<Rightarrow> PeerId \<Rightarrow> PeerRegistryOwner \<Rightarrow> PeerRegistryOwner" where
  "moved h a b p s =
     s\<lparr>addr_ownership := (addr_ownership s)(a := None, b \<mapsto> \<lparr>node_id = p, kind = Verified\<rparr>),
       claim_generation := (claim_generation s)(a := None, b \<mapsto> commit_seq s + 1),
       claim_committed_at := carry_newest a b (claim_committed_at s),
       connection_scoped_claims :=
         migrate_receipts p a b (commit_seq s + 1) (connection_scoped_claims s),
       operator_pinned := (case operator_pinned s a of
           None \<Rightarrow> operator_pinned s | Some q \<Rightarrow> (operator_pinned s)(a := None, b \<mapsto> q)),
       pinned_by_peer := (case operator_pinned s a of
           None \<Rightarrow> pinned_by_peer s | Some q \<Rightarrow> (pinned_by_peer s)(q \<mapsto> b)),
       liveness_evidence_at := carry_newest a b (liveness_evidence_at s),
       snapshot := migrate_snapshot h a b \<lparr>node_id = p, kind = Verified\<rparr> (commit_seq s + 1)
         (operator_pinned s a) (snapshot s),
       routing := map_option (\<lambda>cs. (case operator_pinned s a of
           None \<Rightarrow> cs | Some q \<Rightarrow> cs @ [SetConfiguredPeerAddr b q (Some a)])
           @ [RetractOwner a p] @ [PublishOwner b p]) (routing s),
       commit_seq := commit_seq s + 1\<rparr>"

definition may_migrate :: "SocketAddr \<Rightarrow> SocketAddr \<Rightarrow> PeerId \<Rightarrow> PeerRegistryOwner \<Rightarrow> bool" where
  "may_migrate a b p s \<longleftrightarrow> reap_reserved s a = None \<and> reap_reserved s b = None
     \<and> addr_ownership s a = Some \<lparr>node_id = p, kind = Verified\<rparr>
     \<and> (\<forall>w. addr_ownership s b = Some w \<longrightarrow> w = \<lparr>node_id = p, kind = Verified\<rparr>)"

lemma migrate_cases:
  assumes "core_inv s"
  obtains (refused) r where "migrate h a b e loc s = (r, s)" and "migrate_commit_seq r = None"
  | (migrated) p where "may_migrate a b p s" and "\<not> loc" and "source_matches a e s"
      and "migrate h a b e loc s = (Migrated (commit_seq s + 1), moved h a b p s)"
proof -
  let ?taken = "(case addr_ownership s b of
                 None \<Rightarrow> False
               | Some existing \<Rightarrow>
                   (case addr_ownership s a of
                      Some w \<Rightarrow> node_id w \<noteq> node_id existing
                    | None \<Rightarrow> True))"
  let ?ok = "reap_reserved s a = None \<and> reap_reserved s b = None \<and> \<not> loc \<and> source_matches a e s
      \<and> \<not> ?taken \<and> addr_ownership s a \<noteq> None"
  show thesis
  proof (cases ?ok)
    case False
    then have "snd (migrate h a b e loc s) = s \<and> migrate_commit_seq (fst (migrate h a b e loc s)) = None"
      by (auto simp: migrate_def split: option.splits)
    then show thesis using refused by (metis prod.collapse)
  next
    case True
    then obtain w where w: "addr_ownership s a = Some w" by auto
    have v: "\<And>c w. addr_ownership s c = Some w \<Longrightarrow> kind w = Verified"
      using assms by (auto simp: core_inv_def)
    have we: "w = \<lparr>node_id = node_id w, kind = Verified\<rparr>" using v [OF w] by (cases w) simp
    have to: "\<And>x. addr_ownership s b = Some x \<Longrightarrow> x = \<lparr>node_id = node_id w, kind = Verified\<rparr>"
      using True w v by (auto intro: Owner_eqI)
    have k: "resolved_kind (addr_ownership s b) \<lparr>claimant = node_id w, claim_kind = kind w\<rparr> = Verified"
      using v [OF w] by (auto simp: resolved_kind_def split: option.split)
    have "migrate h a b e loc s = (Migrated (commit_seq s + 1), moved h a b (node_id w) s)"
      using True w v [OF w] k unfolding migrate_def
      by (cases "operator_pinned s a")
         (simp_all add: Let_def advance_def move_pin_def routing_call_def moved_def fun_upd_idem
           option.map_comp comp_def)
    moreover have "may_migrate a b (node_id w) s"
      using True w we to by (auto simp: may_migrate_def)
    ultimately show thesis using True migrated by blast
  qed
qed

lemma migrate_snapshot_views:
  assumes "snap_wf sn"
  shows "snap_wf (migrate_snapshot h a b w g pin sn)"
    and "published h (migrate_snapshot h a b w g pin sn) c =
      (if c = b then Some \<lparr>pub_owner = w, pub_generation = g\<rparr> else if c = a then None
       else published h sn c)"
    and "pin_owner h (migrate_snapshot h a b w g pin sn) c =
      (case pin of None \<Rightarrow> pin_owner h sn c
       | Some p \<Rightarrow> if c = b then Some p else if c = a then None else pin_owner h sn c)"
    and "pinned_addr_for (migrate_snapshot h a b w g pin sn) q =
      (case pin of None \<Rightarrow> pinned_addr_for sn q
       | Some p \<Rightarrow> if q = p then Some b
           else if b \<noteq> a \<and> pin_owner h sn b = Some q then None
           else if pin_owner h sn a = Some q \<and> pinned_addr_for sn q = Some a then None
           else pinned_addr_for sn q)"
  using assms
  by (auto simp: migrate_snapshot_def Let_def pinned_addr_for_with_pin split: option.split)

lemma published_entry_moved:
  "published_entry (moved h a b p s) c =
     (if c = b then Some \<lparr>pub_owner = \<lparr>node_id = p, kind = Verified\<rparr>, pub_generation = commit_seq s + 1\<rparr>
      else if c = a then None else published_entry s c)"
  by (simp add: published_entry_def moved_def split: option.split)

lemma moved_lookup:
  "addr_ownership (moved h a b p s) c =
     (if c = b then Some \<lparr>node_id = p, kind = Verified\<rparr> else if c = a then None else addr_ownership s c)"
  "operator_pinned (moved h a b p s) c = (case operator_pinned s a of None \<Rightarrow> operator_pinned s c
     | Some q \<Rightarrow> if c = b then Some q else if c = a then None else operator_pinned s c)"
  "pinned_by_peer (moved h a b p s) r = (case operator_pinned s a of None \<Rightarrow> pinned_by_peer s r
     | Some q \<Rightarrow> if r = q then Some b else pinned_by_peer s r)"
  by (simp_all add: moved_def split: option.split)

lemma may_migrate_pins:
  assumes inv: "owner_inv h s" and may: "may_migrate a b p s"
  shows "operator_pinned s a = Some q \<Longrightarrow> q = p" and "operator_pinned s b = Some q \<Longrightarrow> q = p"
  using inv may by (fastforce simp: owner_inv_def pin_inv_def may_migrate_def)+

lemma moved_pin_inv:
  assumes inv: "owner_inv h s" and may: "may_migrate a b p s"
  shows "pin_inv (moved h a b p s)"
proof -
  note pa = may_migrate_pins(1) [OF inv may] and pb = may_migrate_pins(2) [OF inv may]
  have pins: "\<And>c q. operator_pinned s c = Some q \<longleftrightarrow> pinned_by_peer s q = Some c"
    and owns: "\<And>c q. operator_pinned s c = Some q \<Longrightarrow> map_option node_id (addr_ownership s c) = Some q"
    using inv by (auto simp: owner_inv_def pin_inv_def)
  show ?thesis
  proof (cases "operator_pinned s a")
    case None
    then show ?thesis
      using pins owns pb by (simp add: pin_inv_def moved_def) (metis option.distinct(1))
  next
    case (Some q)
    then have q: "q = p" and at: "pinned_by_peer s p = Some a" using pa pins by auto
    have "operator_pinned (moved h a b p s) c = Some r \<longleftrightarrow>
        pinned_by_peer (moved h a b p s) r = Some c" for c r
    proof (cases "r = p")
      case True
      with at pins [of c p] show ?thesis unfolding moved_lookup Some q by auto
    next
      case False
      with Some q pb [of r] pins [of c r] show ?thesis unfolding moved_lookup by auto
    qed
    moreover have "map_option node_id (addr_ownership (moved h a b p s) c) = Some r"
      if "operator_pinned (moved h a b p s) c = Some r" for c r
      using that owns [of c r] Some q unfolding moved_lookup by (simp split: if_splits)
    ultimately show ?thesis by (simp only: pin_inv_def) blast
  qed
qed

lemma moved_snap_inv:
  assumes inv: "owner_inv h s" and may: "may_migrate a b p s"
  shows "snap_inv h (moved h a b p s)"
proof -
  have sn: "snap_wf (snapshot s)" "\<And>c. published h (snapshot s) c = published_entry s c"
    "\<And>c. pin_owner h (snapshot s) c = operator_pinned s c"
    "\<And>q. pinned_addr_for (snapshot s) q = pinned_by_peer s q"
    using inv by (simp_all add: owner_inv_def snap_inv_def)
  have m: "snapshot (moved h a b p s) = migrate_snapshot h a b \<lparr>node_id = p, kind = Verified\<rparr>
      (commit_seq s + 1) (operator_pinned s a) (snapshot s)"
    by (simp add: moved_def)
  have "pin_owner h (snapshot (moved h a b p s)) c = operator_pinned (moved h a b p s) c" for c
    unfolding m migrate_snapshot_views [OF sn(1)] sn(3)
    by (simp add: moved_def split: option.split)
  moreover have "pinned_addr_for (snapshot (moved h a b p s)) q = pinned_by_peer (moved h a b p s) q" for q
  proof (cases "operator_pinned s a")
    case None
    then show ?thesis unfolding m migrate_snapshot_views [OF sn(1)] sn by (simp add: moved_def)
  next
    case (Some r)
    then have "r = p" by (rule may_migrate_pins(1) [OF inv may])
    then show ?thesis unfolding m migrate_snapshot_views [OF sn(1)] sn
      using Some may_migrate_pins [OF inv may, of q] by (simp add: moved_def)
  qed
  ultimately show ?thesis
    by (simp add: snap_inv_def m migrate_snapshot_views [OF sn(1)] published_entry_moved sn(2))
qed

lemma moved_route_inv:
  assumes inv: "owner_inv h s" and may: "may_migrate a b p s"
  shows "route_inv (moved h a b p s)"
  unfolding route_inv_def
proof (intro allI impI)
  fix ds c assume "routing (moved h a b p s) = Some ds"
  then obtain cs where "routing s = Some cs"
    "ds = (case operator_pinned s a of None \<Rightarrow> cs
       | Some q \<Rightarrow> cs @ [SetConfiguredPeerAddr b q (Some a)]) @ [RetractOwner a p] @ [PublishOwner b p]"
    by (auto simp: moved_def)
  moreover have "map_option node_id (addr_ownership s a) = Some p"
    using may by (simp add: may_migrate_def)
  ultimately show "routes ds c = map_option node_id (addr_ownership (moved h a b p s) c)"
    using inv by (auto simp: owner_inv_def route_inv_def moved_def split: option.split)
qed

lemma moved_receipt_inv:
  assumes inv: "owner_inv h s" and may: "may_migrate a b p s"
  shows "receipt_inv (moved h a b p s)"
proof -
  have d: "keys_distinct (connection_scoped_claims s)"
    and rs: "\<And>q i c g. ((q, i, c), g) \<in> set (connection_scoped_claims s) \<Longrightarrow>
        map_option node_id (addr_ownership s c) = Some q \<and> claim_generation s c = Some g"
    using inv by (auto simp: owner_inv_def receipt_inv_def)
  have "q = p" if "((q, i, b), g) \<in> set (connection_scoped_claims s)" for q i g
    using rs [OF that] may by (auto simp: may_migrate_def)
  then show ?thesis
    using d rs by (auto simp: receipt_inv_def moved_def migrate_receipts_distinct
      dest!: migrate_receipts_sub)
qed

lemma moved_inv:
  assumes inv: "owner_inv h s" and may: "may_migrate a b p s"
  shows "owner_inv h (moved h a b p s)"
proof -
  have "core_inv (moved h a b p s)"
    using inv by (auto simp: owner_inv_def core_inv_def moved_def intro: le_SucI)
  moreover have "cell_inv (moved h a b p s)"
    using inv by (simp add: owner_inv_def cell_inv_def moved_def)
  ultimately show ?thesis
    by (simp add: owner_inv_def moved_pin_inv [OF inv may] moved_snap_inv [OF inv may] moved_route_inv [OF inv may]
      moved_receipt_inv [OF inv may])
qed

subsection \<open>Every command keeps the invariant\<close>

lemma owner_inv_core: "owner_inv h s \<Longrightarrow> core_inv s"
  by (simp add: owner_inv_def)

lemma claim_inv: "owner_inv h s \<Longrightarrow> owner_inv h (snd (claim h a cl loc s))"
  by (rule claim_cases [OF owner_inv_core, of h s h a cl loc]) (auto intro: claimed_inv)

lemma claim_connection_scoped_eq:
  assumes "core_inv s" and "claim h a cl False s = (Accepted k d c g, s1)"
  shows "claim_connection_scoped h a cl src i at s =
     (Accepted k d c g,
      s1\<lparr>claim_committed_at := (claim_committed_at s1)(a \<mapsto> at),
         connection_scoped_claims := (if operator_pinned s1 a = Some (claimant cl)
           then connection_scoped_claims s1
           else AList.update (claimant cl, i, a) g (connection_scoped_claims s1))\<rparr>)"
  using assms by (simp add: claim_connection_scoped_def)

lemma claim_connection_scoped_rejected:
  "claim h a cl False s = (Rejected r, s1) \<Longrightarrow>
   claim_connection_scoped h a cl src i at s = (Rejected r, s1)"
  by (simp add: claim_connection_scoped_def)

lemma claim_connection_scoped_inv:
  assumes inv: "owner_inv h s"
  shows "owner_inv h (snd (claim_connection_scoped h a cl src i at s))"
proof (rule claim_cases [OF owner_inv_core [OF inv], of h a cl False])
  fix r assume "claim h a cl False s = (Rejected r, s)"
  then show ?thesis using inv by (simp add: claim_connection_scoped_rejected)
next
  assume may: "may_claim a (claimant cl) s"
    and c: "claim h a cl False s =
      (Accepted Verified None (addr_ownership s a = None) (commit_seq s + 1), claimed h a (claimant cl) s)"
  let ?s = "claimed h a (claimant cl) s"
  have i1: "owner_inv h ?s" by (rule claimed_inv [OF inv may])
  have l: "addr_ownership ?s a = Some \<lparr>node_id = claimant cl, kind = Verified\<rparr>"
    "claim_generation ?s a = Some (commit_seq s + 1)"
    by (simp_all add: claimed_def)
  show ?thesis
    using i1 l by (auto simp: claim_connection_scoped_eq [OF owner_inv_core [OF inv] c] owner_inv_defs
      published_entry_def keys_distinct_update dest!: set_update_sub)
qed

lemma release_eq:
  "release h a p g s =
     (if operator_pinned s a = None \<and> map_option node_id (addr_ownership s a) = Some p
         \<and> claim_generation s a = Some g
      then (Some (commit_seq s + 1), dropped h a p s) else (None, s))"
  by (auto simp: release_def drop_owner_eq split: option.split)

lemma release_inv: "owner_inv h s \<Longrightarrow> owner_inv h (snd (release h a p g s))"
  by (auto simp: release_eq intro: dropped_inv)

lemma release_uncovered_Cons:
  "release_uncovered h p (a # as) s =
     (if operator_pinned s a = None \<and> map_option node_id (addr_ownership s a) = Some p
      then (case release_uncovered h p as (dropped h a p s) of
              (rs, s') \<Rightarrow> ((a, commit_seq s + 1) # rs, s'))
      else release_uncovered h p as s)"
  by (auto simp: drop_owner_eq split: option.split)

declare release_uncovered.simps(2) [simp del]

lemma release_uncovered_inv: "owner_inv h s \<Longrightarrow> owner_inv h (snd (release_uncovered h p as s))"
proof (induction as arbitrary: s)
  case (Cons a as)
  then show ?case
    unfolding release_uncovered_Cons
    by (auto simp: case_prod_beta intro!: Cons.IH dropped_inv)
qed simp

lemma release_session_inv: "owner_inv h s \<Longrightarrow> owner_inv h (snd (release_session h p src i s))"
  unfolding release_session_def Let_def
  by (rule release_uncovered_inv, rule filter_receipts_inv)

lemma release_dead_peer_inv:
  assumes "owner_inv h s"
  shows "owner_inv h (snd (release_dead_peer h p a before s))"
  using assms filter_receipts_inv [OF assms]
  by (auto simp: release_dead_peer_def Let_def drop_owner_eq split: option.split intro!: dropped_inv)

lemma cells_inv:
  "owner_inv h s \<Longrightarrow> length cells = length (reap_cells s) \<Longrightarrow> owner_inv h (s\<lparr>reap_cells := cells\<rparr>)"
  by (auto simp: owner_inv_defs published_entry_def)

lemma note_liveness_evidence_inv:
  assumes "owner_inv h s"
  shows "owner_inv h (note_liveness_evidence a at s)"
proof -
  have "owner_inv h (s\<lparr>liveness_evidence_at := m\<rparr>)" for m
    using assms by (simp add: owner_inv_defs published_entry_def)
  then show ?thesis
    by (auto simp: note_liveness_evidence_def invalidate_reap_reservation_def compare_exchange_def
      Let_def split: option.split intro!: cells_inv)
qed

lemma current_ownership_token_eq:
  "core_inv s \<Longrightarrow> current_ownership_token a s =
     Some (map_option (\<lambda>w. \<lparr>token_owner = node_id w, token_generation = the (claim_generation s a)\<rparr>)
       (addr_ownership s a))"
  by (cases "addr_ownership s a"; cases "claim_generation s a")
     (fastforce simp: core_inv_def current_ownership_token_def)+

text \<open>The conditions under which a reservation is granted.\<close>

definition reap_grantable ::
  "SocketAddr \<Rightarrow> Instant \<Rightarrow> OwnershipToken option \<Rightarrow> PeerId option \<Rightarrow> PeerId option \<Rightarrow>
   PeerRegistryOwner \<Rightarrow> bool" where
  "reap_grantable a before tok pin node s \<longleftrightarrow>
     \<not> newer_than (claim_committed_at s a) before \<and> reap_reserved s a = None
     \<and> current_ownership_token a s = Some tok \<and> operator_pinned s a = pin
     \<and> (\<forall>t. tok = Some t \<longrightarrow> node = Some (token_owner t))
     \<and> (\<forall>p. tok = None \<longrightarrow> pin = Some p \<longrightarrow> node = Some p)"

lemma reserve_for_reap_eq:
  assumes "core_inv s"
  shows "reserve_for_reap a before tok pin node s =
     Some (if reap_grantable a before tok pin node s
       then (Some (length (reap_cells s)),
             s\<lparr>reap_cells := reap_cells s @ [REAP_PENDING],
               reap_reserved := (reap_reserved s)(a \<mapsto> length (reap_cells s))\<rparr>)
       else (None, s))"
  using current_ownership_token_eq [OF assms, of a]
  by (cases tok; cases pin) (auto simp: reserve_for_reap_def reap_grantable_def Let_def)

lemma reserved_inv:
  assumes "owner_inv h s"
  shows "owner_inv h (s\<lparr>reap_cells := reap_cells s @ [x], reap_reserved := (reap_reserved s)(a \<mapsto> length (reap_cells s))\<rparr>)"
  using assms by (auto simp: owner_inv_defs published_entry_def less_Suc_eq)

lemma release_reap_reservation_inv: "owner_inv h s \<Longrightarrow> owner_inv h (release_reap_reservation a s)"
  by (auto simp: owner_inv_defs published_entry_def release_reap_reservation_def)

lemma set_ordinary_connect_route_inv:
  "owner_inv h s \<Longrightarrow> owner_inv h (snd (set_ordinary_connect_route p a s))"
  by (auto simp: owner_inv_defs published_entry_def set_ordinary_connect_route_def routing_call_def
    split: option.split)

lemma migrate_inv: "owner_inv h s \<Longrightarrow> owner_inv h (snd (migrate h a b e loc s))"
  by (rule migrate_cases [OF owner_inv_core, of h s h a b e loc]) (auto intro: moved_inv)

text \<open>The state after a committed \<open>configure_peer\<close> of \<open>p\<close> at \<open>a\<close>.\<close>

definition configured :: "hasher \<Rightarrow> SocketAddr \<Rightarrow> PeerId \<Rightarrow> PeerRegistryOwner \<Rightarrow> PeerRegistryOwner" where
  "configured h a p s =
     (let s' = pinned h a p (claimed h a p s)
      in case evicted_by a p s of None \<Rightarrow> s' | Some b \<Rightarrow> dropped h b p s')"

lemma dropped_filtered:
  "dropped h b p (s\<lparr>connection_scoped_claims :=
     filter (\<lambda>(key, _). fst key = q \<longrightarrow> snd (snd key) \<noteq> b) (connection_scoped_claims s)\<rparr>) = dropped h b p s"
proof -
  have "filter (\<lambda>(key, _). snd (snd key) \<noteq> b)
      (filter (\<lambda>(key, _). fst key = q \<longrightarrow> snd (snd key) \<noteq> b) (connection_scoped_claims s))
    = filter (\<lambda>(key, _). snd (snd key) \<noteq> b) (connection_scoped_claims s)"
    by (auto intro!: filter_cong)
  then show ?thesis by (simp add: dropped_def)
qed

lemma evicted_by_claimed [simp]: "evicted_by a p (claimed h c q s) = evicted_by a p s"
  by (simp add: evicted_by_def claimed_def)

lemma may_claim_pin:
  assumes "owner_inv h s" and "may_claim a p s" and "operator_pinned s a = Some q"
  shows "q = p"
  using assms by (fastforce simp: owner_inv_def pin_inv_def may_claim_def)

lemma evicted_owned:
  assumes "owner_inv h s" and "evicted_by a p s = Some b"
  shows "b \<noteq> a" and "operator_pinned s b = Some p" and "map_option node_id (addr_ownership s b) = Some p"
proof -
  have pb: "pinned_by_peer s p = Some b" and "b \<noteq> a"
    using assms(2) by (auto simp: evicted_by_def split: option.splits if_splits)
  then show "b \<noteq> a" by simp
  show "operator_pinned s b = Some p" using assms(1) pb by (simp add: owner_inv_def pin_inv_def)
  then show "map_option node_id (addr_ownership s b) = Some p"
    using assms(1) by (simp add: owner_inv_def pin_inv_def)
qed

lemma install_and_evict:
  assumes inv: "owner_inv h s" and may: "may_claim a p s"
  shows "(case install_pin h a p (claimed h a p s) of (evicted, s3) \<Rightarrow>
            case release_evicted h p evicted s3 of (seq, s4) \<Rightarrow> (evicted, seq, s4))
     = (evicted_by a p s, map_option (\<lambda>_. commit_seq s + 2) (evicted_by a p s), configured h a p s)"
proof -
  have "operator_pinned (claimed h a p s) a = Some q \<Longrightarrow> q = p" for q
    using may_claim_pin [OF inv may] by (simp add: claimed_def)
  then have ip: "install_pin h a p (claimed h a p s) =
      (evicted_by a p s, pinned h a p (claimed h a p s))"
    by (subst install_pin_eq) simp_all
  show ?thesis
  proof (cases "evicted_by a p s")
    case None
    then show ?thesis by (simp add: ip release_evicted_def configured_def)
  next
    case (Some b)
    note ev = evicted_owned [OF inv Some]
    have "map_option node_id (addr_ownership (pinned h a p (claimed h a p s)) b) = Some p"
      using ev by (simp add: pinned_def claimed_def)
    moreover have "commit_seq (pinned h a p (claimed h a p s)) = commit_seq s + 1"
      by (simp add: pinned_def claimed_def)
    ultimately show ?thesis
      using Some by (auto simp: ip release_evicted_def configured_def Let_def drop_owner_eq dropped_filtered)
  qed
qed

lemma configured_inv:
  assumes inv: "owner_inv h s" and may: "may_claim a p s"
  shows "owner_inv h (configured h a p s)"
proof -
  let ?s = "pinned h a p (claimed h a p s)"
  have i: "owner_inv h ?s"
    by (rule pinned_inv [OF claimed_inv [OF inv may]]) (simp add: claimed_def)
  show ?thesis
  proof (cases "evicted_by a p s")
    case (Some b)
    note ev = evicted_owned [OF inv Some]
    have "pinned_by_peer (claimed h a p s) p = Some b"
      using Some by (auto simp: evicted_by_def claimed_def split: option.splits if_splits)
    then have "operator_pinned ?s b = None" using ev(1) by (simp add: pinned_lookup)
    moreover obtain w where "addr_ownership ?s b = Some w" "node_id w = p"
      using ev by (auto simp: pinned_def claimed_def)
    ultimately show ?thesis using i Some by (simp add: configured_def dropped_inv)
  qed (use i in \<open>simp add: configured_def\<close>)
qed

lemma generation_only_inv:
  "owner_inv h s \<Longrightarrow> owner_inv h (s\<lparr>configure_peer_generation := m\<rparr>)"
  by (simp add: owner_inv_defs published_entry_def)

text \<open>The generation a request runs at, and the state in which it has been recorded.\<close>

definition request_generation :: "PeerId \<Rightarrow> nat option \<Rightarrow> PeerRegistryOwner \<Rightarrow> nat" where
  "request_generation p expected s =
     (case expected of Some g \<Rightarrow> g | None \<Rightarrow> configure_peer_generation_of p s + 1)"

definition requested :: "PeerId \<Rightarrow> nat option \<Rightarrow> PeerRegistryOwner \<Rightarrow> PeerRegistryOwner" where
  "requested p expected s =
     (case expected of
        Some g \<Rightarrow> s
      | None \<Rightarrow> s\<lparr>configure_peer_generation :=
          (configure_peer_generation s)(p \<mapsto> configure_peer_generation_of p s + 1)\<rparr>)"

lemma requested_inv: "owner_inv h s \<Longrightarrow> owner_inv h (requested p e s)"
  by (cases e) (simp_all add: requested_def generation_only_inv)

lemma requested_fields [simp]:
  "addr_ownership (requested p e s) = addr_ownership s"
  "claim_generation (requested p e s) = claim_generation s"
  "claim_committed_at (requested p e s) = claim_committed_at s"
  "liveness_evidence_at (requested p e s) = liveness_evidence_at s"
  "connection_scoped_claims (requested p e s) = connection_scoped_claims s"
  "operator_pinned (requested p e s) = operator_pinned s"
  "pinned_by_peer (requested p e s) = pinned_by_peer s"
  "reap_reserved (requested p e s) = reap_reserved s"
  "reap_cells (requested p e s) = reap_cells s"
  "snapshot (requested p e s) = snapshot s"
  "routing (requested p e s) = routing s"
  "commit_seq (requested p e s) = commit_seq s"
  by (simp_all add: requested_def split: option.split)

definition previous_pin_reserved :: "SocketAddr \<Rightarrow> PeerId \<Rightarrow> PeerRegistryOwner \<Rightarrow> bool" where
  "previous_pin_reserved a p s =
     (case pinned_by_peer s p of
        Some previous \<Rightarrow> previous \<noteq> a \<and> reap_reserved s previous \<noteq> None
      | None \<Rightarrow> False)"

definition superseded :: "PeerId \<Rightarrow> nat option \<Rightarrow> PeerRegistryOwner \<Rightarrow> bool" where
  "superseded p e s =
     (case e of Some expected \<Rightarrow> expected < configure_peer_generation_of p s | None \<Rightarrow> False)"

lemma configure_peer_run:
  assumes "\<not> previous_pin_reserved a p s" and "\<not> superseded p e s"
  shows "configure_peer h a p e s =
      (case claim h a \<lparr>claimant = p, claim_kind = Verified\<rparr> False (requested p e s) of (commit, s2) \<Rightarrow>
        if \<not> is_accepted commit
        then (\<lparr>configured_claim = commit, evicted_pin = None, evicted_release_seq = None,
               configured_generation = request_generation p e s\<rparr>, s2)
        else case (case install_pin h a p s2 of (evicted, s3) \<Rightarrow>
                     case release_evicted h p evicted s3 of (seq, s4) \<Rightarrow> (evicted, seq, s4))
             of (evicted, seq, s4) \<Rightarrow>
               (\<lparr>configured_claim = commit, evicted_pin = evicted, evicted_release_seq = seq,
                 configured_generation = request_generation p e s\<rparr>, s4))"
proof -
  have gen: "(case e of Some expected \<Rightarrow> (expected, s)
      | None \<Rightarrow> (configure_peer_generation_of p s + 1,
          s\<lparr>configure_peer_generation :=
              (configure_peer_generation s)(p \<mapsto> configure_peer_generation_of p s + 1)\<rparr>))
    = (request_generation p e s, requested p e s)"
    by (cases e) (simp_all add: request_generation_def requested_def)
  show ?thesis
    using assms unfolding configure_peer_def Let_def gen previous_pin_reserved_def superseded_def
    by (simp add: case_prod_beta)
qed

lemma configure_peer_accepted:
  assumes inv: "owner_inv h s" and free: "\<not> previous_pin_reserved a p s" "\<not> superseded p e s"
    and may: "may_claim a p s"
    and cl: "claim h a \<lparr>claimant = p, claim_kind = Verified\<rparr> False (requested p e s) =
      (Accepted Verified None (addr_ownership s a = None) (commit_seq s + 1), claimed h a p (requested p e s))"
  shows "configure_peer h a p e s =
      (\<lparr>configured_claim = Accepted Verified None (addr_ownership s a = None) (commit_seq s + 1),
        evicted_pin = evicted_by a p s,
        evicted_release_seq = map_option (\<lambda>_. commit_seq s + 2) (evicted_by a p s),
        configured_generation = request_generation p e s\<rparr>, configured h a p (requested p e s))"
proof -
  have "may_claim a p (requested p e s)" using may by (simp add: may_claim_def)
  note ie = install_and_evict [OF requested_inv [OF inv] this]
  have "evicted_by a p (requested p e s) = evicted_by a p s" by (simp add: evicted_by_def)
  with ie show ?thesis by (simp add: configure_peer_run [OF free] cl)
qed

lemma configure_peer_cases:
  assumes inv: "owner_inv h s"
  obtains (refused) r g where "configure_peer h a p e s =
      (\<lparr>configured_claim = Rejected r, evicted_pin = None, evicted_release_seq = None,
        configured_generation = g\<rparr>, s)"
  | (rejected) r where "configure_peer h a p e s =
      (\<lparr>configured_claim = Rejected r, evicted_pin = None, evicted_release_seq = None,
        configured_generation = request_generation p e s\<rparr>, requested p e s)"
  | (committed) "may_claim a p s" and "\<And>b. pinned_by_peer s p = Some b \<Longrightarrow> b \<noteq> a \<Longrightarrow> reap_reserved s b = None"
      and "\<And>g. e = Some g \<Longrightarrow> configure_peer_generation_of p s \<le> g"
      and "configure_peer h a p e s =
      (\<lparr>configured_claim = Accepted Verified None (addr_ownership s a = None) (commit_seq s + 1),
        evicted_pin = evicted_by a p s,
        evicted_release_seq = map_option (\<lambda>_. commit_seq s + 2) (evicted_by a p s),
        configured_generation = request_generation p e s\<rparr>, configured h a p (requested p e s))"
proof -
  let ?cl = "\<lparr>claimant = p, claim_kind = Verified\<rparr>"
  have inv': "owner_inv h (requested p e s)" by (rule requested_inv [OF inv])
  show thesis
  proof (cases "previous_pin_reserved a p s \<or> superseded p e s")
    case True
    then have "\<exists>r. configure_peer h a p e s =
        (\<lparr>configured_claim = Rejected r, evicted_pin = None, evicted_release_seq = None,
          configured_generation = configure_peer_generation_of p s\<rparr>, s)"
      by (cases "previous_pin_reserved a p s")
         (auto simp: configure_peer_def Let_def previous_pin_reserved_def superseded_def)
    then show thesis using refused by blast
  next
    case False
    then have free: "\<not> previous_pin_reserved a p s" "\<not> superseded p e s" by auto
    show thesis
    proof (rule claim_cases [OF owner_inv_core [OF inv'], of h a ?cl False])
      fix r assume "claim h a ?cl False (requested p e s) = (Rejected r, requested p e s)"
      then show thesis using rejected by (simp add: configure_peer_run [OF free])
    next
      assume "may_claim a (claimant ?cl) (requested p e s)"
      then have may: "may_claim a p s" by (simp add: may_claim_def)
      assume "claim h a ?cl False (requested p e s) =
          (Accepted Verified None (addr_ownership (requested p e s) a = None)
             (commit_seq (requested p e s) + 1), claimed h a (claimant ?cl) (requested p e s))"
      then have "configure_peer h a p e s =
      (\<lparr>configured_claim = Accepted Verified None (addr_ownership s a = None) (commit_seq s + 1),
        evicted_pin = evicted_by a p s,
        evicted_release_seq = map_option (\<lambda>_. commit_seq s + 2) (evicted_by a p s),
        configured_generation = request_generation p e s\<rparr>, configured h a p (requested p e s))"
        by (intro configure_peer_accepted inv free may) simp
      moreover have "pinned_by_peer s p = Some b \<Longrightarrow> b \<noteq> a \<Longrightarrow> reap_reserved s b = None" for b
        using free(1) by (simp add: previous_pin_reserved_def)
      moreover have "e = Some g \<Longrightarrow> configure_peer_generation_of p s \<le> g" for g
        using free(2) by (simp add: superseded_def)
      ultimately show thesis using committed may by blast
    qed
  qed
qed

lemma configure_peer_committed:
  assumes inv: "owner_inv h s" and may: "may_claim a p s" and free: "\<not> previous_pin_reserved a p s"
  shows "configure_peer h a p None s =
      (\<lparr>configured_claim = Accepted Verified None (addr_ownership s a = None) (commit_seq s + 1),
        evicted_pin = evicted_by a p s,
        evicted_release_seq = map_option (\<lambda>_. commit_seq s + 2) (evicted_by a p s),
        configured_generation = request_generation p None s\<rparr>, configured h a p (requested p None s))"
proof (rule configure_peer_accepted [OF inv free _ may])
  let ?cl = "\<lparr>claimant = p, claim_kind = Verified\<rparr>"
  have "arbitrate (addr_ownership s a) ?cl False = Accept"
    using may by (auto simp: arbitrate_def may_claim_def split: option.split)
  then show "claim h a ?cl False (requested p None s) =
      (Accepted Verified None (addr_ownership s a = None) (commit_seq s + 1),
       claimed h a p (requested p None s))"
    using may by (simp add: claim_eq [OF owner_inv_core [OF requested_inv [OF inv]]] may_claim_def)
qed (simp add: superseded_def)

lemma configure_peer_inv: "owner_inv h s \<Longrightarrow> owner_inv h (snd (configure_peer h a p e s))"
proof (rule configure_peer_cases [of h s a p e])
  assume inv: "owner_inv h s" and "may_claim a p s"
  then have "may_claim a p (requested p e s)" by (simp add: may_claim_def)
  with inv have "owner_inv h (configured h a p (requested p e s))"
    by (intro configured_inv requested_inv)
  moreover assume "configure_peer h a p e s =
      (\<lparr>configured_claim = Accepted Verified None (addr_ownership s a = None) (commit_seq s + 1),
        evicted_pin = evicted_by a p s,
        evicted_release_seq = map_option (\<lambda>_. commit_seq s + 2) (evicted_by a p s),
        configured_generation = request_generation p e s\<rparr>, configured h a p (requested p e s))"
  ultimately show ?thesis by simp
qed (simp_all add: requested_inv)

lemma handle_inv:
  assumes "owner_inv h s"
  obtains r s' where "handle h c s = Some (r, s')" and "owner_inv h s'"
proof -
  note inv = claim_inv [OF assms] claim_connection_scoped_inv [OF assms] release_inv [OF assms]
    release_session_inv [OF assms] release_dead_peer_inv [OF assms] migrate_inv [OF assms]
    note_liveness_evidence_inv [OF assms] release_reap_reservation_inv [OF assms]
    set_ordinary_connect_route_inv [OF assms] configure_peer_inv [OF assms] reserved_inv [OF assms]
  have "\<exists>r s'. handle h c s = Some (r, s') \<and> owner_inv h s'"
    using inv assms
    by (cases c) (auto simp: case_prod_beta reserve_for_reap_eq [OF owner_inv_core [OF assms]])
  then show thesis using that by blast
qed

text \<open>One command on the task's state: the state after it.\<close>

definition handled :: "hasher \<Rightarrow> OwnerCommand \<Rightarrow> PeerRegistryOwner \<Rightarrow> PeerRegistryOwner" where
  "handled h c s = (case handle h c s of Some (_, s') \<Rightarrow> s' | None \<Rightarrow> s)"

interpretation owner_task: invariant_ops "owner_inv h" "handled h" for h
proof
  fix s c assume "owner_inv h s"
  then obtain r s' where "handle h c s = Some (r, s')" "owner_inv h s'" by (rule handle_inv)
  then show "owner_inv h (handled h c s)" by (simp add: handled_def)
qed

end
