(* ===== verification/Registry_Properties.thy ===== *)
theory Registry_Properties
  imports Registry_Invariant
begin

text \<open>
  What the single-owner actor guarantees to its clients: the lock-free snapshot and the
  routing table are exactly its tables after every command, an address changes hands only
  through commands of the identities concerned, the first verified claimant keeps an
  address, a session teardown releases exactly what no other session covers, and a
  configuration moves its pin and its ownership together.
\<close>

subsection \<open>Ownership after each command\<close>

lemma release_uncovered_ownership:
  "addr_ownership (snd (release_uncovered h p as s)) a =
     (if a \<in> set as \<and> operator_pinned s a = None \<and> map_option node_id (addr_ownership s a) = Some p
      then None else addr_ownership s a)"
proof (induction as arbitrary: s)
  case (Cons b as)
  show ?case
    by (cases "operator_pinned s b = None \<and> map_option node_id (addr_ownership s b) = Some p")
       (auto simp: release_uncovered_Cons case_prod_beta Cons.IH dropped_def)
qed simp

lemma release_uncovered_pins [simp]:
  "operator_pinned (snd (release_uncovered h p as s)) = operator_pinned s"
proof (induction as arbitrary: s)
  case (Cons b as)
  show ?case
    by (cases "operator_pinned s b = None \<and> map_option node_id (addr_ownership s b) = Some p")
       (auto simp: release_uncovered_Cons case_prod_beta Cons.IH dropped_def)
qed simp

text \<open>The addresses a session exit leaves without a covering session.\<close>

definition uncovered :: "PeerId \<Rightarrow> u64 \<Rightarrow> SocketAddr \<Rightarrow> PeerRegistryOwner \<Rightarrow> bool" where
  "uncovered p i a s \<longleftrightarrow>
     map_of (connection_scoped_claims s) (p, i, a) \<noteq> None
     \<and> (\<forall>j. j \<noteq> i \<longrightarrow> map_of (connection_scoped_claims s) (p, j, a) = None)"

lemma release_session_ownership:
  assumes inv: "owner_inv h s"
  shows "addr_ownership (snd (release_session h p src i s)) a =
     (if uncovered p i a s \<and> operator_pinned s a = None then None else addr_ownership s a)"
proof -
  let ?rs = "connection_scoped_claims s"
  let ?mine = "\<lambda>(key, _). fst key = p \<and> fst (snd key) = i"
  let ?rest = "filter (\<lambda>e. \<not> ?mine e) ?rs"
  let ?as = "filter (\<lambda>addr. \<not> list_ex (\<lambda>(key, _). fst key = p \<and> snd (snd key) = addr) ?rest)
      (map (\<lambda>(key, _). snd (snd key)) (filter ?mine ?rs))"
  have listed: "map_of ?rs (p, j, a) \<noteq> None \<longleftrightarrow> (\<exists>g. ((p, j, a), g) \<in> set ?rs)" for j
    by (force simp: map_of_eq_None_iff)
  have own: "\<exists>g. ((p, i, a), g) \<in> set ?rs \<Longrightarrow> map_option node_id (addr_ownership s a) = Some p"
    using inv by (auto simp: owner_inv_def receipt_inv_def)
  have "a \<in> set ?as \<longleftrightarrow>
      (\<exists>g. ((p, i, a), g) \<in> set ?rs) \<and> \<not> (\<exists>j g. j \<noteq> i \<and> ((p, j, a), g) \<in> set ?rs)"
    by (auto simp: list_ex_iff image_iff Bex_def)
  then have "a \<in> set ?as \<longleftrightarrow> uncovered p i a s"
    unfolding uncovered_def using listed by blast
  moreover have "uncovered p i a s \<Longrightarrow> map_option node_id (addr_ownership s a) = Some p"
    unfolding uncovered_def using listed own by blast
  ultimately show ?thesis
    unfolding release_session_def Let_def release_uncovered_ownership by simp
qed

text \<open>The commands through which \<open>p\<close> may gain, or lose, the address \<open>a\<close>.\<close>

fun gains :: "OwnerCommand \<Rightarrow> PeerId \<Rightarrow> SocketAddr \<Rightarrow> PeerRegistryOwner \<Rightarrow> bool" where
  "gains (CmdClaim b cl loc) p a s =
     (b = a \<and> claimant cl = p \<and> claim_kind cl = Verified \<and> \<not> loc)"
| "gains (CmdClaimConnectionScoped b cl src i at) p a s =
     (b = a \<and> claimant cl = p \<and> claim_kind cl = Verified)"
| "gains (CmdConfigurePeer b q e) p a s = (b = a \<and> q = p)"
| "gains (CmdMigrate b c e loc) p a s =
     (c = a \<and> \<not> loc \<and> map_option node_id (addr_ownership s b) = Some p \<and> source_matches b e s)"
| "gains _ p a s = False"

fun loses :: "OwnerCommand \<Rightarrow> PeerId \<Rightarrow> SocketAddr \<Rightarrow> PeerRegistryOwner \<Rightarrow> bool" where
  "loses (CmdRelease b q g) p a s =
     (b = a \<and> q = p \<and> claim_generation s a = Some g \<and> operator_pinned s a = None)"
| "loses (CmdReleaseSession q src i) p a s = (q = p \<and> uncovered p i a s \<and> operator_pinned s a = None)"
| "loses (CmdReleaseDeadPeer q b before) p a s =
     (b = a \<and> q = p \<and> operator_pinned s a = None
      \<and> (reap_committed a s \<or> \<not> has_newer_liveness_evidence a before s))"
| "loses (CmdConfigurePeer b q e) p a s =
     (q = p \<and> pinned_by_peer s p = Some a \<and> b \<noteq> a \<and> reap_reserved s a = None)"
| "loses (CmdMigrate b c e loc) p a s =
     (b = a \<and> c \<noteq> a \<and> source_matches a e s \<and> reap_reserved s a = None)"
| "loses _ p a s = False"

definition ownership_step :: "OwnerCommand \<Rightarrow> SocketAddr \<Rightarrow> PeerRegistryOwner \<Rightarrow> PeerRegistryOwner \<Rightarrow> bool" where
  "ownership_step c a s s' \<longleftrightarrow>
     addr_ownership s' a = addr_ownership s a
     \<or> (\<exists>p. addr_ownership s a = None \<and> addr_ownership s' a = Some \<lparr>node_id = p, kind = Verified\<rparr>
          \<and> reap_reserved s a = None \<and> gains c p a s)
     \<or> (\<exists>p. addr_ownership s a = Some \<lparr>node_id = p, kind = Verified\<rparr> \<and> addr_ownership s' a = None
          \<and> loses c p a s)"

lemma owned_eq:
  assumes "owner_inv h s" and "map_option node_id (addr_ownership s a) = Some p"
  shows "addr_ownership s a = Some \<lparr>node_id = p, kind = Verified\<rparr>"
  using assms by (auto simp: owner_inv_def core_inv_def intro: Owner_eqI)

lemma claimed_ownership:
  "addr_ownership (claimed h a p s) c = (if c = a then Some \<lparr>node_id = p, kind = Verified\<rparr> else addr_ownership s c)"
  by (simp add: claimed_def)

lemma claimed_step:
  assumes "may_claim b p s" and "addr_ownership s b = None \<Longrightarrow> gains c p b s"
    and "addr_ownership s' = addr_ownership (claimed h b p s)"
  shows "ownership_step c a s s'"
  using assms by (cases "addr_ownership s a")
    (auto simp: ownership_step_def claimed_ownership may_claim_def)

lemma configured_ownership:
  "addr_ownership (configured h a p s) c =
     (if evicted_by a p s = Some c then None
      else if c = a then Some \<lparr>node_id = p, kind = Verified\<rparr> else addr_ownership s c)"
  by (auto simp: configured_def Let_def dropped_def pinned_def claimed_def split: option.split)

lemma configure_step:
  assumes inv: "owner_inv h s"
  shows "ownership_step (CmdConfigurePeer b p e) a s (snd (configure_peer h b p e s))"
proof (rule configure_peer_cases [OF inv, of b p e])
  assume may: "may_claim b p s"
    and free: "\<And>b'. pinned_by_peer s p = Some b' \<Longrightarrow> b' \<noteq> b \<Longrightarrow> reap_reserved s b' = None"
    and c: "configure_peer h b p e s =
      (\<lparr>configured_claim = Accepted Verified None (addr_ownership s b = None) (commit_seq s + 1),
        evicted_pin = evicted_by b p s,
        evicted_release_seq = map_option (\<lambda>_. commit_seq s + 2) (evicted_by b p s),
        configured_generation = request_generation p e s\<rparr>, configured h b p (requested p e s))"
  have ev: "evicted_by b p (requested p e s) = evicted_by b p s" by (simp add: evicted_by_def)
  show ?thesis
  proof (cases "evicted_by b p s = Some a")
    case True
    note own = evicted_owned [OF inv True]
    have "pinned_by_peer s p = Some a"
      using True by (auto simp: evicted_by_def split: option.splits if_splits)
    then show ?thesis
      using own free owned_eq [OF inv own(3)] True
      by (auto simp: c ownership_step_def configured_ownership ev)
  next
    case False
    then show ?thesis
      using may by (cases "addr_ownership s a")
        (auto simp: c ownership_step_def configured_ownership ev may_claim_def)
  qed
qed (simp_all add: ownership_step_def)

lemma migrate_step:
  assumes inv: "owner_inv h s"
  shows "ownership_step (CmdMigrate b d e loc) a s (snd (migrate h b d e loc s))"
proof (rule migrate_cases [OF owner_inv_core [OF inv], of h b d e loc])
  fix p assume may: "may_migrate b d p s" and "\<not> loc" "source_matches b e s"
    and "migrate h b d e loc s = (Migrated (commit_seq s + 1), moved h b d p s)"
  then show ?thesis
    by (cases "addr_ownership s a") (auto simp: ownership_step_def moved_lookup may_migrate_def)
qed (simp add: ownership_step_def)

lemma release_step:
  assumes inv: "owner_inv h s"
  shows "ownership_step (CmdRelease b q g) a s (snd (release h b q g s))"
  using owned_eq [OF inv, of a q]
  by (auto simp: ownership_step_def release_eq dropped_def)

lemma release_session_step:
  assumes inv: "owner_inv h s"
  shows "ownership_step (CmdReleaseSession q src i) a s (snd (release_session h q src i s))"
proof (cases "uncovered q i a s \<and> operator_pinned s a = None")
  case True
  then have "\<exists>g. ((q, i, a), g) \<in> set (connection_scoped_claims s)"
    by (auto simp: uncovered_def dest: map_of_SomeD)
  then have "map_option node_id (addr_ownership s a) = Some q"
    using inv by (auto simp: owner_inv_def receipt_inv_def)
  with True owned_eq [OF inv this] show ?thesis
    by (auto simp: ownership_step_def release_session_ownership [OF inv])
qed (auto simp: ownership_step_def release_session_ownership [OF inv])

lemma release_dead_peer_ownership:
  "addr_ownership (snd (release_dead_peer h p b before s)) a =
     (if a = b \<and> operator_pinned s a = None \<and> map_option node_id (addr_ownership s a) = Some p
         \<and> (reap_committed a s \<or> \<not> has_newer_liveness_evidence a before s)
      then None else addr_ownership s a)"
  by (auto simp: release_dead_peer_def has_newer_liveness_evidence_def Let_def drop_owner_eq
    dropped_def split: option.split)

lemma release_dead_peer_step:
  assumes inv: "owner_inv h s"
  shows "ownership_step (CmdReleaseDeadPeer q b before) a s (snd (release_dead_peer h q b before s))"
  using owned_eq [OF inv, of a q]
  by (auto simp: ownership_step_def release_dead_peer_ownership)

lemma handled_ownership_step:
  assumes inv: "owner_inv h s"
  shows "ownership_step c a s (handled h c s)"
proof -
  have claims: "ownership_step (CmdClaim b cl loc) a s (snd (claim h b cl loc s))" for b cl loc
    by (rule claim_cases [OF owner_inv_core [OF inv], of h b cl loc])
       (auto simp: ownership_step_def [of _ _ s s] intro: claimed_step)
  have scoped: "ownership_step (CmdClaimConnectionScoped b cl src i at) a s
      (snd (claim_connection_scoped h b cl src i at s))" for b cl src i at
    by (rule claim_cases [OF owner_inv_core [OF inv], of h b cl False])
       (auto simp: ownership_step_def [of _ _ s s] claim_connection_scoped_rejected
          claim_connection_scoped_eq [OF owner_inv_core [OF inv]] intro!: claimed_step)
  show ?thesis
    using claims scoped configure_step [OF inv] migrate_step [OF inv] release_step [OF inv]
      release_session_step [OF inv] release_dead_peer_step [OF inv]
    by (cases c) (simp_all add: handled_def case_prod_beta reserve_for_reap_eq [OF owner_inv_core [OF inv]]
      note_liveness_evidence_def invalidate_reap_reservation_def release_reap_reservation_def
      set_ordinary_connect_route_def routing_call_def ownership_step_def [of _ _ s] Let_def
      split: option.split)
qed

subsection \<open>Receipts after a session exit\<close>

lemma release_uncovered_receipts:
  "map_of (connection_scoped_claims (snd (release_uncovered h p as s))) (q, j, b) =
     (if b \<in> set as \<and> operator_pinned s b = None \<and> map_option node_id (addr_ownership s b) = Some p
      then None else map_of (connection_scoped_claims s) (q, j, b))"
proof (induction as arbitrary: s)
  case (Cons c as)
  show ?case
    by (cases "operator_pinned s c = None \<and> map_option node_id (addr_ownership s c) = Some p")
       (auto simp: release_uncovered_Cons case_prod_beta dropped_def Cons.IH
         map_of_filter_keys [where P = "\<lambda>key. snd (snd key) \<noteq> c"])
qed simp

text \<open>The receipts a session exit keeps: every one but its own.\<close>

lemma release_session_receipts:
  assumes inv: "owner_inv h s"
  shows "map_of (connection_scoped_claims (snd (release_session h p src i s))) (q, j, b) =
     (if q = p \<and> j = i then None else map_of (connection_scoped_claims s) (q, j, b))"
proof -
  let ?rs = "connection_scoped_claims s"
  let ?mine = "\<lambda>(key, _). fst key = p \<and> fst (snd key) = i"
  let ?rest = "filter (\<lambda>e. \<not> ?mine e) ?rs"
  have rest: "map_of ?rest k = (if fst k = p \<and> fst (snd k) = i then None else map_of ?rs k)" for k
    using map_of_filter_keys [of "\<lambda>key. \<not> (fst key = p \<and> fst (snd key) = i)" ?rs k]
    by (simp add: case_prod_unfold)
  have own: "map_option node_id (addr_ownership s b) = Some q" if "map_of ?rs (q, j, b) = Some g" for g
    using inv map_of_SomeD [OF that] by (auto simp: owner_inv_def receipt_inv_def)
  have none: "map_of ?rs (q, j, b) = None"
    if "\<not> list_ex (\<lambda>(key, _). fst key = p \<and> snd (snd key) = b) ?rest"
      "map_option node_id (addr_ownership s b) = Some p" "\<not> (q = p \<and> j = i)"
  proof (rule ccontr)
    assume "map_of ?rs (q, j, b) \<noteq> None"
    then obtain g where g: "map_of ?rs (q, j, b) = Some g" by auto
    then have "q = p" using own that(2) by auto
    with g that(3) have "map_of ?rest (p, j, b) = Some g" by (simp add: rest)
    then have "((p, j, b), g) \<in> set ?rest" by (rule map_of_SomeD)
    with that(1) show False by (fastforce simp: list_ex_iff)
  qed
  show ?thesis
    unfolding release_session_def Let_def release_uncovered_receipts
    using none by (auto simp: rest)
qed

subsection \<open>Properties\<close>

definition run_owner :: "hasher \<Rightarrow> OwnerCommand list \<Rightarrow> PeerRegistryOwner" where
  "run_owner h cmds = fold (handled h) cmds new_owner"

lemma run_owner_inv: "owner_inv h (run_owner h cmds)"
  unfolding run_owner_def by (rule owner_task.inv_fold [OF new_owner_inv])

text \<open>
  Concrete values for the witnesses: two addresses, two identities, a constant hash.
\<close>

definition addr1 :: SocketAddr where "addr1 = SocketAddrV4 0x0A000001 7000"
definition addr2 :: SocketAddr where "addr2 = SocketAddrV4 0x0A000002 7000"
definition peer1 :: PeerId where "peer1 = PeerId [1]"
definition peer2 :: PeerId where "peer2 = PeerId [2]"
definition hash0 :: hasher where "hash0 a = 0"

lemma example_values [simp]:
  "addr1 \<noteq> addr2" "addr2 \<noteq> addr1" "peer1 \<noteq> peer2" "peer2 \<noteq> peer1"
  by (simp_all add: addr1_def addr2_def peer1_def peer2_def)

lemma snap_views:
  assumes "owner_inv h s"
  shows "snap_owner h (snapshot s) a = addr_ownership s a"
    and "current_ownership_token a s = Some (snap_ownership_token h (snapshot s) a)"
    and "pin_owner h (snapshot s) a = operator_pinned s a"
    and "pinned_addr_for (snapshot s) p = pinned_by_peer s p"
    and "snap_peer_id h (snapshot s) a = map_option node_id (addr_ownership s a)"
proof -
  have c: "core_inv s" and sn: "snap_inv h s" using assms by (simp_all add: owner_inv_def)
  have "addr_ownership s a = Some w \<Longrightarrow> \<exists>g. claim_generation s a = Some g" for w
    using c by (auto simp: core_inv_def)
  then have e: "published_entry s a =
      map_option (\<lambda>w. \<lparr>pub_owner = w, pub_generation = the (claim_generation s a)\<rparr>) (addr_ownership s a)"
    by (cases "addr_ownership s a") (auto simp: published_entry_def)
  show o: "snap_owner h (snapshot s) a = addr_ownership s a"
    using sn by (simp add: snap_owner_def snap_inv_def e option.map_comp comp_def option.map_ident)
  show "current_ownership_token a s = Some (snap_ownership_token h (snapshot s) a)"
    using sn by (simp add: current_ownership_token_eq [OF c] snap_ownership_token_def snap_inv_def e
      option.map_comp comp_def)
  show "pin_owner h (snapshot s) a = operator_pinned s a"
    "pinned_addr_for (snapshot s) p = pinned_by_peer s p"
    using sn by (simp_all add: snap_inv_def)
  show "snap_peer_id h (snapshot s) a = map_option node_id (addr_ownership s a)"
    by (simp add: snap_peer_id_def o)
qed

text \<open>
  C22. After any sequence of commands the owner task does not panic on any further one, and
  what readers see without entering its mailbox is exactly its own state: the snapshot gives
  for every address the recorded owner and its current generation, a pin is published in
  both directions or in neither, a pinned address is owned by the pinned identity, and the
  calls made on the routing publisher, replayed, route each address to its owner.
\<close>

theorem snapshot_is_exact:
  "let s = run_owner h cmds; sn = snapshot s in
     (\<forall>c. handle h c s \<noteq> None)
     \<and> (\<forall>a. snap_owner h sn a = addr_ownership s a)
     \<and> (\<forall>a. current_ownership_token a s = Some (snap_ownership_token h sn a))
     \<and> (\<forall>a p. pin_is_current h sn a p \<longleftrightarrow> pinned_addr_for sn p = Some a)
     \<and> (\<forall>a p. pin_is_current h sn a p \<longrightarrow> snap_peer_id h sn a = Some p)
     \<and> (\<forall>cs. routing s = Some cs \<longrightarrow> routes cs = snap_peer_id h sn)"
proof -
  define s where "s = run_owner h cmds"
  have inv: "owner_inv h s" unfolding s_def by (rule run_owner_inv)
  note v = snap_views [OF inv]
  have "handle h c s \<noteq> None" for c by (rule handle_inv [OF inv, of c]) simp
  moreover have "\<forall>cs. routing s = Some cs \<longrightarrow> routes cs = snap_peer_id h (snapshot s)"
    using inv by (auto simp: owner_inv_def route_inv_def v(5) fun_eq_iff)
  ultimately show ?thesis
    using inv by (simp add: s_def [symmetric] Let_def v pin_is_current_def owner_inv_def pin_inv_def)
qed

theorem snapshot_is_exact_witness:
  "let s = run_owner hash0 [CmdConfigurePeer addr1 peer1 None] in
     pin_is_current hash0 (snapshot s) addr1 peer1 \<and> snap_peer_id hash0 (snapshot s) addr1 = Some peer1
     \<and> routing s = Some [PublishOwner addr1 peer1, SetConfiguredPeerAddr addr1 peer1 None]
     \<and> routes [PublishOwner addr1 peer1, SetConfiguredPeerAddr addr1 peer1 None]
         = snap_peer_id hash0 (snapshot s)"
proof -
  let ?s = "run_owner hash0 [CmdConfigurePeer addr1 peer1 None]"
  have p: "pin_is_current hash0 (snapshot ?s) addr1 peer1" by code_simp
  have r: "routing ?s = Some [PublishOwner addr1 peer1, SetConfiguredPeerAddr addr1 peer1 None]"
    by code_simp
  note exact = snapshot_is_exact [of hash0 "[CmdConfigurePeer addr1 peer1 None]", unfolded Let_def]
  have "snap_peer_id hash0 (snapshot ?s) addr1 = Some peer1" using exact p by blast
  moreover have "routes [PublishOwner addr1 peer1, SetConfiguredPeerAddr addr1 peer1 None]
      = snap_peer_id hash0 (snapshot ?s)"
    using exact r by blast
  ultimately show ?thesis using p r unfolding Let_def by blast
qed

text \<open>
  C23. The ownership of an address changes only through commands of the identity concerned. In
  any state the task can reach and for any command, an address stays with its owner, or passes
  from nobody to an identity that claimed it with verified evidence, configured it or migrated
  to it while no reap holds it reserved, or is given up by its owner: a release at its exact
  generation, the exit of the last session that covered it, a dead-peer release without newer
  evidence, a reconfiguration away from it or a migration. No command moves it from one
  identity to another, and only the last two release a pinned address.
\<close>

theorem ownership_changes_are_justified:
  "let s = run_owner h cmds in ownership_step c a s (handled h c s)"
  by (simp add: Let_def handled_ownership_step [OF run_owner_inv])

lemma claim_unreserved:
  assumes inv: "owner_inv h s" and free: "reap_reserved s a = None"
  shows "addr_ownership (snd (claim h a cl False s)) a =
      (case addr_ownership s a of
         Some w \<Rightarrow> Some w
       | None \<Rightarrow> if claim_kind cl = Verified then Some \<lparr>node_id = claimant cl, kind = Verified\<rparr> else None)"
    and "reap_reserved (snd (claim h a cl False s)) a = None"
proof -
  have v: "\<And>w. addr_ownership s a = Some w \<Longrightarrow> kind w = Verified"
    using inv by (auto simp: owner_inv_def core_inv_def)
  show "addr_ownership (snd (claim h a cl False s)) a =
      (case addr_ownership s a of
         Some w \<Rightarrow> Some w
       | None \<Rightarrow> if claim_kind cl = Verified then Some \<lparr>node_id = claimant cl, kind = Verified\<rparr> else None)"
    "reap_reserved (snd (claim h a cl False s)) a = None"
    using free v arbitrate_verified_iff [of "addr_ownership s a" cl False]
    by (auto simp: claim_eq [OF owner_inv_core [OF inv]] claimed_def Owner_eqI
      split: option.splits Decision.splits)
qed

lemma claims_owned:
  "owner_inv h s \<Longrightarrow> reap_reserved s a = None \<Longrightarrow> addr_ownership s a = Some w \<Longrightarrow>
   addr_ownership (fold (\<lambda>cl s. snd (claim h a cl False s)) cls s) a = Some w"
  by (induction cls arbitrary: s) (simp_all add: claim_unreserved claim_inv)

lemma claims_unowned:
  "owner_inv h s \<Longrightarrow> reap_reserved s a = None \<Longrightarrow> addr_ownership s a = None \<Longrightarrow>
   addr_ownership (fold (\<lambda>cl s. snd (claim h a cl False s)) cls s) a =
     map_option (\<lambda>cl. \<lparr>node_id = claimant cl, kind = Verified\<rparr>)
       (find (\<lambda>cl. claim_kind cl = Verified) cls)"
proof (induction cls arbitrary: s)
  case (Cons cl cls)
  then show ?case
    by (cases "claim_kind cl = Verified") (simp_all add: claim_unreserved claim_inv claims_owned)
qed simp

text \<open>
  C24. Among the remote claims for an address that nobody owns or has reserved, the first
  verified one wins and keeps the address, whatever claims follow: provisional claims never
  create an owner, and a verified owner is never displaced.
\<close>

theorem first_verified_claim_wins:
  assumes "addr_ownership (run_owner h cmds) a = None" and "reap_reserved (run_owner h cmds) a = None"
  shows "addr_ownership (fold (\<lambda>cl s. snd (claim h a cl False s)) cls (run_owner h cmds)) a =
     map_option (\<lambda>cl. \<lparr>node_id = claimant cl, kind = Verified\<rparr>)
       (find (\<lambda>cl. claim_kind cl = Verified) cls)"
  using assms run_owner_inv by (intro claims_unowned)

theorem first_verified_claim_wins_witness:
  "addr_ownership (fold (\<lambda>cl s. snd (claim hash0 addr1 cl False s))
       [\<lparr>claimant = peer2, claim_kind = Provisional\<rparr>, \<lparr>claimant = peer1, claim_kind = Verified\<rparr>,
        \<lparr>claimant = peer2, claim_kind = Verified\<rparr>] (run_owner hash0 [])) addr1
     = Some \<lparr>node_id = peer1, kind = Verified\<rparr>"
  by (subst first_verified_claim_wins) (simp_all add: run_owner_def new_owner_def)

text \<open>
  C25. The exit of a session gives up exactly the addresses it was the last one to cover: an
  address becomes unowned if and only if the session held a receipt for it, no other session of
  the same identity holds one, and it is not pinned; every other address keeps its owner, and
  every receipt but the session's own survives. A claim that refreshed the address meanwhile
  does not strand it.
\<close>

theorem session_exit_releases_exactly_uncovered:
  "let s = run_owner h cmds; s' = snd (release_session h p src i s) in
     (\<forall>a. addr_ownership s' a =
        (if uncovered p i a s \<and> operator_pinned s a = None then None else addr_ownership s a))
     \<and> (\<forall>q j a. map_of (connection_scoped_claims s') (q, j, a) =
        (if q = p \<and> j = i then None else map_of (connection_scoped_claims s) (q, j, a)))"
  by (simp add: Let_def release_session_ownership [OF run_owner_inv]
    release_session_receipts [OF run_owner_inv])

text \<open>
  C26. A committed configuration moves the peer's pin and its ownership in one step: the
  snapshot published by it pins and routes the new address to the peer, reports the previous
  pin as evicted, and leaves that address neither pinned nor owned, with its release ordered
  right after the claim; every other address keeps owner and pin.
\<close>

theorem configure_peer_moves_pin:
  assumes "configure_peer h a p e (run_owner h cmds) = (r, s')" and "is_accepted (configured_claim r)"
  shows "let s = run_owner h cmds; sn = snapshot s' in
     pin_is_current h sn a p \<and> snap_peer_id h sn a = Some p \<and> pinned_addr_for sn p = Some a
     \<and> evicted_pin r = (case pinned_by_peer s p of Some b \<Rightarrow> if b \<noteq> a then Some b else None | None \<Rightarrow> None)
     \<and> (\<forall>b. evicted_pin r = Some b \<longrightarrow>
          snap_owner h sn b = None \<and> pin_owner h sn b = None
          \<and> evicted_release_seq r = map_option Suc (claim_commit_seq (configured_claim r)))
     \<and> (\<forall>b. b \<noteq> a \<longrightarrow> evicted_pin r \<noteq> Some b \<longrightarrow>
          snap_owner h sn b = addr_ownership s b \<and> pin_owner h sn b = operator_pinned s b)"
proof (rule configure_peer_cases [OF run_owner_inv [of h cmds], of a p e])
  let ?s = "run_owner h cmds"
  assume may: "may_claim a p ?s"
    and c: "configure_peer h a p e ?s =
      (\<lparr>configured_claim = Accepted Verified None (addr_ownership ?s a = None) (commit_seq ?s + 1),
        evicted_pin = evicted_by a p ?s,
        evicted_release_seq = map_option (\<lambda>_. commit_seq ?s + 2) (evicted_by a p ?s),
        configured_generation = request_generation p e ?s\<rparr>, configured h a p (requested p e ?s))"
  have s': "s' = configured h a p (requested p e ?s)" using assms(1) c by simp
  have "may_claim a p (requested p e ?s)" using may by (simp add: may_claim_def)
  then have "owner_inv h s'" unfolding s' by (intro configured_inv requested_inv run_owner_inv)
  note v = snap_views [OF this]
  have ev: "evicted_by a p (requested p e ?s) = evicted_by a p ?s" by (simp add: evicted_by_def)
  have ne: "evicted_by a p ?s \<noteq> Some a" by (auto simp: evicted_by_def split: option.splits)
  have pins: "operator_pinned s' b = (if b = a then Some p else if evicted_by a p ?s = Some b then None
      else operator_pinned ?s b)" "pinned_by_peer s' p = Some a" for b
    unfolding s' by (auto simp: configured_def Let_def ev pinned_lookup dropped_def evicted_by_def
      claimed_def split: option.splits)
  have own: "addr_ownership s' b = (if evicted_by a p ?s = Some b then None
      else if b = a then Some \<lparr>node_id = p, kind = Verified\<rparr> else addr_ownership ?s b)" for b
    unfolding s' by (simp add: configured_ownership ev)
  have r: "evicted_pin r = evicted_by a p ?s"
    "configured_claim r = Accepted Verified None (addr_ownership ?s a = None) (commit_seq ?s + 1)"
    "evicted_release_seq r = map_option (\<lambda>_. commit_seq ?s + 2) (evicted_by a p ?s)"
    using assms(1) c by auto
  show ?thesis
    unfolding Let_def pin_is_current_def v pins own r evicted_by_def [symmetric]
    using ne by (intro conjI allI impI) auto
qed (use assms in auto)

theorem configure_peer_moves_pin_witness:
  "\<exists>r s'. configure_peer hash0 addr2 peer1 None (run_owner hash0 [CmdConfigurePeer addr1 peer1 None]) = (r, s')
     \<and> is_accepted (configured_claim r) \<and> evicted_pin r = Some addr1
     \<and> pin_is_current hash0 (snapshot s') addr2 peer1 \<and> snap_owner hash0 (snapshot s') addr1 = None"
proof -
  let ?s = "run_owner hash0 [CmdConfigurePeer addr1 peer1 None]"
  obtain r s' where c: "configure_peer hash0 addr2 peer1 None ?s = (r, s')" by fastforce
  have "configure_peer hash0 addr1 peer1 None new_owner =
      (\<lparr>configured_claim = Accepted Verified None True 1, evicted_pin = None, evicted_release_seq = None,
        configured_generation = 1\<rparr>, configured hash0 addr1 peer1 (requested peer1 None new_owner))"
    by (subst configure_peer_committed [OF new_owner_inv])
       (simp_all add: may_claim_def previous_pin_reserved_def new_owner_def evicted_by_def request_generation_def
         configure_peer_generation_of_def)
  then have s: "?s = configured hash0 addr1 peer1 (requested peer1 None new_owner)"
    by (simp add: run_owner_def handled_def)
  have l: "pinned_by_peer ?s peer1 = Some addr1" "addr_ownership ?s addr2 = None" "reap_reserved ?s = Map.empty"
    unfolding s by (simp_all add: configured_def pinned_def claimed_def evicted_by_def new_owner_def)
  have "is_accepted (configured_claim r) \<and> evicted_pin r = Some addr1"
    using c configure_peer_committed [OF run_owner_inv, of addr2 peer1 hash0 "[CmdConfigurePeer addr1 peer1 None]"]
    by (auto simp: may_claim_def previous_pin_reserved_def l evicted_by_def)
  then have a: "is_accepted (configured_claim r)" and e: "evicted_pin r = Some addr1" by simp_all
  show ?thesis
    using c a e configure_peer_moves_pin [OF c a, unfolded Let_def] by blast
qed

end
