(* ===== verification/Registry_Handle.thy ===== *)
theory Registry_Handle
  imports Registry_Properties
begin

text \<open>
  The handle of the single-owner actor (\<open>RegistryOwnerHandle\<close> of
  \<^verbatim>\<open>src/registry_owner.rs\<close>): each method sends one command and turns the reply, or the
  absence of one, into its answer. The task is \<open>None\<close> once it has stopped; a task that panics
  on a command drops the reply and stops. The lock-free readers answer from the published
  snapshot alone.
\<close>

subsection \<open>Requests\<close>

type_synonym owner_task = "PeerRegistryOwner option"

definition request :: "hasher \<Rightarrow> OwnerCommand \<Rightarrow> owner_task \<Rightarrow> OwnerReply option \<times> owner_task" where
  "request h c t =
     (case t of
        None \<Rightarrow> (None, None)
      | Some s \<Rightarrow>
          (case handle h c s of
             None \<Rightarrow> (None, None)
           | Some (r, s') \<Rightarrow> (Some r, Some s')))"

definition legacy_connection_instance_id :: "hasher \<Rightarrow> SocketAddr \<Rightarrow> u64" where
  "legacy_connection_instance_id h session_source = h session_source OR push_bit 63 1"

definition answer :: "(OwnerReply \<Rightarrow> 'a option) \<Rightarrow> 'a \<Rightarrow> OwnerReply option \<times> owner_task \<Rightarrow> 'a \<times> owner_task" where
  "answer get failed rt =
     (case rt of (r, t) \<Rightarrow>
        ((case Option.bind r get of Some x \<Rightarrow> x | None \<Rightarrow> failed), t))"

fun as_claim where "as_claim (ReplyClaim c) = Some c" | "as_claim _ = None"
fun as_session where "as_session (ReplySession rs) = Some rs" | "as_session _ = None"
fun as_bool where "as_bool (ReplyBool b) = Some b" | "as_bool _ = None"
fun as_generation where "as_generation (ReplyGeneration g) = Some g" | "as_generation _ = None"


definition owner_claim_connection_scoped_at where
  "owner_claim_connection_scoped_at h addr cl session_source instance_id evidence_at t =
     answer as_claim (Rejected OwnerUnavailable)
       (request h (CmdClaimConnectionScoped addr cl session_source instance_id evidence_at) t)"

definition owner_claim_connection_scoped where
  "owner_claim_connection_scoped h addr cl session_source now t =
     owner_claim_connection_scoped_at h addr cl session_source
       (legacy_connection_instance_id h session_source) now t"

definition owner_release_session_for_instance where
  "owner_release_session_for_instance h p session_source instance_id t =
     answer as_session [] (request h (CmdReleaseSession p session_source instance_id) t)"

definition owner_release_session where
  "owner_release_session h p session_source t =
     owner_release_session_for_instance h p session_source
       (legacy_connection_instance_id h session_source) t"


definition owner_has_newer_liveness_evidence where
  "owner_has_newer_liveness_evidence h addr evidence_before t =
     answer as_bool True (request h (CmdHasNewerLivenessEvidence addr evidence_before) t)"

definition owner_reap_baseline_activity_detected where
  "owner_reap_baseline_activity_detected h addr p evidence_before baseline t =
     answer as_bool True (request h (CmdReapBaselineActivityDetected addr p evidence_before baseline) t)"

definition owner_configure_peer_generation_of where
  "owner_configure_peer_generation_of h p t =
     answer as_generation (2 ^ 64 - 1) (request h (CmdConfigurePeerGenerationOf p) t)"



definition owner_set_ordinary_connect_route where
  "owner_set_ordinary_connect_route h p addr t =
     answer as_bool False (request h (CmdSetOrdinaryConnectRoute p addr) t)"



definition owner_note_liveness_evidence where
  "owner_note_liveness_evidence h addr at t = snd (request h (CmdNoteLivenessEvidence addr at) t)"

definition owner_ensure_started :: "owner_task \<Rightarrow> bool \<Rightarrow> owner_task \<times> bool" where
  "owner_ensure_started t pending_start = (if pending_start then (Some new_owner, False) else (t, False))"

subsection \<open>Properties\<close>





lemma answer_simps [simp]:
  "answer get failed (None, t) = (failed, t)"
  "get r = Some x \<Longrightarrow> answer get failed (Some r, t) = (x, t)"
  by (simp_all add: answer_def)













end
