(* ===== verification/Reap_Protocol.thy ===== *)
theory Reap_Protocol
  imports Registry_Properties
begin

text \<open>
  The reap protocol between the owner task and the dead-peer sweep: reservation guards
  (\<^verbatim>\<open>ReapReservation\<close> of \<^verbatim>\<open>src/registry_owner.rs\<close>), the bounded mailbox and the unbounded
  release channel. The world is the task's state, the two channels and the guards held by
  other tasks; a step is one action of one of them, so the reachable worlds are all the
  interleavings. A guard whose requester is gone is dropped by the reply that could not be
  delivered.
\<close>

subsection \<open>Guards\<close>

definition is_still_valid :: "ReapReservation \<Rightarrow> PeerRegistryOwner \<Rightarrow> bool" where
  "is_still_valid g s = (reap_cells s ! guard_valid g = REAP_PENDING)"

definition try_consume :: "ReapReservation \<Rightarrow> PeerRegistryOwner \<Rightarrow> bool \<times> PeerRegistryOwner" where
  "try_consume g s =
     (case compare_exchange (guard_valid g) REAP_PENDING REAP_COMMITTED (reap_cells s) of
        (ok, cells) \<Rightarrow> (ok, s\<lparr>reap_cells := cells\<rparr>))"

text \<open>What \<open>release\<close> and \<open>drop\<close> put on the release channel, and the guard after \<open>release\<close>.\<close>

definition reservation_release :: "ReapReservation \<Rightarrow> SocketAddr list \<times> ReapReservation" where
  "reservation_release g = ([guard_addr g], g\<lparr>guard_released := True\<rparr>)"

definition reservation_drop :: "ReapReservation \<Rightarrow> SocketAddr list" where
  "reservation_drop g = (if guard_released g then [] else [guard_addr g])"

subsection \<open>Steps\<close>

record reap_world =
  task :: PeerRegistryOwner
  mailbox :: "OwnerCommand list"
  release_channel :: "SocketAddr list"
  guards :: "ReapReservation list"

definition initial_world :: reap_world where
  "initial_world = \<lparr>task = new_owner, mailbox = [], release_channel = [], guards = []\<rparr>"

fun mailbox_command :: "OwnerCommand \<Rightarrow> bool" where
  "mailbox_command (CmdReleaseReapReservation a) = False"
| "mailbox_command _ = True"

inductive reap_step :: "hasher \<Rightarrow> reap_world \<Rightarrow> reap_world \<Rightarrow> bool" for h where
  send: "length (mailbox w) < OWNER_MAILBOX_CAPACITY \<Longrightarrow> mailbox_command c \<Longrightarrow>
    reap_step h w (w\<lparr>mailbox := mailbox w @ [c]\<rparr>)"
| receive_release: "release_channel w = a # rest \<Longrightarrow>
    handle h (CmdReleaseReapReservation a) (task w) = Some (r, s') \<Longrightarrow>
    reap_step h w (w\<lparr>task := s', release_channel := rest\<rparr>)"
| receive: "mailbox w = c # rest \<Longrightarrow> handle h c (task w) = Some (r, s') \<Longrightarrow>
    (\<And>g. r \<noteq> ReplyReservation (Some g)) \<Longrightarrow>
    reap_step h w (w\<lparr>task := s', mailbox := rest\<rparr>)"
| granted: "mailbox w = c # rest \<Longrightarrow> handle h c (task w) = Some (ReplyReservation (Some g), s') \<Longrightarrow>
    reap_step h w (w\<lparr>task := s', mailbox := rest, guards := g # guards w\<rparr>)"
| granted_undelivered: "mailbox w = c # rest \<Longrightarrow>
    handle h c (task w) = Some (ReplyReservation (Some g), s') \<Longrightarrow>
    reap_step h w (w\<lparr>task := s', mailbox := rest, release_channel := release_channel w @ reservation_drop g\<rparr>)"
| consume: "g \<in> set (guards w) \<Longrightarrow> try_consume g (task w) = (ok, s') \<Longrightarrow>
    reap_step h w (w\<lparr>task := s'\<rparr>)"
| release_guard: "guards w = gs @ g # gs' \<Longrightarrow> \<not> guard_released g \<Longrightarrow> reservation_release g = (sent, g') \<Longrightarrow>
    reap_step h w (w\<lparr>guards := gs @ g' # gs', release_channel := release_channel w @ sent\<rparr>)"
| drop_guard: "guards w = gs @ g # gs' \<Longrightarrow>
    reap_step h w (w\<lparr>guards := gs @ gs', release_channel := release_channel w @ reservation_drop g\<rparr>)"

inductive_cases reap_stepE: "reap_step h w w'"

subsection \<open>What a command does to reservations and cells\<close>

lemma reserved_frame [simp]:
  "reap_reserved (claimed h a p s) = reap_reserved s" "reap_cells (claimed h a p s) = reap_cells s"
  "reap_reserved (dropped h a p s) = reap_reserved s" "reap_cells (dropped h a p s) = reap_cells s"
  "reap_reserved (pinned h a p s) = reap_reserved s" "reap_cells (pinned h a p s) = reap_cells s"
  "reap_reserved (moved h a b p s) = reap_reserved s" "reap_cells (moved h a b p s) = reap_cells s"
  by (simp_all add: claimed_def dropped_def pinned_def moved_def)

lemma configured_frame [simp]:
  "reap_reserved (configured h a p s) = reap_reserved s" "reap_cells (configured h a p s) = reap_cells s"
  by (simp_all add: configured_def Let_def split: option.split)

lemma release_uncovered_frame [simp]:
  "reap_reserved (snd (release_uncovered h p as s)) = reap_reserved s"
  "reap_cells (snd (release_uncovered h p as s)) = reap_cells s"
  by (induction as arbitrary: s) (simp_all add: release_uncovered_Cons case_prod_beta)

lemma op_frames:
  assumes inv: "owner_inv h s"
  shows "reap_reserved (snd (claim h a cl loc s)) = reap_reserved s"
    and "reap_cells (snd (claim h a cl loc s)) = reap_cells s"
    and "reap_reserved (snd (claim_connection_scoped h a cl src i at s)) = reap_reserved s"
    and "reap_cells (snd (claim_connection_scoped h a cl src i at s)) = reap_cells s"
    and "reap_reserved (snd (release h a p g s)) = reap_reserved s"
    and "reap_cells (snd (release h a p g s)) = reap_cells s"
    and "reap_reserved (snd (release_session h p src i s)) = reap_reserved s"
    and "reap_cells (snd (release_session h p src i s)) = reap_cells s"
    and "reap_reserved (snd (release_dead_peer h p a before s)) = reap_reserved s"
    and "reap_cells (snd (release_dead_peer h p a before s)) = reap_cells s"
    and "reap_reserved (snd (migrate h a b e loc s)) = reap_reserved s"
    and "reap_cells (snd (migrate h a b e loc s)) = reap_cells s"
    and "reap_reserved (snd (configure_peer h a p n s)) = reap_reserved s"
    and "reap_cells (snd (configure_peer h a p n s)) = reap_cells s"
proof -
  note core = owner_inv_core [OF inv]
  show "reap_reserved (snd (claim h a cl loc s)) = reap_reserved s"
    "reap_cells (snd (claim h a cl loc s)) = reap_cells s"
    by (rule claim_cases [OF core, of h a cl loc]; simp)+
  show "reap_reserved (snd (claim_connection_scoped h a cl src i at s)) = reap_reserved s"
    "reap_cells (snd (claim_connection_scoped h a cl src i at s)) = reap_cells s"
    by (rule claim_cases [OF core, of h a cl False];
        simp add: claim_connection_scoped_rejected claim_connection_scoped_eq [OF core])+
  show "reap_reserved (snd (release h a p g s)) = reap_reserved s"
    "reap_cells (snd (release h a p g s)) = reap_cells s"
    by (simp_all add: release_eq)
  show "reap_reserved (snd (release_session h p src i s)) = reap_reserved s"
    "reap_cells (snd (release_session h p src i s)) = reap_cells s"
    by (simp_all add: release_session_def Let_def)
  show "reap_reserved (snd (release_dead_peer h p a before s)) = reap_reserved s"
    "reap_cells (snd (release_dead_peer h p a before s)) = reap_cells s"
    by (simp_all add: release_dead_peer_def Let_def drop_owner_eq split: option.split)
  show "reap_reserved (snd (migrate h a b e loc s)) = reap_reserved s"
    "reap_cells (snd (migrate h a b e loc s)) = reap_cells s"
    by (rule migrate_cases [OF core, of h a b e loc]; simp)+
  show "reap_reserved (snd (configure_peer h a p n s)) = reap_reserved s"
    "reap_cells (snd (configure_peer h a p n s)) = reap_cells s"
    by (rule configure_peer_cases [OF inv, of a p n]; simp)+
qed

text \<open>A cell leaves its pending state at most once and never returns to it.\<close>

definition cells_advance :: "u8 list \<Rightarrow> u8 list \<Rightarrow> bool" where
  "cells_advance xs ys \<longleftrightarrow> length xs \<le> length ys
     \<and> (\<forall>c < length xs. ys ! c = xs ! c \<or> xs ! c = REAP_PENDING \<and> ys ! c \<noteq> REAP_PENDING)"

lemma cells_advance_refl [simp]: "cells_advance xs xs"
  by (simp add: cells_advance_def)

lemma cells_advance_update:
  "xs ! c = REAP_PENDING \<Longrightarrow> v \<noteq> REAP_PENDING \<Longrightarrow> cells_advance xs (xs[c := v])"
  by (cases "c < length xs") (simp_all add: cells_advance_def nth_list_update)

lemma cells_advance_append [simp]: "cells_advance xs (xs @ ys)"
  by (simp add: cells_advance_def nth_append)

lemma cells_advance_trans: "cells_advance xs ys \<Longrightarrow> cells_advance ys zs \<Longrightarrow> cells_advance xs zs"
  unfolding cells_advance_def by (metis order.strict_trans2 order.trans)

lemma note_liveness_cells:
  "cells_advance (reap_cells s) (reap_cells (note_liveness_evidence a at s))"
  "length (reap_cells (note_liveness_evidence a at s)) = length (reap_cells s)"
  "reap_reserved (note_liveness_evidence a at s) = reap_reserved s"
  by (cases "reap_reserved s a"; simp add: note_liveness_evidence_def invalidate_reap_reservation_def
    compare_exchange_def cells_advance_update Let_def)+

lemma handle_reservations:
  assumes inv: "owner_inv h s" and hd: "handle h c s = Some (r, s')" and mb: "mailbox_command c"
  obtains (granted) g where "r = ReplyReservation (Some g)" and "\<not> guard_released g"
      and "guard_valid g = length (reap_cells s)" and "reap_reserved s (guard_addr g) = None"
      and "reap_reserved s' = (reap_reserved s)(guard_addr g \<mapsto> guard_valid g)"
      and "reap_cells s' = reap_cells s @ [REAP_PENDING]"
  | (other) "\<And>g. r \<noteq> ReplyReservation (Some g)" and "reap_reserved s' = reap_reserved s"
      and "cells_advance (reap_cells s) (reap_cells s')" "length (reap_cells s') = length (reap_cells s)"
proof -
  show thesis
  proof (cases "\<exists>a before tok pin node. c = CmdReserveForReap a before tok pin node")
    case True
    then obtain a before tok pin node where c: "c = CmdReserveForReap a before tok pin node" by blast
    show thesis
    proof (cases "reap_grantable a before tok pin node s")
      case True
      let ?g = "\<lparr>guard_addr = a, guard_released = False, guard_valid = length (reap_cells s)\<rparr>"
      have "r = ReplyReservation (Some ?g)"
        "s' = s\<lparr>reap_cells := reap_cells s @ [REAP_PENDING],
                reap_reserved := (reap_reserved s)(a \<mapsto> length (reap_cells s))\<rparr>"
        using hd True by (simp_all add: c reserve_for_reap_eq [OF owner_inv_core [OF inv]])
      then show thesis
        using True by (intro granted [of ?g]) (simp_all add: reap_grantable_def)
    next
      case False
      then have "r = ReplyReservation None" "s' = s"
        using hd by (simp_all add: c reserve_for_reap_eq [OF owner_inv_core [OF inv]])
      then show thesis by (intro other) simp_all
    qed
  next
    case False
    have "(\<forall>g. r \<noteq> ReplyReservation (Some g)) \<and> reap_reserved s' = reap_reserved s
        \<and> cells_advance (reap_cells s) (reap_cells s') \<and> length (reap_cells s') = length (reap_cells s)"
      using hd mb False op_frames [OF inv] note_liveness_cells [where s = s]
      by (cases c) (auto simp: case_prod_beta set_ordinary_connect_route_def routing_call_def
        split: option.splits if_splits)
    then show thesis using other by blast
  qed
qed

subsection \<open>Evidence at a reserved address\<close>

text \<open>No evidence appears at \<open>a\<close>: each record stays or is dropped.\<close>

definition no_new_evidence :: "SocketAddr \<Rightarrow> PeerRegistryOwner \<Rightarrow> PeerRegistryOwner \<Rightarrow> bool" where
  "no_new_evidence a s s' \<longleftrightarrow>
     (claim_committed_at s' a = claim_committed_at s a \<or> claim_committed_at s' a = None)
     \<and> (liveness_evidence_at s' a = liveness_evidence_at s a \<or> liveness_evidence_at s' a = None)"

lemma newer_than_None [simp]: "\<not> newer_than None before"
  by (simp add: newer_than_def)

lemma no_new_evidenceD:
  "no_new_evidence a s s' \<Longrightarrow> has_newer_liveness_evidence a before s' \<Longrightarrow>
   has_newer_liveness_evidence a before s"
  by (auto simp: no_new_evidence_def has_newer_liveness_evidence_def)

lemma no_new_evidence_same [simp]:
  "claim_committed_at s' = claim_committed_at s \<Longrightarrow> liveness_evidence_at s' = liveness_evidence_at s \<Longrightarrow>
   no_new_evidence a s s'"
  by (simp add: no_new_evidence_def)

lemma no_new_evidence_trans:
  "no_new_evidence a s t \<Longrightarrow> no_new_evidence a t u \<Longrightarrow> no_new_evidence a s u"
  by (auto simp: no_new_evidence_def)

lemma claimed_evidence [simp]: "no_new_evidence a s (claimed h b p s)"
  by (simp add: claimed_def)

lemma pinned_evidence [simp]: "no_new_evidence a s (pinned h b p s)"
  by (simp add: pinned_def)

lemma dropped_evidence [simp]: "no_new_evidence a s (dropped h b p s)"
  by (simp add: dropped_def no_new_evidence_def)

lemma moved_evidence: "a \<noteq> b \<Longrightarrow> a \<noteq> c \<Longrightarrow> no_new_evidence a s (moved h b c p s)"
  by (simp add: moved_def no_new_evidence_def carry_newest_def Let_def split: option.split)

lemma configured_evidence: "no_new_evidence a s (configured h b p s)"
  unfolding configured_def Let_def
  by (cases "evicted_by b p s")
     (auto intro: no_new_evidence_trans [OF claimed_evidence pinned_evidence]
       no_new_evidence_trans [OF no_new_evidence_trans [OF claimed_evidence pinned_evidence] dropped_evidence])

lemma release_uncovered_evidence: "no_new_evidence a s (snd (release_uncovered h p as s))"
proof (induction as arbitrary: s)
  case (Cons b as)
  then show ?case
    by (auto simp: release_uncovered_Cons case_prod_beta intro: no_new_evidence_trans [OF dropped_evidence])
qed simp

lemma reserved_evidence:
  assumes inv: "owner_inv h s" and hd: "handle h c s = Some (r, s')" and mb: "mailbox_command c"
    and res: "reap_reserved s a = Some k" and pend: "reap_cells s' ! k = REAP_PENDING"
  shows "no_new_evidence a s s'"
proof -
  note core = owner_inv_core [OF inv]
  have k: "k < length (reap_cells s)" using inv res by (auto simp: owner_inv_def cell_inv_def)
  have claims: "no_new_evidence a s (snd (claim h b cl loc s))" for b cl loc
    by (rule claim_cases [OF core, of h b cl loc]) simp_all
  have scoped: "no_new_evidence a s (snd (claim_connection_scoped h b cl src i at s))" for b cl src i at
  proof (rule claim_cases [OF core, of h b cl False])
    assume "may_claim b (claimant cl) s"
      and c: "claim h b cl False s = (Accepted Verified None (addr_ownership s b = None)
        (commit_seq s + 1), claimed h b (claimant cl) s)"
    then have "b \<noteq> a" using res by (auto simp: may_claim_def)
    then show ?thesis
      by (simp add: claim_connection_scoped_eq [OF core c] no_new_evidence_def claimed_def)
  qed (simp add: claim_connection_scoped_rejected)
  have mig: "no_new_evidence a s (snd (migrate h b d e loc s))" for b d e loc
  proof (rule migrate_cases [OF core, of h b d e loc])
    fix p assume "may_migrate b d p s"
      and m: "migrate h b d e loc s = (Migrated (commit_seq s + 1), moved h b d p s)"
    then have "a \<noteq> b" "a \<noteq> d" using res by (auto simp: may_migrate_def)
    then show ?thesis by (simp add: m moved_evidence)
  qed simp
  have conf: "no_new_evidence a s (snd (configure_peer h b p e s))" for b p e
    by (rule configure_peer_cases [OF inv, of b p e])
       (simp_all add: configured_evidence [THEN no_new_evidence_trans [rotated]])
  have sess: "no_new_evidence a s (snd (release_session h p src i s))" for p src i
    unfolding release_session_def Let_def
    by (rule no_new_evidence_trans [OF _ release_uncovered_evidence]) simp
  have dead: "no_new_evidence a s (snd (release_dead_peer h p b before s))" for p b before
    by (auto simp: release_dead_peer_def Let_def drop_owner_eq split: option.split
      intro: no_new_evidence_trans [OF _ dropped_evidence])
  have evid: "b \<noteq> a" if "c = CmdNoteLivenessEvidence b at" for b at
    using that hd pend res k
    by (auto simp: note_liveness_evidence_def invalidate_reap_reservation_def compare_exchange_def Let_def
      split: if_splits)
  have noted: "b \<noteq> a \<Longrightarrow> no_new_evidence a s (note_liveness_evidence b at s)" for b at
    by (simp add: note_liveness_evidence_def invalidate_reap_reservation_def no_new_evidence_def Let_def
      split: option.split)
  have rel: "no_new_evidence a s (snd (release h b p g s))" for b p g
    by (simp add: release_eq)
  have route: "no_new_evidence a s (snd (set_ordinary_connect_route p b s))" for p b
    by (simp add: set_ordinary_connect_route_def routing_call_def split: option.split)
  show ?thesis
    using hd mb claims scoped mig conf sess dead evid noted rel route
    by (cases c) (auto simp: case_prod_beta reserve_for_reap_eq [OF core] split: if_splits)
qed

subsection \<open>The invariant of the world\<close>

fun live_guards :: "SocketAddr \<Rightarrow> ReapReservation list \<Rightarrow> nat" where
  "live_guards a [] = 0"
| "live_guards a (g # gs) = (if guard_addr g = a \<and> \<not> guard_released g then 1 else 0) + live_guards a gs"

text \<open>The reservations of \<open>a\<close> somebody still has to give back, and the releases under way.\<close>

definition holders :: "SocketAddr \<Rightarrow> reap_world \<Rightarrow> nat" where
  "holders a w = live_guards a (guards w) + count_list (release_channel w) a"

definition balanced :: "reap_world \<Rightarrow> bool" where
  "balanced w \<longleftrightarrow> (\<forall>a. holders a w = (if reap_reserved (task w) a = None then 0 else 1))"

lemma live_guards_append [simp]: "live_guards a (gs @ gs') = live_guards a gs + live_guards a gs'"
  by (induction gs) simp_all

lemma live_guards_pos: "g \<in> set gs \<Longrightarrow> \<not> guard_released g \<Longrightarrow> 0 < live_guards (guard_addr g) gs"
  by (induction gs) auto

definition guards_valid :: "reap_world \<Rightarrow> bool" where
  "guards_valid w \<longleftrightarrow> (\<forall>g \<in> set (guards w). guard_valid g < length (reap_cells (task w))
     \<and> (\<not> guard_released g \<longrightarrow> reap_reserved (task w) (guard_addr g) = Some (guard_valid g)))"

definition world_inv :: "hasher \<Rightarrow> reap_world \<Rightarrow> bool" where
  "world_inv h w \<longleftrightarrow> owner_inv h (task w) \<and> list_all mailbox_command (mailbox w)
     \<and> balanced w \<and> guards_valid w"

lemma initial_world_inv: "world_inv h initial_world"
  by (simp add: world_inv_def initial_world_def new_owner_inv balanced_def holders_def guards_valid_def)
     (simp add: new_owner_def)

lemma try_consume_eq:
  "try_consume g s =
     (is_still_valid g s,
      s\<lparr>reap_cells := (if is_still_valid g s then (reap_cells s)[guard_valid g := REAP_COMMITTED]
                     else reap_cells s)\<rparr>)"
  by (simp add: try_consume_def is_still_valid_def compare_exchange_def)

lemma owner_inv_handled:
  "owner_inv h s \<Longrightarrow> handle h c s = Some (r, s') \<Longrightarrow> owner_inv h s'"
  by (rule handle_inv [of h s c]) auto

lemma receive_inv:
  assumes inv: "world_inv h w" and mb: "mailbox w = c # rest"
    and hd: "handle h c (task w) = Some (r, s')" and r: "\<And>g. r \<noteq> ReplyReservation (Some g)"
  shows "world_inv h (w\<lparr>task := s', mailbox := rest\<rparr>)"
proof -
  have o: "owner_inv h (task w)" and c: "mailbox_command c" using inv mb by (auto simp: world_inv_def)
  show ?thesis
  proof (rule handle_reservations [OF o hd c])
    fix g assume "r = ReplyReservation (Some g)"
    with r show ?thesis by blast
  next
    assume "reap_reserved s' = reap_reserved (task w)" "length (reap_cells s') = length (reap_cells (task w))"
    then show ?thesis
      using inv mb owner_inv_handled [OF o hd]
      by (simp add: world_inv_def balanced_def holders_def guards_valid_def)
  qed
qed

lemma granted_inv:
  assumes inv: "world_inv h w" and mb: "mailbox w = c # rest"
    and hd: "handle h c (task w) = Some (ReplyReservation (Some g), s')"
  shows "world_inv h (w\<lparr>task := s', mailbox := rest, guards := g # guards w\<rparr>)"
    and "world_inv h (w\<lparr>task := s', mailbox := rest, release_channel := release_channel w @ reservation_drop g\<rparr>)"
proof -
  have o: "owner_inv h (task w)" and c: "mailbox_command c" using inv mb by (auto simp: world_inv_def)
  obtain lv: "\<not> guard_released g" and v: "guard_valid g = length (reap_cells (task w))"
    and n: "reap_reserved (task w) (guard_addr g) = None"
    and r: "reap_reserved s' = (reap_reserved (task w))(guard_addr g \<mapsto> guard_valid g)"
    and cs: "reap_cells s' = reap_cells (task w) @ [REAP_PENDING]"
    by (rule handle_reservations [OF o hd c]) auto
  have gv: "guards_valid w" using inv by (simp add: world_inv_def)
  have ne: "guard_addr g' \<noteq> guard_addr g" if "g' \<in> set (guards w)" "\<not> guard_released g'" for g'
    using gv n that by (auto simp: guards_valid_def)
  then have valid: "guards_valid (w\<lparr>task := s', guards := g # guards w\<rparr>)" "guards_valid (w\<lparr>task := s'\<rparr>)"
    using gv by (auto simp: guards_valid_def r cs v less_SucI)
  have b: "holders a w + (if a = guard_addr g then 1 else 0) = (if reap_reserved s' a = None then 0 else 1)" for a
    using inv n by (simp add: world_inv_def balanced_def r)
  show "world_inv h (w\<lparr>task := s', mailbox := rest, guards := g # guards w\<rparr>)"
    using inv mb valid owner_inv_handled [OF o hd] lv
    by (auto simp: world_inv_def balanced_def guards_valid_def holders_def b [symmetric])
  show "world_inv h (w\<lparr>task := s', mailbox := rest, release_channel := release_channel w @ reservation_drop g\<rparr>)"
    using inv mb valid owner_inv_handled [OF o hd] lv
    by (auto simp: world_inv_def balanced_def guards_valid_def reservation_drop_def holders_def b [symmetric])
qed

lemma receive_release_inv:
  assumes inv: "world_inv h w" and rc: "release_channel w = a # rest"
  shows "world_inv h (w\<lparr>task := release_reap_reservation a (task w), release_channel := rest\<rparr>)"
proof -
  have b: "holders c w = (if reap_reserved (task w) c = None then 0 else 1)" for c
    using inv by (simp add: world_inv_def balanced_def)
  have a: "holders a w = 1" "live_guards a (guards w) = 0"
    using b [of a] rc by (auto simp: holders_def split: if_splits)
  have "guard_addr g \<noteq> a" if "g \<in> set (guards w)" "\<not> guard_released g" for g
    using live_guards_pos [OF that] a(2) by auto
  then have "guards_valid (w\<lparr>task := release_reap_reservation a (task w), release_channel := rest\<rparr>)"
    using inv by (auto simp: world_inv_def guards_valid_def release_reap_reservation_def)
  moreover have "holders c (w\<lparr>task := release_reap_reservation a (task w), release_channel := rest\<rparr>)
      = holders c w - (if c = a then 1 else 0)" for c
    using rc by (simp add: holders_def)
  ultimately show ?thesis
    using inv b a by (simp add: world_inv_def balanced_def release_reap_reservation_inv)
      (simp add: release_reap_reservation_def)
qed

lemma hand_back_inv:
  assumes "world_inv h w" and "guards_valid (w\<lparr>guards := gs, release_channel := rs\<rparr>)"
    and "\<And>a. live_guards a gs + count_list rs a = holders a w"
  shows "world_inv h (w\<lparr>guards := gs, release_channel := rs\<rparr>)"
  using assms by (simp add: world_inv_def balanced_def holders_def)

lemma reap_step_inv: "reap_step h w w' \<Longrightarrow> world_inv h w \<Longrightarrow> world_inv h w'"
proof (induction rule: reap_step.induct)
  case (send w c)
  then show ?case by (simp add: world_inv_def balanced_def holders_def guards_valid_def)
next
  case (receive_release w a rest r s')
  then show ?case using receive_release_inv [of h w a rest] by simp
next
  case (receive w c rest r s')
  then show ?case by (intro receive_inv)
next
  case (granted w c rest g s')
  then show ?case by (intro granted_inv(1))
next
  case (granted_undelivered w c rest g s')
  then show ?case by (intro granted_inv(2))
next
  case (consume g w ok s')
  then show ?case
    by (auto simp: try_consume_eq world_inv_def balanced_def holders_def guards_valid_def intro: cells_inv)
next
  case (release_guard w gs g gs' sent g')
  then have "sent = [guard_addr g]" "guard_addr g' = guard_addr g" "guard_released g'"
    "guard_valid g' = guard_valid g"
    by (auto simp: reservation_release_def)
  with release_guard.prems release_guard.hyps(1,2) show ?case
    by (intro hand_back_inv) (simp_all add: world_inv_def guards_valid_def holders_def)
next
  case (drop_guard w gs g gs')
  then show ?case
    by (intro hand_back_inv) (auto simp: reservation_drop_def world_inv_def guards_valid_def holders_def)
qed

inductive reachable :: "hasher \<Rightarrow> reap_world \<Rightarrow> bool" for h where
  initial: "reachable h initial_world"
| step: "reachable h w \<Longrightarrow> reap_step h w w' \<Longrightarrow> reachable h w'"

lemma reachable_inv: "reachable h w \<Longrightarrow> world_inv h w"
  by (induction rule: reachable.induct) (simp_all add: initial_world_inv reap_step_inv)

subsection \<open>While a guard is held\<close>

definition holds_guard :: "ReapReservation \<Rightarrow> reap_world \<Rightarrow> bool" where
  "holds_guard g w \<longleftrightarrow> g \<in> set (guards w) \<and> \<not> guard_released g"

lemma holds_reserved:
  "world_inv h w \<Longrightarrow> holds_guard g w \<Longrightarrow>
   reap_reserved (task w) (guard_addr g) = Some (guard_valid g)
   \<and> guard_valid g < length (reap_cells (task w))"
  by (auto simp: world_inv_def guards_valid_def holds_guard_def)

lemma step_cells: "reap_step h w w' \<Longrightarrow> world_inv h w \<Longrightarrow>
  cells_advance (reap_cells (task w)) (reap_cells (task w'))"
proof (induction rule: reap_step.induct)
  case (receive w c rest r s')
  then show ?case by (auto simp: world_inv_def elim!: handle_reservations [of h "task w" c r s'])
next
  case (granted w c rest g s')
  then show ?case
    by (auto simp: world_inv_def elim!: handle_reservations [of h "task w" c "ReplyReservation (Some g)" s'])
next
  case (granted_undelivered w c rest g s')
  then show ?case
    by (auto simp: world_inv_def elim!: handle_reservations [of h "task w" c "ReplyReservation (Some g)" s'])
next
  case (consume g w ok s')
  then show ?case by (auto simp: try_consume_eq is_still_valid_def cells_advance_update)
qed (simp_all add: release_reap_reservation_def)

lemma step_holds_back:
  assumes "reap_step h w w'" and "world_inv h w" and "holds_guard g w'"
    and "guard_valid g < length (reap_cells (task w))"
  shows "holds_guard g w"
  using assms
proof (induction rule: reap_step.induct)
  case (granted w c rest g' s')
  have "owner_inv h (task w)" "mailbox_command c" using granted by (auto simp: world_inv_def)
  then have "guard_valid g' = length (reap_cells (task w))"
    by (rule handle_reservations [OF _ granted.hyps(2)]) auto
  with granted.prems show ?case by (auto simp: holds_guard_def)
next
  case (release_guard w gs g' gs' sent g'')
  then show ?case by (auto simp: holds_guard_def reservation_release_def)
qed (auto simp: holds_guard_def)

text \<open>One step, for the address of a guard held before and after it.\<close>

lemma step_held:
  assumes step: "reap_step h w w'" and inv: "world_inv h w" and g: "holds_guard g w"
  shows "reap_cells (task w') ! guard_valid g = REAP_PENDING \<Longrightarrow>
      no_new_evidence (guard_addr g) (task w) (task w')"
    and "addr_ownership (task w') (guard_addr g) \<in> {addr_ownership (task w) (guard_addr g), None}"
proof -
  let ?a = "guard_addr g"
  have res: "reap_reserved (task w) ?a = Some (guard_valid g)" using holds_reserved [OF inv g] by simp
  have own: "owner_inv h (task w)" using inv by (simp add: world_inv_def)
  have cmd: "addr_ownership s' ?a \<in> {addr_ownership (task w) ?a, None}
      \<and> (mailbox_command c \<longrightarrow> reap_cells s' ! guard_valid g = REAP_PENDING \<longrightarrow> no_new_evidence ?a (task w) s')"
    if "handle h c (task w) = Some (r, s')" for c r s'
    using that res reserved_evidence [OF own that _ res] handled_ownership_step [OF own, of c ?a]
    by (auto simp: handled_def ownership_step_def)
  have mc: "mailbox w = c # rest \<Longrightarrow> mailbox_command c" for c rest
    using inv by (simp add: world_inv_def)
  show "reap_cells (task w') ! guard_valid g = REAP_PENDING \<Longrightarrow> no_new_evidence ?a (task w) (task w')"
    using step by cases (auto simp: cmd mc try_consume_eq release_reap_reservation_def)
  show "addr_ownership (task w') ?a \<in> {addr_ownership (task w) ?a, None}"
    using step cmd by cases (auto simp: try_consume_eq simp del: handle.simps dest: cmd)
qed

lemma steps_inv: "(reap_step h)\<^sup>*\<^sup>* w w' \<Longrightarrow> world_inv h w \<Longrightarrow> world_inv h w'"
  by (induction rule: rtranclp_induct) (auto intro: reap_step_inv)

lemma steps_cells:
  "(reap_step h)\<^sup>*\<^sup>* w w' \<Longrightarrow> world_inv h w \<Longrightarrow> cells_advance (reap_cells (task w)) (reap_cells (task w'))"
  by (induction rule: rtranclp_induct) (auto intro: cells_advance_trans step_cells steps_inv)

lemma steps_held:
  assumes "(reap_step h)\<^sup>*\<^sup>* w0 w" and inv: "world_inv h w0" and g: "holds_guard g w0" and "holds_guard g w"
  shows "addr_ownership (task w) (guard_addr g) \<in> {addr_ownership (task w0) (guard_addr g), None}
    \<and> (reap_cells (task w) ! guard_valid g = REAP_PENDING \<longrightarrow>
         no_new_evidence (guard_addr g) (task w0) (task w))"
  using assms(1,4)
proof (induction rule: rtranclp_induct)
  case (step w w')
  have iw: "world_inv h w" using step.hyps(1) inv by (rule steps_inv)
  have len: "guard_valid g < length (reap_cells (task w))"
    using steps_cells [OF step.hyps(1) inv] holds_reserved [OF inv g]
    by (auto simp: cells_advance_def)
  have gw: "holds_guard g w" by (rule step_holds_back [OF step.hyps(2) iw step.prems len])
  have pending: "reap_cells (task w') ! guard_valid g = REAP_PENDING \<Longrightarrow>
      reap_cells (task w) ! guard_valid g = REAP_PENDING"
    using step_cells [OF step.hyps(2) iw] len by (auto simp: cells_advance_def)
  show ?case
    using step.IH [OF gw] step_held [OF step.hyps(2) iw gw] pending
    by (auto intro: no_new_evidence_trans)
qed simp

subsection \<open>Properties\<close>

text \<open>A world for the witnesses: one guard on an unowned address.\<close>

definition example_guard :: ReapReservation where
  "example_guard = \<lparr>guard_addr = addr1, guard_released = False, guard_valid = 0\<rparr>"

definition example_world :: reap_world where
  "example_world =
     \<lparr>task = new_owner\<lparr>reap_cells := [REAP_PENDING], reap_reserved := [addr1 \<mapsto> 0]\<rparr>,
      mailbox = [], release_channel = [], guards = [example_guard]\<rparr>"

lemma example_reachable: "reachable hash0 example_world"
proof -
  let ?c = "CmdReserveForReap addr1 5 None None None"
  let ?w = "initial_world\<lparr>mailbox := mailbox initial_world @ [?c]\<rparr>"
  let ?s = "new_owner\<lparr>reap_cells := [REAP_PENDING], reap_reserved := [addr1 \<mapsto> 0]\<rparr>"
  have "core_inv new_owner" by (rule owner_inv_core [OF new_owner_inv])
  then have hd: "handle hash0 ?c (task ?w) = Some (ReplyReservation (Some example_guard), ?s)"
    by (simp add: initial_world_def reserve_for_reap_eq)
       (simp add: example_guard_def reap_grantable_def new_owner_def current_ownership_token_def newer_than_def)
  have "reachable hash0 ?w"
    by (rule reachable.step [OF reachable.initial reap_step.send])
       (simp_all add: initial_world_def OWNER_MAILBOX_CAPACITY_def)
  then have "reachable hash0 (?w\<lparr>task := ?s, mailbox := [], guards := example_guard # guards ?w\<rparr>)"
    by (rule reachable.step) (rule reap_step.granted [OF _ hd], simp add: initial_world_def)
  then show ?thesis by (simp add: example_world_def initial_world_def)
qed

lemma example_committed:
  "reachable hash0 (example_world\<lparr>task := (task example_world)\<lparr>reap_cells := [REAP_COMMITTED]\<rparr>\<rparr>)"
  by (rule reachable.step [OF example_reachable], rule reap_step.consume [of example_guard _ True])
     (simp_all add: example_world_def try_consume_eq is_still_valid_def example_guard_def)

text \<open>
  C27. Reservations are exclusive and never leak. In every interleaving of the owner task, the
  callers of its mailbox and the holders of guards, an address is reserved if and only if
  exactly one party still has to give it back: either one live guard, or one release already in
  the release channel. So two sweeps never hold the same address, a guard that is released,
  dropped or undeliverable is released once, and no release frees a later reservation.
\<close>

theorem reap_reservation_exclusive:
  assumes "reachable h w"
  shows "live_guards a (guards w) + count_list (release_channel w) a =
     (if reap_reserved (task w) a = None then 0 else 1)"
  using reachable_inv [OF assms] by (simp add: world_inv_def balanced_def holders_def)

theorem reap_reservation_exclusive_witness:
  "live_guards addr1 (guards example_world) + count_list (release_channel example_world) addr1 = 1"
  using reap_reservation_exclusive [OF example_reachable, of addr1]
  by (simp add: example_world_def)

text \<open>
  C28. The commit point of a reap is sound. A sweep holds_guard a guard, the owner then answers that
  the address has no evidence of life newer than the failure, and later the guard's
  compare-and-swap succeeds. Whatever commands, claims, evidence and other sweeps ran in
  between, at that moment there is still no newer evidence, the reap is committed, and nobody
  has taken the address over: it has the owner it had, or none.
\<close>

theorem reap_commit_point_is_sound:
  assumes "reachable h w0" and "g \<in> set (guards w0)" and "\<not> guard_released g"
    and "handle h (CmdHasNewerLivenessEvidence (guard_addr g) before) (task w0) = Some (ReplyBool False, s0)"
    and "(reap_step h)\<^sup>*\<^sup>* w0 w" and "g \<in> set (guards w)" and "try_consume g (task w) = (True, s)"
  shows "\<not> has_newer_liveness_evidence (guard_addr g) before s \<and> reap_committed (guard_addr g) s
    \<and> addr_ownership s (guard_addr g) \<in> {addr_ownership (task w0) (guard_addr g), None}"
proof -
  have inv: "world_inv h w0" using assms(1) by (rule reachable_inv)
  have g: "holds_guard g w0" "holds_guard g w" using assms(2,3,6) by (auto simp: holds_guard_def)
  have iw: "world_inv h w" using assms(5) inv by (rule steps_inv)
  note res = holds_reserved [OF iw g(2)]
  have pend: "reap_cells (task w) ! guard_valid g = REAP_PENDING"
    and s: "s = (task w)\<lparr>reap_cells := (reap_cells (task w))[guard_valid g := REAP_COMMITTED]\<rparr>"
    using assms(7) by (auto simp: try_consume_eq is_still_valid_def)
  note held = steps_held [OF assms(5) inv g]
  have old: "\<not> has_newer_liveness_evidence (guard_addr g) before (task w0)" using assms(4) by auto
  with held pend have "\<not> has_newer_liveness_evidence (guard_addr g) before (task w)"
    by (blast dest: no_new_evidenceD)
  then have "\<not> has_newer_liveness_evidence (guard_addr g) before s"
    by (simp add: s has_newer_liveness_evidence_def)
  moreover have "reap_committed (guard_addr g) s" using res by (simp add: s reap_committed_def)
  ultimately show ?thesis using held by (simp add: s)
qed

theorem reap_commit_point_is_sound_witness:
  "\<exists>s. try_consume example_guard (task example_world) = (True, s)
     \<and> \<not> has_newer_liveness_evidence addr1 5 s \<and> reap_committed addr1 s \<and> addr_ownership s addr1 = None"
proof -
  obtain s where s: "try_consume example_guard (task example_world) = (True, s)"
    by (simp add: try_consume_eq is_still_valid_def example_world_def example_guard_def)
  have g: "example_guard \<in> set (guards example_world)" "\<not> guard_released example_guard"
    by (simp_all add: example_world_def example_guard_def)
  have q: "handle hash0 (CmdHasNewerLivenessEvidence (guard_addr example_guard) 5) (task example_world)
      = Some (ReplyBool False, task example_world)"
    by (simp add: example_world_def new_owner_def has_newer_liveness_evidence_def)
  have n: "addr_ownership (task example_world) (guard_addr example_guard) = None"
    by (simp add: example_world_def new_owner_def)
  have a: "guard_addr example_guard = addr1" by (simp add: example_guard_def)
  from reap_commit_point_is_sound [OF example_reachable g q rtranclp.rtrancl_refl g(1) s] n s show ?thesis
    by (auto simp: a)
qed

text \<open>
  C29. A committed reap is final while its guard is held: whatever happens meanwhile, the owner
  never answers the sweep's release with \<open>ProvenAlive\<close> after its actors are already gone, and
  it refuses every claim for the address and every migration from or to it.
\<close>

theorem committed_reap_is_final:
  assumes "reachable h w0" and "g \<in> set (guards w0)" and "\<not> guard_released g"
    and "reap_cells (task w0) ! guard_valid g = REAP_COMMITTED"
    and "(reap_step h)\<^sup>*\<^sup>* w0 w" and "g \<in> set (guards w)"
  shows "fst (release_dead_peer h p (guard_addr g) before (task w)) \<noteq> ProvenAlive
    \<and> claim h (guard_addr g) cl loc (task w) = (Rejected ReapInProgress, task w)
    \<and> migrate h (guard_addr g) b e loc (task w) = (MigrateReapInProgress, task w)
    \<and> migrate h b (guard_addr g) e loc (task w) = (MigrateReapInProgress, task w)"
proof -
  have inv: "world_inv h w0" using assms(1) by (rule reachable_inv)
  have g: "holds_guard g w0" "holds_guard g w" using assms(2,3,6) by (auto simp: holds_guard_def)
  have iw: "world_inv h w" using assms(5) inv by (rule steps_inv)
  note res = holds_reserved [OF iw g(2)]
  have "reap_cells (task w) ! guard_valid g = REAP_COMMITTED"
    using steps_cells [OF assms(5) inv] holds_reserved [OF inv g(1)] assms(4)
    by (auto simp: cells_advance_def)
  with res have "reap_committed (guard_addr g) (task w)" by (simp add: reap_committed_def)
  then have "fst (release_dead_peer h p (guard_addr g) before (task w)) \<noteq> ProvenAlive"
    by (auto simp: release_dead_peer_def Let_def drop_owner_eq split: option.split)
  with res show ?thesis by (simp add: claim_def migrate_def)
qed

theorem committed_reap_is_final_witness:
  "let s = (task example_world)\<lparr>reap_cells := [REAP_COMMITTED]\<rparr> in
     fst (release_dead_peer hash0 peer1 addr1 5 s) \<noteq> ProvenAlive
     \<and> claim hash0 addr1 \<lparr>claimant = peer1, claim_kind = Verified\<rparr> False s = (Rejected ReapInProgress, s)"
proof -
  let ?s = "(task example_world)\<lparr>reap_cells := [REAP_COMMITTED]\<rparr>"
  let ?w = "example_world\<lparr>task := ?s\<rparr>"
  have g: "example_guard \<in> set (guards ?w)" "\<not> guard_released example_guard"
    and c: "reap_cells (task ?w) ! guard_valid example_guard = REAP_COMMITTED"
    by (simp_all add: example_world_def example_guard_def)
  have a: "guard_addr example_guard = addr1" by (simp add: example_guard_def)
  from committed_reap_is_final [OF example_committed g c rtranclp.rtrancl_refl g(1),
      of peer1 5 "\<lparr>claimant = peer1, claim_kind = Verified\<rparr>" False]
  show ?thesis by (simp add: a)
qed

end
