(* ===== verification/Net_Address.thy ===== *)
theory Net_Address
  imports Wire_Types "HOL-Library.Char_ord"
begin

text \<open>
  IP addresses as the address filters see them: the predicates of \<open>std::net\<close> they call, the
  filter of \<^verbatim>\<open>src/net_security.rs\<close>, and the functions of \<^verbatim>\<open>src/registry.rs\<close> that repair and
  judge the addresses a peer advertises.

  The textual form of a socket address (its \<open>Display\<close> and \<open>FromStr\<close>) is a pair of functions, an
  argument of the definitions that read or write an address field of a message.
\<close>

subsection \<open>Addresses of the standard library\<close>

datatype IpAddr = V4 u32 | V6 u128

fun addr_ip :: "SocketAddr \<Rightarrow> IpAddr" where
  "addr_ip (SocketAddrV4 ip port) = V4 ip"
| "addr_ip (SocketAddrV6 ip port flow scope) = V6 ip"

fun addr_port :: "SocketAddr \<Rightarrow> u16" where
  "addr_port (SocketAddrV4 ip port) = port"
| "addr_port (SocketAddrV6 ip port flow scope) = port"

fun SocketAddr_new :: "IpAddr \<Rightarrow> u16 \<Rightarrow> SocketAddr" where
  "SocketAddr_new (V4 ip) port = SocketAddrV4 ip port"
| "SocketAddr_new (V6 ip) port = SocketAddrV6 ip port 0 0"

text \<open>The first \<open>len\<close> bits of an address of width \<open>w\<close> are those of \<open>net\<close>.\<close>

definition in_net4 :: "nat \<Rightarrow> nat \<Rightarrow> u32 \<Rightarrow> bool" where
  "in_net4 len net ip \<longleftrightarrow> drop_bit (32 - len) ip = of_nat net"

definition in_net6 :: "nat \<Rightarrow> nat \<Rightarrow> u128 \<Rightarrow> bool" where
  "in_net6 len net ip \<longleftrightarrow> drop_bit (128 - len) ip = of_nat net"

definition v4_is_loopback :: "u32 \<Rightarrow> bool" where "v4_is_loopback = in_net4 8 127"
definition v4_is_link_local :: "u32 \<Rightarrow> bool" where "v4_is_link_local = in_net4 16 0xA9FE"
definition v4_is_private :: "u32 \<Rightarrow> bool" where
  "v4_is_private ip \<longleftrightarrow> in_net4 8 10 ip \<or> in_net4 12 0xAC1 ip \<or> in_net4 16 0xC0A8 ip"
definition v4_is_unspecified :: "u32 \<Rightarrow> bool" where "v4_is_unspecified ip \<longleftrightarrow> ip = 0"
definition v4_is_broadcast :: "u32 \<Rightarrow> bool" where "v4_is_broadcast ip \<longleftrightarrow> ip = - 1"
definition v4_is_multicast :: "u32 \<Rightarrow> bool" where "v4_is_multicast = in_net4 4 14"
definition v4_is_documentation :: "u32 \<Rightarrow> bool" where
  "v4_is_documentation ip \<longleftrightarrow> in_net4 24 0xC00002 ip \<or> in_net4 24 0xC63364 ip \<or> in_net4 24 0xCB0071 ip"

definition to_ipv4_mapped :: "u128 \<Rightarrow> u32 option" where
  "to_ipv4_mapped ip = (if in_net6 96 0xFFFF ip then Some (ucast ip) else None)"
definition v6_is_loopback :: "u128 \<Rightarrow> bool" where "v6_is_loopback ip \<longleftrightarrow> ip = 1"
definition v6_is_unspecified :: "u128 \<Rightarrow> bool" where "v6_is_unspecified ip \<longleftrightarrow> ip = 0"
definition v6_is_multicast :: "u128 \<Rightarrow> bool" where "v6_is_multicast = in_net6 8 0xFF"
definition v6_is_unicast_link_local :: "u128 \<Rightarrow> bool" where "v6_is_unicast_link_local = in_net6 10 0x3FA"
definition v6_is_unique_local :: "u128 \<Rightarrow> bool" where "v6_is_unique_local = in_net6 7 0x7E"

fun ip_is_unspecified :: "IpAddr \<Rightarrow> bool" where
  "ip_is_unspecified (V4 ip) = v4_is_unspecified ip"
| "ip_is_unspecified (V6 ip) = v6_is_unspecified ip"

fun ip_is_multicast :: "IpAddr \<Rightarrow> bool" where
  "ip_is_multicast (V4 ip) = v4_is_multicast ip"
| "ip_is_multicast (V6 ip) = v6_is_multicast ip"

fun ip_is_loopback :: "IpAddr \<Rightarrow> bool" where
  "ip_is_loopback (V4 ip) = v4_is_loopback ip"
| "ip_is_loopback (V6 ip) = v6_is_loopback ip"

subsection \<open>The dial filter\<close>

definition is_safe_ipv4 :: "u32 \<Rightarrow> bool \<Rightarrow> bool \<Rightarrow> bool \<Rightarrow> bool" where
  "is_safe_ipv4 ipv4 allow_private allow_loopback allow_link_local =
     (if v4_is_loopback ipv4 \<and> \<not> allow_loopback then False
      else if v4_is_link_local ipv4 \<and> \<not> allow_link_local then False
      else if v4_is_private ipv4 \<and> \<not> allow_private then False
      else if v4_is_unspecified ipv4 then False
      else if v4_is_broadcast ipv4 then False
      else if v4_is_multicast ipv4 then False
      else if v4_is_documentation ipv4 then False
      else True)"

definition is_safe_ipv6 :: "u128 \<Rightarrow> bool \<Rightarrow> bool \<Rightarrow> bool \<Rightarrow> bool" where
  "is_safe_ipv6 ipv6 allow_private allow_loopback allow_link_local =
     (case to_ipv4_mapped ipv6 of
        Some mapped \<Rightarrow> is_safe_ipv4 mapped allow_private allow_loopback allow_link_local
      | None \<Rightarrow>
          if v6_is_loopback ipv6 \<and> \<not> allow_loopback then False
          else if v6_is_unspecified ipv6 then False
          else if v6_is_multicast ipv6 then False
          else if v6_is_unicast_link_local ipv6 \<and> \<not> allow_link_local then False
          else if v6_is_unique_local ipv6 \<and> \<not> allow_private then False
          else if in_net6 16 0x2001 ipv6 \<and> in_net6 32 0x20010DB8 ipv6 then False
          else True)"

definition is_safe_to_dial :: "SocketAddr \<Rightarrow> bool \<Rightarrow> bool \<Rightarrow> bool \<Rightarrow> bool" where
  "is_safe_to_dial addr allow_private allow_loopback allow_link_local =
     (case addr_ip addr of
        V4 ipv4 \<Rightarrow> is_safe_ipv4 ipv4 allow_private allow_loopback allow_link_local
      | V6 ipv6 \<Rightarrow> is_safe_ipv6 ipv6 allow_private allow_loopback allow_link_local)"

subsection \<open>Advertised addresses\<close>

record addr_text =
  addr_parse :: "string \<Rightarrow> SocketAddr option"
  addr_show :: "SocketAddr \<Rightarrow> string"

definition resolve_peer_addr_checked :: "addr_text \<Rightarrow> string option \<Rightarrow> SocketAddr \<Rightarrow> SocketAddr option" where
  "resolve_peer_addr_checked txt sender_bind_addr tcp_source_addr =
     (case sender_bind_addr of
        None \<Rightarrow> Some tcp_source_addr
      | Some bind_addr_str \<Rightarrow>
          (case addr_parse txt bind_addr_str of
             None \<Rightarrow> Some tcp_source_addr
           | Some bind_addr \<Rightarrow>
               if addr_port bind_addr = 0 then None
               else if ip_is_unspecified (addr_ip bind_addr)
               then Some (SocketAddr_new (addr_ip tcp_source_addr) (addr_port bind_addr))
               else if ip_is_loopback (addr_ip bind_addr) \<and> \<not> ip_is_loopback (addr_ip tcp_source_addr)
               then None
               else Some bind_addr))"

definition resolve_peer_addr :: "addr_text \<Rightarrow> string option \<Rightarrow> SocketAddr \<Rightarrow> SocketAddr" where
  "resolve_peer_addr txt sender_bind_addr tcp_source_addr =
     (case resolve_peer_addr_checked txt sender_bind_addr tcp_source_addr of
        Some addr \<Rightarrow> addr
      | None \<Rightarrow> tcp_source_addr)"

fun link_local :: "IpAddr \<Rightarrow> bool" where
  "link_local (V4 v4) = v4_is_link_local v4"
| "link_local (V6 v6) = v6_is_unicast_link_local v6"

definition advertised_ip_unusable :: "IpAddr \<Rightarrow> IpAddr \<Rightarrow> bool" where
  "advertised_ip_unusable advertised_ip sender_ip =
     (if ip_is_unspecified advertised_ip \<or> ip_is_multicast advertised_ip then True
      else if ip_is_loopback advertised_ip \<and> \<not> ip_is_loopback sender_ip then True
      else link_local advertised_ip \<and> \<not> link_local sender_ip)"

definition resolve_remote_actor_addr :: "SocketAddr \<Rightarrow> SocketAddr \<Rightarrow> bool \<Rightarrow> SocketAddr" where
  "resolve_remote_actor_addr actor_addr sender_addr owner_is_sender =
     (if \<not> owner_is_sender \<or> \<not> advertised_ip_unusable (addr_ip actor_addr) (addr_ip sender_addr)
      then actor_addr
      else SocketAddr_new (addr_ip sender_addr) (addr_port actor_addr))"

definition resolve_owned_actor_addr :: "SocketAddr \<Rightarrow> SocketAddr \<Rightarrow> SocketAddr" where
  "resolve_owned_actor_addr actor_addr repair_addr =
     SocketAddr_new (addr_ip repair_addr) (addr_port actor_addr)"

definition learnable_dial_route :: "SocketAddr \<Rightarrow> SocketAddr \<Rightarrow> bool" where
  "learnable_dial_route addr sender_addr \<longleftrightarrow>
     addr_port addr \<noteq> 0 \<and> \<not> advertised_ip_unusable (addr_ip addr) (addr_ip sender_addr)"

definition canonical_wire_addr :: "addr_text \<Rightarrow> string \<Rightarrow> SocketAddr" where
  "canonical_wire_addr txt address =
     (case addr_parse txt address of Some addr \<Rightarrow> addr | None \<Rightarrow> SocketAddrV4 0 0)"

subsection \<open>The filter as a table of address blocks\<close>

text \<open>
  The blocks of the registries (RFC 1122, 1918, 3927, 5737, 5771; RFC 3849, 4193, 4291), as first
  and last address, with the permission that opens them.
\<close>

datatype permission = Never | IfPrivate | IfLoopback | IfLinkLocal

fun permits :: "permission \<Rightarrow> bool \<Rightarrow> bool \<Rightarrow> bool \<Rightarrow> bool" where
  "permits Never priv lo ll = False"
| "permits IfPrivate priv lo ll = priv"
| "permits IfLoopback priv lo ll = lo"
| "permits IfLinkLocal priv lo ll = ll"

definition blocks4 :: "(nat \<times> nat \<times> permission) list" where
  "blocks4 =
     [(0x00000000, 0x00000000, Never), (0x0A000000, 0x0AFFFFFF, IfPrivate),
      (0x7F000000, 0x7FFFFFFF, IfLoopback), (0xA9FE0000, 0xA9FEFFFF, IfLinkLocal),
      (0xAC100000, 0xAC1FFFFF, IfPrivate), (0xC0000200, 0xC00002FF, Never),
      (0xC0A80000, 0xC0A8FFFF, IfPrivate), (0xC6336400, 0xC63364FF, Never),
      (0xCB007100, 0xCB0071FF, Never), (0xE0000000, 0xEFFFFFFF, Never),
      (0xFFFFFFFF, 0xFFFFFFFF, Never)]"

definition blocks6 :: "(nat \<times> nat \<times> permission) list" where
  "blocks6 =
     [(0, 0, Never), (1, 1, IfLoopback),
      (0x20010DB8 * 2 ^ 96, 0x20010DB9 * 2 ^ 96 - 1, Never),
      (0x7E * 2 ^ 121, 0x7F * 2 ^ 121 - 1, IfPrivate),
      (0x3FA * 2 ^ 118, 0x3FB * 2 ^ 118 - 1, IfLinkLocal),
      (0xFF * 2 ^ 120, 2 ^ 128 - 1, Never)]"

definition open_in :: "(nat \<times> nat \<times> permission) list \<Rightarrow> nat \<Rightarrow> bool \<Rightarrow> bool \<Rightarrow> bool \<Rightarrow> bool" where
  "open_in blocks ip priv lo ll \<longleftrightarrow>
     list_all (\<lambda>(from_ip, to_ip, p). from_ip \<le> ip \<and> ip \<le> to_ip \<longrightarrow> permits p priv lo ll) blocks"

text \<open>The reference: an address is read as IPv4 when it is one or is mapped into IPv6.\<close>

definition dial_table :: "IpAddr \<Rightarrow> bool \<Rightarrow> bool \<Rightarrow> bool \<Rightarrow> bool" where
  "dial_table ip priv lo ll =
     (case ip of
        V4 v4 \<Rightarrow> open_in blocks4 (unat v4) priv lo ll
      | V6 v6 \<Rightarrow>
          if 0xFFFF * 2 ^ 32 \<le> unat v6 \<and> unat v6 < 0x10000 * 2 ^ 32
          then open_in blocks4 (unat v6 - 0xFFFF * 2 ^ 32) priv lo ll
          else open_in blocks6 (unat v6) priv lo ll)"

lemma drop_bit_range:
  fixes ip :: "'a::len word"
  assumes "net < 2 ^ LENGTH('a)"
  shows "drop_bit n ip = of_nat net \<longleftrightarrow> net * 2 ^ n \<le> unat ip \<and> unat ip \<le> net * 2 ^ n + (2 ^ n - 1)"
proof -
  have net: "unat (of_nat net :: 'a word) = net" using assms by (simp add: unat_of_nat take_bit_nat_eq_self)
  have "unat (drop_bit n ip) = unat ip div 2 ^ n"
    by (simp add: unsigned_drop_bit_eq drop_bit_eq_div[where 'a = nat] take_bit_nat_eq_self)
  then have "drop_bit n ip = of_nat net \<longleftrightarrow> unat ip div 2 ^ n = net"
    by (simp add: word_unat_eq_iff net)
  also have "\<dots> \<longleftrightarrow> net * 2 ^ n \<le> unat ip \<and> unat ip < net * 2 ^ n + 2 ^ n"
    by (metis add.commute div_less_iff_less_mult less_Suc_eq_le less_eq_div_iff_mult_less_eq mult_Suc
        order_antisym order_refl zero_less_numeral zero_less_power)
  also have "\<dots> \<longleftrightarrow> net * 2 ^ n \<le> unat ip \<and> unat ip \<le> net * 2 ^ n + (2 ^ n - 1)"
    using zero_less_power[of "2 :: nat" n] by linarith
  finally show ?thesis .
qed

lemma v4_ranges:
  "v4_is_loopback ip \<longleftrightarrow> 0x7F000000 \<le> unat ip \<and> unat ip \<le> 0x7FFFFFFF"
  "v4_is_link_local ip \<longleftrightarrow> 0xA9FE0000 \<le> unat ip \<and> unat ip \<le> 0xA9FEFFFF"
  "v4_is_private ip \<longleftrightarrow> (0x0A000000 \<le> unat ip \<and> unat ip \<le> 0x0AFFFFFF)
     \<or> (0xAC100000 \<le> unat ip \<and> unat ip \<le> 0xAC1FFFFF) \<or> (0xC0A80000 \<le> unat ip \<and> unat ip \<le> 0xC0A8FFFF)"
  "v4_is_multicast ip \<longleftrightarrow> 0xE0000000 \<le> unat ip \<and> unat ip \<le> 0xEFFFFFFF"
  "v4_is_documentation ip \<longleftrightarrow> (0xC0000200 \<le> unat ip \<and> unat ip \<le> 0xC00002FF)
     \<or> (0xC6336400 \<le> unat ip \<and> unat ip \<le> 0xC63364FF) \<or> (0xCB007100 \<le> unat ip \<and> unat ip \<le> 0xCB0071FF)"
  by (simp_all add: drop_bit_range v4_is_loopback_def v4_is_link_local_def v4_is_private_def
      v4_is_multicast_def v4_is_documentation_def in_net4_def del: of_nat_numeral)

lemma v4_points:
  "v4_is_unspecified ip \<longleftrightarrow> 0x00000000 \<le> unat ip \<and> unat ip \<le> 0x00000000"
  "v4_is_broadcast ip \<longleftrightarrow> 0xFFFFFFFF \<le> unat ip \<and> unat ip \<le> 0xFFFFFFFF"
  by (auto simp: v4_is_unspecified_def v4_is_broadcast_def word_unat_eq_iff unat_max_word)

lemma is_safe_ipv4_iff:
  "is_safe_ipv4 ip priv lo ll \<longleftrightarrow> (v4_is_loopback ip \<longrightarrow> lo) \<and> (v4_is_link_local ip \<longrightarrow> ll)
     \<and> (v4_is_private ip \<longrightarrow> priv) \<and> \<not> v4_is_unspecified ip \<and> \<not> v4_is_broadcast ip
     \<and> \<not> v4_is_multicast ip \<and> \<not> v4_is_documentation ip"
  by (simp add: is_safe_ipv4_def)

lemma safe_ipv4_table: "is_safe_ipv4 ip priv lo ll = open_in blocks4 (unat ip) priv lo ll"
  unfolding is_safe_ipv4_iff v4_ranges v4_points open_in_def blocks4_def
  by (simp only: list.pred_inject prod.case permits.simps simp_thms) argo
lemma v6_ranges:
  "in_net6 96 0xFFFF ip \<longleftrightarrow> 0xFFFF * 2 ^ 32 \<le> unat ip \<and> unat ip < 0x10000 * 2 ^ 32"
  "v6_is_multicast ip \<longleftrightarrow> 0xFF * 2 ^ 120 \<le> unat ip \<and> unat ip \<le> 2 ^ 128 - 1"
  "v6_is_unicast_link_local ip \<longleftrightarrow> 0x3FA * 2 ^ 118 \<le> unat ip \<and> unat ip \<le> 0x3FB * 2 ^ 118 - 1"
  "v6_is_unique_local ip \<longleftrightarrow> 0x7E * 2 ^ 121 \<le> unat ip \<and> unat ip \<le> 0x7F * 2 ^ 121 - 1"
  "in_net6 16 0x2001 ip \<and> in_net6 32 0x20010DB8 ip \<longleftrightarrow>
     0x20010DB8 * 2 ^ 96 \<le> unat ip \<and> unat ip \<le> 0x20010DB9 * 2 ^ 96 - 1"
  by (auto simp: drop_bit_range v6_is_multicast_def v6_is_unicast_link_local_def v6_is_unique_local_def
      in_net6_def simp del: of_nat_numeral)

lemma v6_points:
  "v6_is_unspecified ip \<longleftrightarrow> 0 \<le> unat ip \<and> unat ip \<le> 0"
  "v6_is_loopback ip \<longleftrightarrow> 1 \<le> unat ip \<and> unat ip \<le> 1"
  by (auto simp: v6_is_unspecified_def v6_is_loopback_def word_unat_eq_iff)

lemma unat_mapped:
  assumes "in_net6 96 0xFFFF ip"
  shows "unat (ucast ip :: u32) = unat ip - 0xFFFF * 2 ^ 32"
proof -
  define r where "r = unat ip - 0xFFFF * 2 ^ 32"
  have "0xFFFF * 2 ^ 32 \<le> unat ip" "unat ip < 0x10000 * 2 ^ 32" using assms v6_ranges(1) by blast+
  then have "unat ip = r + 0xFFFF * 2 ^ 32" "r < 2 ^ 32" by (simp_all add: r_def)
  then have "unat ip mod 2 ^ 32 = r" by (simp only: mod_mult_self1 mod_less)
  moreover have "unat (ucast ip :: u32) = unat ip mod 2 ^ 32"
    by (simp add: unsigned_ucast_eq take_bit_eq_mod unsigned_take_bit_eq)
  ultimately show ?thesis by (simp only: r_def)
qed

lemma safe_ipv6_table:
  "\<not> in_net6 96 0xFFFF ip \<Longrightarrow> is_safe_ipv6 ip priv lo ll = open_in blocks6 (unat ip) priv lo ll"
proof -
  assume "\<not> in_net6 96 0xFFFF ip"
  then have "is_safe_ipv6 ip priv lo ll \<longleftrightarrow> (v6_is_loopback ip \<longrightarrow> lo) \<and> \<not> v6_is_unspecified ip
      \<and> \<not> v6_is_multicast ip \<and> (v6_is_unicast_link_local ip \<longrightarrow> ll) \<and> (v6_is_unique_local ip \<longrightarrow> priv)
      \<and> \<not> (in_net6 16 0x2001 ip \<and> in_net6 32 0x20010DB8 ip)"
    by (simp add: is_safe_ipv6_def to_ipv4_mapped_def)
  then show ?thesis
    unfolding v6_ranges v6_points open_in_def blocks6_def
    by (simp only: list.pred_inject prod.case permits.simps simp_thms) argo
qed

subsection \<open>Property\<close>

text \<open>C33. The dial filter, a cascade of prefix tests, admits exactly the addresses outside the
  reserved blocks or in a block the configuration opens; an IPv4 address mapped into IPv6 is
  judged as the IPv4 address.\<close>

theorem dial_filter_is_block_table:
  "is_safe_to_dial addr allow_private allow_loopback allow_link_local =
     dial_table (addr_ip addr) allow_private allow_loopback allow_link_local"
proof (cases "addr_ip addr")
  case (V4 ip)
  then show ?thesis by (simp add: is_safe_to_dial_def dial_table_def safe_ipv4_table)
next
  case (V6 ip)
  show ?thesis
  proof (cases "in_net6 96 0xFFFF ip")
    case True
    then have "is_safe_ipv6 ip allow_private allow_loopback allow_link_local =
        open_in blocks4 (unat ip - 0xFFFF * 2 ^ 32) allow_private allow_loopback allow_link_local"
      by (simp only: is_safe_ipv6_def to_ipv4_mapped_def if_True option.case safe_ipv4_table unat_mapped)
    with True[unfolded v6_ranges(1)] V6 show ?thesis by (simp only: is_safe_to_dial_def dial_table_def IpAddr.case if_True simp_thms)
  next
    case False
    with False[unfolded v6_ranges(1)] V6 show ?thesis
      by (simp only: is_safe_to_dial_def dial_table_def IpAddr.case if_False safe_ipv6_table[OF False])
  qed
qed

end
