(* ===== verification/Peer_Info.thy ===== *)
theory Peer_Info
  imports Net_Address
begin

text \<open>
  The per-peer records of the gossip registry (\<open>PeerInfo\<close>, \<open>PeerInfoGossip\<close>, \<open>PeerDispatchKey\<close> of
  \<^verbatim>\<open>src/registry.rs\<close>) and the session rules on them: which connection speaks for a peer, when a
  lower sequence is accepted after a restart, and the epochs that fence delayed writes.

  Timestamps are arguments. An \<open>Instant\<close> is a number. A connection is the number of its
  allocation: a weak reference to it upgrades to the connection of the same number while that
  one is published, which is all the code asks of it. The process-wide epoch counter is passed
  along.
\<close>

type_synonym Instant = nat
type_synonym ConnectionId = nat

record PeerInfo =
  pi_address :: SocketAddr
  pi_peer_address :: "SocketAddr option"
  inbound_observed :: bool
  outbound_dial_success :: bool
  pi_node_id :: "GossipNodeId option"
  dns_name :: "string option"
  failures :: usize
  last_attempt :: u64
  last_success :: u64
  last_sequence :: u64
  last_sent_sequence :: u64
  consecutive_deltas :: u64
  last_failure_time :: "u64 option"
  last_failure_instant :: "Instant option"
  last_dns_refresh_attempt :: "u64 option"
  last_response_received_ms :: u64
  accept_lower_sequence_from :: "SocketAddr option"
  current_session_source :: "SocketAddr option"
  current_session_connection :: "ConnectionId option"
  current_session_epoch :: u64
  session_restart_confirmed :: bool
  identity_verified :: bool
  transport_source_keyed :: bool

subsection \<open>Construction\<close>

definition skeleton :: "u64 \<Rightarrow> u64 \<Rightarrow> SocketAddr \<Rightarrow> GossipNodeId option \<Rightarrow> PeerInfo" where
  "skeleton now now_ms addr node_id =
     \<lparr>pi_address = addr, pi_peer_address = None, inbound_observed = False,
      outbound_dial_success = False, pi_node_id = node_id, dns_name = None, failures = 0,
      last_attempt = now, last_success = 0, last_sequence = 0, last_sent_sequence = 0,
      consecutive_deltas = 0, last_failure_time = None, last_failure_instant = None,
      last_dns_refresh_attempt = None, last_response_received_ms = now_ms,
      accept_lower_sequence_from = None, current_session_source = None,
      current_session_connection = None, current_session_epoch = 0,
      session_restart_confirmed = False, identity_verified = False,
      transport_source_keyed = False\<rparr>"

definition PeerInfo_local :: "u64 \<Rightarrow> u64 \<Rightarrow> SocketAddr \<Rightarrow> PeerInfo" where
  "PeerInfo_local now now_ms advertise_addr =
     (skeleton now now_ms advertise_addr None)\<lparr>last_success := now\<rparr>"

definition with_dns :: "u64 \<Rightarrow> u64 \<Rightarrow> SocketAddr \<Rightarrow> string \<Rightarrow> PeerInfo" where
  "with_dns now now_ms addr name = (skeleton now now_ms addr None)\<lparr>dns_name := Some name\<rparr>"

text \<open>\<open>ResolvedRoute\<close>: the address of a connection and whether it can be dialled.\<close>

record ResolvedRoute =
  route_addr :: SocketAddr
  route_dialable :: bool

definition for_connect_attempt :: "u64 \<Rightarrow> u64 \<Rightarrow> ResolvedRoute \<Rightarrow> GossipNodeId option \<Rightarrow> PeerInfo" where
  "for_connect_attempt now now_ms route node_id =
     (let info = skeleton now now_ms (route_addr route) node_id
      in if \<not> route_dialable route
         then info\<lparr>transport_source_keyed := True, inbound_observed := True\<rparr>
         else info)"

definition for_failed_connect_attempt :: "u64 \<Rightarrow> u64 \<Rightarrow> SocketAddr \<Rightarrow> GossipNodeId option \<Rightarrow> PeerInfo" where
  "for_failed_connect_attempt now now_ms attempted node_id = skeleton now now_ms attempted node_id"

definition has_dns_name :: "PeerInfo \<Rightarrow> bool" where "has_dns_name info \<longleftrightarrow> dns_name info \<noteq> None"

definition update_address :: "SocketAddr \<Rightarrow> PeerInfo \<Rightarrow> PeerInfo" where
  "update_address new_addr info = info\<lparr>pi_address := new_addr\<rparr>"

definition mark_dialability_confirmed :: "PeerInfo \<Rightarrow> PeerInfo" where
  "mark_dialability_confirmed info = info\<lparr>transport_source_keyed := False\<rparr>"

definition mark_transport_source_keyed_fallback :: "bool \<Rightarrow> PeerInfo \<Rightarrow> PeerInfo" where
  "mark_transport_source_keyed_fallback claim_created_ownership info =
     (if claim_created_ownership then info\<lparr>transport_source_keyed := True\<rparr> else info)"

datatype PeerDispatchKey = Node GossipNodeId | Addr SocketAddr

definition for_entry :: "SocketAddr \<Rightarrow> PeerInfo \<Rightarrow> PeerDispatchKey" where
  "for_entry addr peer =
     (case (pi_node_id peer, identity_verified peer) of
        (Some node_id, True) \<Rightarrow> Node node_id
      | _ \<Rightarrow> Addr addr)"

subsection \<open>The gossiped form\<close>

record PeerInfoGossip =
  pg_address :: string
  pg_peer_address :: "string option"
  pg_node_id :: "GossipNodeId option"
  pg_failures :: usize
  pg_last_attempt :: u64
  pg_last_success :: u64
  pg_dns_name :: "string option"

definition to_gossip :: "addr_text \<Rightarrow> PeerInfo \<Rightarrow> PeerInfoGossip" where
  "to_gossip txt info =
     \<lparr>pg_address = addr_show txt (pi_address info),
      pg_peer_address = map_option (addr_show txt) (pi_peer_address info),
      pg_node_id = pi_node_id info, pg_failures = failures info,
      pg_last_attempt = last_attempt info, pg_last_success = last_success info,
      pg_dns_name = dns_name info\<rparr>"

definition from_gossip :: "addr_text \<Rightarrow> u64 \<Rightarrow> PeerInfoGossip \<Rightarrow> PeerInfo option" where
  "from_gossip txt now_ms gossip =
     (case addr_parse txt (pg_address gossip) of
        None \<Rightarrow> None
      | Some addr \<Rightarrow>
          Some ((skeleton (pg_last_attempt gossip) now_ms addr (pg_node_id gossip))
            \<lparr>pi_peer_address := Option.bind (pg_peer_address gossip) (addr_parse txt),
             dns_name := pg_dns_name gossip, failures := pg_failures gossip,
             last_success := pg_last_success gossip\<rparr>))"

subsection \<open>Sessions\<close>

definition next_session_epoch :: "u64 \<Rightarrow> u64 \<times> u64" where
  "next_session_epoch counter = (counter, counter + 1)"

text \<open>
  The connection pool is asked for the peer's published connection and its session source.
\<close>

type_synonym published_connection = "(ConnectionId \<times> SocketAddr) option"

definition arm_sequence_reset_for_new_session ::
  "GossipNodeId \<Rightarrow> SocketAddr \<Rightarrow> published_connection \<Rightarrow> ConnectionId \<Rightarrow> u64 \<Rightarrow> PeerInfo option
   \<Rightarrow> PeerInfo option \<times> u64" where
  "arm_sequence_reset_for_new_session node_id session_source published connection counter entry =
     (case entry of
        None \<Rightarrow> (None, counter)
      | Some info \<Rightarrow>
          if pi_node_id info \<noteq> Some node_id then (Some info, counter)
          else if (case published of None \<Rightarrow> False | Some (current, _) \<Rightarrow> current \<noteq> connection)
          then (Some info, counter)
          else case next_session_epoch counter of
                 (epoch, counter') \<Rightarrow>
                   (Some (info\<lparr>accept_lower_sequence_from := Some session_source,
                               current_session_source := Some session_source,
                               current_session_connection := Some connection,
                               current_session_epoch := epoch,
                               session_restart_confirmed := False\<rparr>), counter'))"

definition peer_info_is_from_current_session ::
  "published_connection \<Rightarrow> SocketAddr option \<Rightarrow> u64 \<Rightarrow> PeerInfo \<Rightarrow> bool \<times> PeerInfo \<times> u64" where
  "peer_info_is_from_current_session published session_source counter info =
     (case current_session_source info of
        None \<Rightarrow> (True, info, counter)
      | Some armed_source \<Rightarrow>
          let different = (case published of
                             None \<Rightarrow> False
                           | Some (current, _) \<Rightarrow> current_session_connection info \<noteq> Some current);
              from_armed_source = (session_source = Some armed_source)
          in if \<not> different then (from_armed_source, info, counter)
             else if from_armed_source then (False, info, counter)
             else if (case published of
                        None \<Rightarrow> True
                      | Some (_, source) \<Rightarrow> Some source \<noteq> session_source)
             then (False, info, counter)
             else case next_session_epoch counter of
                    (epoch, counter') \<Rightarrow>
                      (True, info\<lparr>current_session_source := None, accept_lower_sequence_from := None,
                                 current_session_connection := None, current_session_epoch := epoch,
                                 session_restart_confirmed := False\<rparr>, counter'))"

text \<open>
  The sequence gate of a full sync: a lower sequence is only taken from the connection that
  armed the exemption, which it uses up; \<open>None\<close> is a stale sequence.
\<close>

definition admit_sequence :: "SocketAddr option \<Rightarrow> u64 \<Rightarrow> PeerInfo \<Rightarrow> PeerInfo option" where
  "admit_sequence session_source sequence info =
     (if sequence < last_sequence info
      then if accept_lower_sequence_from info \<noteq> None \<and> session_source \<noteq> None
                \<and> accept_lower_sequence_from info = session_source
           then Some (info\<lparr>accept_lower_sequence_from := None, last_sequence := sequence,
                           session_restart_confirmed := True\<rparr>)
           else None
      else Some (info\<lparr>accept_lower_sequence_from := None,
                      last_sequence := max (last_sequence info) sequence\<rparr>))"

end
