(* ===== verification/Ordered_Map.thy ===== *)
theory Ordered_Map
  imports Prelude
begin

text \<open>
  \<open>BTreeMap\<close> as an association list sorted strictly by key, which is the order its iterators
  follow.  The operations keep the order, so two maps with the same entries are equal lists.
\<close>

fun bt_insert :: "'k::linorder \<Rightarrow> 'v \<Rightarrow> ('k \<times> 'v) list \<Rightarrow> ('k \<times> 'v) list" where
  "bt_insert k v [] = [(k, v)]"
| "bt_insert k v ((k', v') # m) =
     (if k < k' then (k, v) # (k', v') # m
      else if k = k' then (k, v) # m
      else (k', v') # bt_insert k v m)"

definition bt_get :: "'k::linorder \<Rightarrow> ('k \<times> 'v) list \<Rightarrow> 'v option" where
  "bt_get k m = map_of m k"

definition bt_retain :: "('k \<Rightarrow> 'v \<Rightarrow> bool) \<Rightarrow> ('k \<times> 'v) list \<Rightarrow> ('k \<times> 'v) list" where
  "bt_retain p m = filter (\<lambda>(k, v). p k v) m"

definition bt_of_list :: "('k::linorder \<times> 'v) list \<Rightarrow> ('k \<times> 'v) list" where
  "bt_of_list xs = fold (\<lambda>(k, v). bt_insert k v) xs []"

abbreviation bt_wf :: "('k::linorder \<times> 'v) list \<Rightarrow> bool" where
  "bt_wf m \<equiv> sorted_wrt (<) (map fst m)"

lemma set_keys_bt_insert [simp]: "fst ` set (bt_insert k v m) = insert k (fst ` set m)"
proof (induction m)
  case (Cons kv m)
  then show ?case by (cases kv) (simp add: insert_commute)
qed simp

lemma bt_wf_insert: "bt_wf m \<Longrightarrow> bt_wf (bt_insert k v m)"
proof (induction m)
  case (Cons kv m)
  obtain k' v' where kv: "kv = (k', v')" by (rule prod.exhaust)
  have IH: "bt_wf (bt_insert k v m)" and lt: "\<forall>x \<in> fst ` set m. k' < x" and wf: "bt_wf m"
    using Cons by (auto simp: kv)
  consider "k < k'" | "k = k'" | "k' < k" by fastforce
  then show ?case
  proof cases
    case 1
    with lt wf show ?thesis by (auto simp: kv)
  next
    case 2
    with lt wf show ?thesis by (simp add: kv)
  next
    case 3
    have "\<forall>x \<in> fst ` set (bt_insert k v m). k' < x" using lt 3 unfolding set_keys_bt_insert by simp
    moreover have "k \<noteq> k'" "\<not> k < k'" using 3 by auto
    ultimately show ?thesis using IH by (simp add: kv)
  qed
qed simp

lemma lookup_bt_insert: "bt_wf m \<Longrightarrow> map_of (bt_insert k v m) = (map_of m)(k \<mapsto> v)"
  by (induction k v m rule: bt_insert.induct) (auto simp: fun_eq_iff)

lemma bt_wf_distinct: "bt_wf m \<Longrightarrow> keys_distinct m"
  by (auto simp: strict_sorted_iff)

lemma bt_wf_retain: "bt_wf m \<Longrightarrow> bt_wf (bt_retain p m)"
  unfolding bt_retain_def by (induction m) auto

lemma lookup_bt_retain:
  "keys_distinct m \<Longrightarrow> map_of (bt_retain p m) k = Option.bind (map_of m k) (\<lambda>v. if p k v then Some v else None)"
  unfolding bt_retain_def
proof (induction m)
  case (Cons kv m)
  have "map_of (filter (\<lambda>(k, v). p k v) m) (fst kv) = None" if "fst kv \<notin> fst ` set m"
    using that by (auto simp: map_of_eq_None_iff)
  with Cons show ?case by (cases kv) auto
qed simp

text \<open>Two well-formed maps with the same lookups are the same list.\<close>

lemma bt_wf_ext: "bt_wf m \<Longrightarrow> bt_wf m' \<Longrightarrow> map_of m = map_of m' \<Longrightarrow> m = m'"
proof -
  assume wf: "bt_wf m" "bt_wf m'" and eq: "map_of m = map_of m'"
  have "set m = {(k, v). map_of m k = Some v}" if "bt_wf m" for m :: "('a \<times> 'b) list"
    using bt_wf_distinct [OF that] by (auto simp: map_of_eq_Some_iff)
  then have same: "set m = set m'" using wf eq by simp
  have sorted: "sorted (map fst m)" "sorted (map fst m')" "distinct (map fst m)" "distinct (map fst m')"
    using wf by (auto simp: strict_sorted_iff)
  have "inj_on fst (set m \<union> set m')" using same sorted(3) by (simp add: distinct_map)
  then show "m = m'" by (rule map_sorted_distinct_set_unique) (use sorted same in simp_all)
qed

lemma bt_wf_of_list: "bt_wf (bt_of_list xs)"
proof -
  have "bt_wf m \<Longrightarrow> bt_wf (fold (\<lambda>(k, v). bt_insert k v) xs m)" for m
    by (induction xs arbitrary: m) (auto simp: bt_wf_insert)
  then show ?thesis by (simp add: bt_of_list_def)
qed

lemma lookup_bt_of_list: "map_of (bt_of_list xs) = map_of (rev xs)"
proof -
  have "bt_wf m \<Longrightarrow> map_of (fold (\<lambda>(k, v). bt_insert k v) xs m) = map_of m ++ map_of (rev xs)" for m
  proof (induction xs arbitrary: m)
    case (Cons kv xs)
    obtain k v where kv: "kv = (k, v)" by (rule prod.exhaust)
    from Cons.IH [OF bt_wf_insert [OF Cons.prems], of k v] Cons.prems show ?case
      by (simp add: kv lookup_bt_insert map_add_def fun_eq_iff split: option.split)
  qed simp
  then show ?thesis by (simp add: bt_of_list_def)
qed

end
