(* ===== verification/Vector_Clock.thy ===== *)
theory Vector_Clock
  imports Wire_Types Ordered_Map
begin

text \<open>
  The vector clocks of \<open>lib.rs\<close> (\<open>VectorClock\<close>): a \<open>BTreeMap\<close> from node ids to counters behind an
  \<open>ArcSwap\<close>.  Each mutation is a compare-and-swap loop, which takes effect as one step.
\<close>

section \<open>Operations\<close>

datatype ClockOrdering = CO_Before | CO_After | CO_Equal | CO_Concurrent

type_synonym VectorClock = "(GossipNodeId \<times> u64) list"

definition vc_new :: VectorClock where "vc_new = []"

definition with_node :: "GossipNodeId \<Rightarrow> VectorClock" where "with_node node_id = bt_insert node_id 0 []"

definition vc_get :: "VectorClock \<Rightarrow> GossipNodeId \<Rightarrow> u64" where
  "vc_get clock node_id = (case bt_get node_id clock of None \<Rightarrow> 0 | Some v \<Rightarrow> v)"

definition vc_increment :: "GossipNodeId \<Rightarrow> VectorClock \<Rightarrow> VectorClock" where
  "vc_increment node_id clock = bt_insert node_id (sat_add_word (vc_get clock node_id) 1) clock"

definition vc_merge :: "VectorClock \<Rightarrow> VectorClock \<Rightarrow> VectorClock" where
  "vc_merge clock other =
     fold (\<lambda>(other_node, other_clock) clocks.
             bt_insert other_node (max (vc_get clocks other_node) other_clock) clocks) other clock"

definition vc_compare :: "VectorClock \<Rightarrow> VectorClock \<Rightarrow> ClockOrdering" where
  "vc_compare clock other =
     (let all_nodes = remdups (sort (map fst clock @ map fst other));
          flags = fold (\<lambda>node_id (self_greater, other_greater).
                    let self_clock = vc_get clock node_id; other_clock = vc_get other node_id in
                    if other_clock < self_clock then (True, other_greater)
                    else if self_clock < other_clock then (self_greater, True)
                    else (self_greater, other_greater)) all_nodes (False, False)
      in case flags of
           (True, False) \<Rightarrow> CO_After
         | (False, True) \<Rightarrow> CO_Before
         | (False, False) \<Rightarrow> CO_Equal
         | (True, True) \<Rightarrow> CO_Concurrent)"

definition gc_old_nodes :: "GossipNodeId set \<Rightarrow> VectorClock \<Rightarrow> VectorClock" where
  "gc_old_nodes active_nodes clock =
     (if clock = [] then clock else bt_retain (\<lambda>node_id _. node_id \<in> active_nodes) clock)"

definition vc_len :: "VectorClock \<Rightarrow> usize" where "vc_len clock = length clock"

definition vc_is_empty :: "VectorClock \<Rightarrow> bool" where "vc_is_empty clock \<longleftrightarrow> clock = []"

text \<open>\<open>sort_by_key\<close> with \<open>Reverse\<close> is the stable sort by descending counter.\<close>

definition vc_compact :: "usize \<Rightarrow> VectorClock \<Rightarrow> VectorClock" where
  "vc_compact max_size clock =
     (if length clock \<le> max_size then clock
      else bt_of_list (take max_size (sort_key (\<lambda>entry. 2 ^ 64 - unat (snd entry)) clock)))"

definition vc_to_vec :: "VectorClock \<Rightarrow> (GossipNodeId \<times> u64) list" where "vc_to_vec clock = clock"

definition vc_from_vec :: "(GossipNodeId \<times> u64) list \<Rightarrow> VectorClock" where
  "vc_from_vec vec = bt_of_list vec"

definition happens_before :: "VectorClock \<Rightarrow> VectorClock \<Rightarrow> bool" where
  "happens_before clock other \<longleftrightarrow> vc_compare clock other = CO_Before"

definition happens_after :: "VectorClock \<Rightarrow> VectorClock \<Rightarrow> bool" where
  "happens_after clock other \<longleftrightarrow> vc_compare clock other = CO_After"

definition is_concurrent :: "VectorClock \<Rightarrow> VectorClock \<Rightarrow> bool" where
  "is_concurrent clock other \<longleftrightarrow> vc_compare clock other = CO_Concurrent"

definition get_nodes :: "VectorClock \<Rightarrow> GossipNodeId set" where "get_nodes clock = set (map fst clock)"

definition is_effectively_empty :: "VectorClock \<Rightarrow> bool" where
  "is_effectively_empty clock \<longleftrightarrow> list_all (\<lambda>(_, v). v = 0) clock"

definition vc_eq :: "VectorClock \<Rightarrow> VectorClock \<Rightarrow> bool" where
  "vc_eq clock other \<longleftrightarrow> vc_compare clock other = CO_Equal"

text \<open>What \<open>Hash\<close> feeds to the hasher, in order.\<close>

definition vc_hash_input :: "VectorClock \<Rightarrow> (byte list + u64) list" where
  "vc_hash_input clock = concat (map (\<lambda>(node_id, c). [Inl (key_bytes node_id), Inr c]) (vc_to_vec clock))"

section \<open>Order and joins\<close>

text \<open>Merging as a join, whatever the elements are: the order in which a collection is merged, and
  repetitions in it, do not matter.\<close>

locale joins =
  fixes valid :: "'a \<Rightarrow> bool" and le :: "'a \<Rightarrow> 'a \<Rightarrow> bool" and join :: "'a \<Rightarrow> 'a \<Rightarrow> 'a"
  assumes refl: "le a a"
    and trans: "le a b \<Longrightarrow> le b c \<Longrightarrow> le a c"
    and join_valid: "valid a \<Longrightarrow> valid b \<Longrightarrow> valid (join a b)"
    and join_le: "valid a \<Longrightarrow> valid b \<Longrightarrow> le (join a b) c \<longleftrightarrow> le a c \<and> le b c"
begin

lemma upper: "valid a \<Longrightarrow> valid b \<Longrightarrow> le a (join a b) \<and> le b (join a b)"
  using join_le refl by blast

lemma fold_join_le:
  "valid c \<Longrightarrow> \<forall>x \<in> set xs. valid x \<Longrightarrow>
   le (fold (\<lambda>x c. join c x) xs c) d \<longleftrightarrow> le c d \<and> (\<forall>x \<in> set xs. le x d)"
  by (induction xs arbitrary: c) (auto simp: join_valid join_le)

lemma fold_join_set:
  assumes "valid c" "\<forall>x \<in> set xs. valid x" "set xs = set ys"
  shows "le (fold (\<lambda>x c. join c x) xs c) (fold (\<lambda>x c. join c x) ys c)"
proof -
  let ?d = "fold (\<lambda>x c. join c x) ys c"
  have "\<forall>x \<in> set ys. valid x" using assms(2,3) by simp
  from fold_join_le [OF assms(1) this, of ?d] have "le c ?d" "\<forall>x \<in> set ys. le x ?d" by (simp_all add: refl)
  with assms show ?thesis by (simp add: fold_join_le)
qed

lemma join_commute: "valid a \<Longrightarrow> valid b \<Longrightarrow> le (join a b) (join b a)"
  using join_le upper by blast

lemma join_assoc:
  "valid a \<Longrightarrow> valid b \<Longrightarrow> valid c \<Longrightarrow> le (join (join a b) c) (join a (join b c)) \<and> le (join a (join b c)) (join (join a b) c)"
proof -
  assume v: "valid a" "valid b" "valid c"
  have "le a d \<and> le b d \<and> le c d" if "d = join a (join b c) \<or> d = join (join a b) c" for d
    using that refl [of "join a (join b c)"] refl [of "join (join a b) c"] v by (auto simp: join_le join_valid)
  with v show ?thesis by (simp add: join_le join_valid)
qed

lemma join_idem: "valid a \<Longrightarrow> le (join a a) a"
  using join_le refl by blast

end

definition vc_le :: "VectorClock \<Rightarrow> VectorClock \<Rightarrow> bool" where
  "vc_le a b \<longleftrightarrow> (\<forall>n. vc_get a n \<le> vc_get b n)"

lemma vc_get_insert: "bt_wf c \<Longrightarrow> vc_get (bt_insert n v c) m = (if m = n then v else vc_get c m)"
  by (simp add: vc_get_def bt_get_def lookup_bt_insert)

lemma vc_get_absent: "n \<notin> fst ` set c \<Longrightarrow> vc_get c n = 0"
  by (simp add: vc_get_def bt_get_def iffD2 [OF map_of_eq_None_iff])

lemma vc_merge_props:
  assumes "bt_wf a" "keys_distinct b"
  shows "bt_wf (vc_merge a b)" "vc_get (vc_merge a b) n = max (vc_get a n) (vc_get b n)"
proof -
  have "bt_wf (vc_merge a b) \<and> (\<forall>n. vc_get (vc_merge a b) n = max (vc_get a n) (vc_get b n))"
    using assms
  proof (induction b arbitrary: a)
    case Nil
    then show ?case by (simp add: vc_merge_def vc_get_absent max_absorb1)
  next
    case (Cons nv b)
    obtain n v where nv: "nv = (n, v)" by (rule prod.exhaust)
    let ?a = "bt_insert n (max (vc_get a n) v) a"
    have wf: "bt_wf ?a" by (rule bt_wf_insert [OF Cons.prems(1)])
    have absent: "vc_get b n = 0" using Cons.prems(2) by (intro vc_get_absent) (simp add: nv)
    have eq: "vc_merge a (nv # b) = vc_merge ?a b" by (simp add: vc_merge_def nv)
    have "vc_get (nv # b) m = (if m = n then v else vc_get b m)" for m
      by (simp add: vc_get_def bt_get_def nv)
    with Cons.IH [OF wf] Cons.prems absent show ?case
      unfolding eq by (auto simp: vc_get_insert nv max_def)
  qed
  then show "bt_wf (vc_merge a b)" "vc_get (vc_merge a b) n = max (vc_get a n) (vc_get b n)" by simp_all
qed

interpretation vc: joins bt_wf vc_le vc_merge
proof
  show "vc_le a a" for a by (simp add: vc_le_def)
  show "vc_le a b \<Longrightarrow> vc_le b c \<Longrightarrow> vc_le a c" for a b c
    unfolding vc_le_def using order_trans by blast
  show "bt_wf a \<Longrightarrow> bt_wf b \<Longrightarrow> bt_wf (vc_merge a b)" for a b :: VectorClock
    by (simp add: vc_merge_props(1) bt_wf_distinct)
  show "bt_wf a \<Longrightarrow> bt_wf b \<Longrightarrow> vc_le (vc_merge a b) c \<longleftrightarrow> vc_le a c \<and> vc_le b c" for a b c :: VectorClock
    by (auto simp: vc_le_def vc_merge_props(2) bt_wf_distinct)
qed

section \<open>Comparison\<close>

lemma compare_flags:
  "fold (\<lambda>n (sg, og). let s = f n; t = g n in if t < s then (True, og) else if s < t then (sg, True) else (sg, og))
     ns (sg, og) = (sg \<or> (\<exists>n \<in> set ns. g n < f n), og \<or> (\<exists>n \<in> set ns. f n < g n))"
  for f g :: "GossipNodeId \<Rightarrow> u64"
  by (induction ns arbitrary: sg og) (auto simp: Let_def)

lemma outside_nodes:
  "(\<exists>n \<in> set (remdups (sort (map fst a @ map fst b))). vc_get a n < vc_get b n) \<longleftrightarrow> (\<exists>n. vc_get a n < vc_get b n)"
proof -
  have "n \<in> fst ` set a \<union> fst ` set b" if "vc_get a n < vc_get b n" for n
    using that vc_get_absent [of n a] vc_get_absent [of n b] by auto
  moreover have "set (remdups (sort (map fst a @ map fst b))) = fst ` set a \<union> fst ` set b" by (simp add: image_Un)
  ultimately show ?thesis by blast
qed

lemma vc_le_iff: "vc_le a b \<longleftrightarrow> \<not> (\<exists>n. vc_get b n < vc_get a n)"
  by (auto simp: vc_le_def not_less)

lemma vc_compare_eq:
  "vc_compare a b = (if vc_le a b then if vc_le b a then CO_Equal else CO_Before
     else if vc_le b a then CO_After else CO_Concurrent)"
proof -
  have sym: "set (remdups (sort (map fst a @ map fst b))) = set (remdups (sort (map fst b @ map fst a)))" by auto
  show ?thesis
    unfolding vc_compare_def Let_def compare_flags [unfolded Let_def] outside_nodes
      outside_nodes [of b a, folded sym] vc_le_iff
    by (simp split: bool.split)
qed

lemma vc_eq_iff: "vc_eq a b \<longleftrightarrow> vc_le a b \<and> vc_le b a"
  by (simp add: vc_eq_def vc_compare_eq)

section \<open>Properties\<close>

text \<open>C19. The comparison of two clocks is exactly the causal comparison of the counters of all
  nodes, absent ones counting as zero: no counter is behind, only one side is ahead somewhere, or
  each is ahead somewhere.\<close>

theorem compare_is_causal_order:
  "vc_compare a b =
     (if (\<forall>n. vc_get a n = vc_get b n) then CO_Equal
      else if (\<forall>n. vc_get a n \<le> vc_get b n) then CO_Before
      else if (\<forall>n. vc_get b n \<le> vc_get a n) then CO_After
      else CO_Concurrent)"
proof -
  have "(\<forall>n. vc_get a n = vc_get b n) \<longleftrightarrow> vc_le a b \<and> vc_le b a"
    by (auto simp: vc_le_def intro: order.antisym)
  then show ?thesis by (simp add: vc_compare_eq vc_le_def)
qed

text \<open>C20. Merging converges: merging the same clocks into a clock in any order, with any repetitions,
  gives equal clocks, and the result is the least clock at or after all of them.\<close>

theorem merge_converges:
  assumes "bt_wf c" "\<forall>x \<in> set xs. bt_wf x" "set xs = set ys"
  shows "vc_eq (fold (\<lambda>x c. vc_merge c x) xs c) (fold (\<lambda>x c. vc_merge c x) ys c) \<and>
    (\<forall>d. vc_le (fold (\<lambda>x c. vc_merge c x) xs c) d \<longleftrightarrow> vc_le c d \<and> (\<forall>x \<in> set xs. vc_le x d))"
proof -
  have "\<forall>x \<in> set ys. bt_wf x" using assms(2,3) by simp
  from vc.fold_join_set [OF assms] vc.fold_join_set [OF assms(1) this assms(3) [symmetric]]
    vc.fold_join_le [OF assms(1,2)]
  show ?thesis unfolding vc_eq_iff by blast
qed

theorem merge_converges_witness:
  "let a = [(PublicKey [1], 3)]; b = [(PublicKey [1], 1), (PublicKey [2], 5)] in
     vc_eq (fold (\<lambda>x c. vc_merge c x) [a, b, a] vc_new) (fold (\<lambda>x c. vc_merge c x) [b, a] vc_new)"
  using merge_converges [of vc_new "[[(PublicKey [1], 3)], [(PublicKey [1], 1), (PublicKey [2], 5)], [(PublicKey [1], 3)]]"
      "[[(PublicKey [1], 1), (PublicKey [2], 5)], [(PublicKey [1], 3)]]"]
  by (simp add: vc_new_def less_PublicKey_def insert_commute)

text \<open>An event moves its node's clock strictly forward: the incremented clock is after the old
  one, unless the node's counter is already at its maximum, where it stays equal.\<close>

theorem increment_moves_forward:
  assumes "bt_wf c"
  shows "vc_compare (vc_increment n c) c = (if vc_get c n = - 1 then CO_Equal else CO_After)"
proof -
  have get: "vc_get (vc_increment n c) m = (if m = n then sat_add_word (vc_get c n) 1 else vc_get c m)" for m
    using assms by (simp add: vc_increment_def vc_get_insert)
  have "vc_get c n < sat_add_word (vc_get c n) 1" if "vc_get c n \<noteq> - 1"
  proof -
    have "unat (vc_get c n) \<noteq> unat (- 1 :: u64)" using that by (metis word_unat_eq_iff)
    moreover have "unat (vc_get c n) < 2 ^ 64" using unsigned_less [of "vc_get c n"] by simp
    ultimately show ?thesis
      by (simp add: word_less_nat_alt unat_sat_add_word unat_max_word min_def)
  qed
  moreover have "sat_add_word (- 1 :: u64) 1 = - 1" by (simp add: sat_add_word_def unat_max_word)
  ultimately show ?thesis
    using sat_add_word_ge [of "vc_get c n" 1]
    by (cases "vc_get c n = - 1") (auto simp: vc_compare_eq vc_le_def get not_le)
qed

theorem increment_moves_forward_witness:
  "vc_compare (vc_increment (PublicKey [7]) [(PublicKey [7], 41)]) [(PublicKey [7], 41)] = CO_After"
  using increment_moves_forward [of "[(PublicKey [7], 41)]" "PublicKey [7]"]
  by (simp add: vc_get_def bt_get_def)

lemma vc_hash_input_inject: "vc_hash_input a = vc_hash_input b \<longleftrightarrow> a = b"
proof
  have "concat (map (\<lambda>(n, c). [Inl (key_bytes n), Inr c]) a) = concat (map (\<lambda>(n, c). [Inl (key_bytes n), Inr c]) b) \<Longrightarrow> a = b"
    for a b :: VectorClock
  proof (induction a arbitrary: b)
    case Nil
    then show ?case by (cases b) auto
  next
    case (Cons x a)
    then show ?case by (cases x; cases b) (auto intro: PublicKey.expand)
  qed
  then show "vc_hash_input a = vc_hash_input b \<Longrightarrow> a = b" by (simp add: vc_hash_input_def vc_to_vec_def)
qed simp

lemma vc_eq_same_nodes:
  assumes "bt_wf a" "bt_wf b" "vc_eq a b" "get_nodes a = get_nodes b"
  shows "a = b"
proof (rule bt_wf_ext)
  have get: "vc_get a n = vc_get b n" for n
    using assms(3) by (auto simp: vc_eq_iff vc_le_def intro: antisym)
  have dom: "map_of a n = None \<longleftrightarrow> map_of b n = None" for n
    using assms(4) by (simp add: get_nodes_def map_of_eq_None_iff)
  show "map_of a = map_of b"
  proof
    fix n
    show "map_of a n = map_of b n"
      using get [of n] dom [of n] by (cases "map_of a n"; cases "map_of b n") (auto simp: vc_get_def bt_get_def)
  qed
qed (use assms in simp_all)

text \<open>
  C21. Two equal clocks hash alike exactly if they have entries for the same nodes; and merging
  the initial clock of a node into a clock gives an equal clock that hashes differently unless
  the clock has an entry for the node. Equality reads a missing entry as zero, the hash does not.
\<close>

theorem equal_clocks_hash_differently:
  assumes "bt_wf a" "bt_wf b" "vc_eq a b"
  shows "(vc_hash_input a = vc_hash_input b \<longleftrightarrow> get_nodes a = get_nodes b)
    \<and> vc_eq (vc_merge a (with_node n)) a
    \<and> (vc_hash_input (vc_merge a (with_node n)) = vc_hash_input a \<longleftrightarrow> n \<in> get_nodes a)"
proof -
  have merge: "vc_merge a (with_node n) = bt_insert n (vc_get a n) a"
    by (simp add: vc_merge_def with_node_def)
  have wf: "bt_wf (vc_merge a (with_node n))" using assms(1) by (simp add: merge bt_wf_insert)
  have eq: "vc_eq (vc_merge a (with_node n)) a"
    by (simp add: vc_eq_iff vc_le_def merge vc_get_insert [OF assms(1)])
  have "get_nodes c = dom (map_of c)" for c by (simp add: get_nodes_def dom_map_of_conv_image_fst)
  then have "get_nodes (vc_merge a (with_node n)) = insert n (get_nodes a)"
    using assms(1) by (auto simp: merge lookup_bt_insert)
  then show ?thesis
    using vc_eq_same_nodes [OF assms] vc_eq_same_nodes [OF wf assms(1) eq] eq
    by (auto simp: vc_hash_input_inject insert_absorb)
qed

theorem equal_clocks_hash_differently_witness:
  "vc_eq [(PublicKey [7], 0)] [] \<and> vc_hash_input [(PublicKey [7], 0)] \<noteq> vc_hash_input []
   \<and> vc_hash_input (vc_merge [(PublicKey [7], 0)] (with_node (PublicKey [8]))) \<noteq> vc_hash_input [(PublicKey [7], 0)]"
proof -
  have "vc_eq [(PublicKey [7], 0)] []" by (simp add: vc_eq_iff vc_le_def vc_get_def bt_get_def)
  then show ?thesis
    using equal_clocks_hash_differently [of "[(PublicKey [7], 0)]" "[]" "PublicKey [8]"] by (simp add: get_nodes_def)
qed

text \<open>Serialisation round trip: a clock read back from its entry list is the clock itself, and
  reading any entry list gives a well-formed clock.\<close>

theorem clock_vec_roundtrip:
  "bt_wf (vc_from_vec v) \<and> (bt_wf c \<longrightarrow> vc_from_vec (vc_to_vec c) = c)"
proof -
  have "vc_from_vec c = c" if "bt_wf c" for c
  proof (rule bt_wf_ext)
    show "map_of (vc_from_vec c) = map_of c"
      using bt_wf_distinct [OF that] by (simp add: vc_from_vec_def lookup_bt_of_list map_of_inject_set rev_map [symmetric])
  qed (simp_all add: that vc_from_vec_def bt_wf_of_list)
  then show ?thesis by (simp add: vc_from_vec_def vc_to_vec_def bt_wf_of_list)
qed

theorem clock_vec_roundtrip_witness:
  "vc_from_vec (vc_to_vec [(PublicKey [1], 4), (PublicKey [2], 9)]) = [(PublicKey [1], 4), (PublicKey [2], 9)]"
  using clock_vec_roundtrip [of "[]" "[(PublicKey [1], 4), (PublicKey [2], 9)]"] by (simp add: less_PublicKey_def)

end
