(* ===== verification/Gossip_State.thy ===== *)
theory Gossip_State
  imports Peer_Info Vector_Clock Framing "HOL-Library.Option_ord"
begin

text \<open>
  The records of the actor directory (\<^verbatim>\<open>src/remote_actor_location.rs\<close>, \<^verbatim>\<open>src/priority.rs\<close>) and
  \<open>GossipState\<close> of \<^verbatim>\<open>src/registry.rs\<close>: the watermarks that order ownership projections, the
  admission accounting of remote actors, and the migration of a peer's entry.

  A hash map that is iterated or counted is an association list, one that is only looked up is a
  map. A string is a list of bytes (\<open>char\<close>). SHA-256 and the validity of key bytes are arguments.
\<close>

subsection \<open>Priorities and locations\<close>

datatype RegistrationPriority = Normal | Immediate

fun should_trigger_immediate_gossip :: "RegistrationPriority \<Rightarrow> bool" where
  "should_trigger_immediate_gossip Normal = False"
| "should_trigger_immediate_gossip Immediate = True"

fun is_critical :: "RegistrationPriority \<Rightarrow> bool" where
  "is_critical Normal = False"
| "is_critical Immediate = True"

fun immediate_retry_count :: "RegistrationPriority \<Rightarrow> usize" where
  "immediate_retry_count Normal = 0"
| "immediate_retry_count Immediate = 3"

record RemoteActorLocation =
  address :: string
  loc_peer_id :: PeerId
  loc_node_id :: GossipNodeId
  loc_clock :: VectorClock
  wall_clock_time :: u64
  loc_priority :: RegistrationPriority
  local_registration_time :: u128
  metadata :: "byte list"

text \<open>The derived equality, which compares clocks causally.\<close>

definition location_eq :: "RemoteActorLocation \<Rightarrow> RemoteActorLocation \<Rightarrow> bool" where
  "location_eq a b \<longleftrightarrow> address a = address b \<and> loc_peer_id a = loc_peer_id b
     \<and> loc_node_id a = loc_node_id b \<and> vc_eq (loc_clock a) (loc_clock b)
     \<and> wall_clock_time a = wall_clock_time b \<and> loc_priority a = loc_priority b
     \<and> local_registration_time a = local_registration_time b \<and> metadata a = metadata b"

text \<open>Both conversions end in \<open>expect\<close>: \<open>None\<close> is the panic.\<close>

definition generate_fallback_node_id ::
  "(byte list \<Rightarrow> bool) \<Rightarrow> (PeerId \<Rightarrow> byte list) \<Rightarrow> PeerId \<Rightarrow> GossipNodeId option" where
  "generate_fallback_node_id valid_key sha256 peer_id =
     expect (PublicKey_from_bytes valid_key (take 32 (sha256 peer_id)))"

definition derive_node_id ::
  "(byte list \<Rightarrow> bool) \<Rightarrow> (PeerId \<Rightarrow> byte list) \<Rightarrow> PeerId \<Rightarrow> GossipNodeId option" where
  "derive_node_id valid_key sha256 peer_id =
     (case PublicKey_from_bytes valid_key (peer_bytes peer_id) of
        Inr key \<Rightarrow> Some key
      | Inl _ \<Rightarrow> generate_fallback_node_id valid_key sha256 peer_id)"

definition new_with_metadata ::
  "(byte list \<Rightarrow> bool) \<Rightarrow> (PeerId \<Rightarrow> byte list) \<Rightarrow> addr_text \<Rightarrow> u64 \<Rightarrow> u64 \<Rightarrow> SocketAddr \<Rightarrow> PeerId
   \<Rightarrow> byte list \<Rightarrow> RemoteActorLocation option" where
  "new_with_metadata valid_key sha256 txt now now_nanos addr peer_id meta =
     map_option (\<lambda>node_id.
       \<lparr>address = addr_show txt addr, loc_peer_id = peer_id, loc_node_id = node_id,
        loc_clock = with_node node_id, wall_clock_time = now, loc_priority = Normal,
        local_registration_time = ucast now_nanos, metadata = meta\<rparr>)
       (derive_node_id valid_key sha256 peer_id)"

definition new_with_peer ::
  "(byte list \<Rightarrow> bool) \<Rightarrow> (PeerId \<Rightarrow> byte list) \<Rightarrow> addr_text \<Rightarrow> u64 \<Rightarrow> u64 \<Rightarrow> SocketAddr \<Rightarrow> PeerId
   \<Rightarrow> RemoteActorLocation option" where
  "new_with_peer valid_key sha256 txt now now_nanos addr peer_id =
     new_with_metadata valid_key sha256 txt now now_nanos addr peer_id []"

definition loc_socket_addr :: "addr_text \<Rightarrow> RemoteActorLocation \<Rightarrow> SocketAddr option" where
  "loc_socket_addr txt location = addr_parse txt (address location)"

datatype RegistryChange =
    ActorAdded string RemoteActorLocation RegistrationPriority
  | ActorRemoved string VectorClock GossipNodeId RegistrationPriority

record RegistryDelta =
  since_sequence :: u64
  current_sequence :: u64
  delta_changes :: "RegistryChange list"
  delta_sender_peer_id :: PeerId
  delta_wall_clock_time :: u64
  precise_timing_nanos :: u64

record HistoricalDelta =
  hist_sequence :: u64
  hist_changes :: "RegistryChange list"
  recorded_at :: Instant

subsection \<open>Gossip state\<close>

type_synonym CommitSeq = nat

record GossipState =
  gossip_sequence :: u64
  pending_changes :: "RegistryChange list"
  urgent_changes :: "RegistryChange list"
  delta_history :: "HistoricalDelta list"
  peers :: "(SocketAddr \<times> PeerInfo) list"
  peer_to_actors :: "SocketAddr \<rightharpoonup> string set"
  actor_admissions_by_peer :: "PeerId \<rightharpoonup> string set"
  actor_admission_peer_by_name :: "string \<rightharpoonup> PeerId"
  compact_admission_bytes :: usize
  compact_charge_by_name :: "(string \<times> usize) list"
  ownership_commit_seq :: "(SocketAddr \<times> CommitSeq) list"
  ownership_pruned_through :: CommitSeq

definition OWNERSHIP_WATERMARK_CAPACITY :: usize where "OWNERSHIP_WATERMARK_CAPACITY = 8192"
definition OWNERSHIP_WATERMARK_TARGET :: usize where "OWNERSHIP_WATERMARK_TARGET = 6144"

definition session_epoch_still_current :: "GossipState \<Rightarrow> SocketAddr \<Rightarrow> u64 \<Rightarrow> bool" where
  "session_epoch_still_current s peer_addr expected_epoch =
     (case map_of (peers s) peer_addr of
        None \<Rightarrow> False
      | Some info \<Rightarrow> current_session_epoch info = expected_epoch)"

subsubsection \<open>Moving a peer's entry\<close>

text \<open>What the entry that moves keeps of the one already at the new address.\<close>

definition merge_peer_entry :: "PeerInfo \<Rightarrow> PeerInfo \<Rightarrow> PeerInfo" where
  "merge_peer_entry moved existing =
     (if \<not> (pi_node_id moved \<noteq> None \<and> pi_node_id moved = pi_node_id existing) then moved
      else
        let m1 = moved\<lparr>last_sequence := max (last_sequence moved) (last_sequence existing),
                       last_sent_sequence := max (last_sent_sequence moved) (last_sent_sequence existing)\<rparr>;
            m2 = (if current_session_epoch m1 < current_session_epoch existing
                  then m1\<lparr>current_session_source := current_session_source existing,
                          current_session_connection := current_session_connection existing,
                          current_session_epoch := current_session_epoch existing,
                          accept_lower_sequence_from := accept_lower_sequence_from existing,
                          pi_peer_address := pi_peer_address existing\<rparr>
                  else m1);
            m3 = m2\<lparr>inbound_observed := inbound_observed m2 \<or> inbound_observed existing,
                    outbound_dial_success := outbound_dial_success m2 \<or> outbound_dial_success existing,
                    identity_verified := identity_verified m2 \<or> identity_verified existing,
                    dns_name := (case dns_name m2 of None \<Rightarrow> dns_name existing | Some n \<Rightarrow> Some n),
                    last_dns_refresh_attempt :=
                      max (last_dns_refresh_attempt m2) (last_dns_refresh_attempt existing),
                    last_response_received_ms :=
                      max (last_response_received_ms m2) (last_response_received_ms existing),
                    consecutive_deltas := max (consecutive_deltas m2) (consecutive_deltas existing)\<rparr>;
            m4 = (if last_attempt m3 < last_attempt existing
                  then m3\<lparr>failures := failures existing, last_failure_time := last_failure_time existing,
                          last_failure_instant := last_failure_instant existing\<rparr>
                  else m3)
        in m4\<lparr>last_attempt := max (last_attempt m4) (last_attempt existing),
              last_success := max (last_success m4) (last_success existing)\<rparr>)"

definition migrate_peer_entry :: "SocketAddr \<Rightarrow> SocketAddr \<Rightarrow> GossipState \<Rightarrow> GossipState" where
  "migrate_peer_entry old_addr new_addr s =
     (case map_of (peers s) old_addr of
        None \<Rightarrow> s
      | Some info \<Rightarrow>
          let rest = AList.delete old_addr (peers s);
              moved = info\<lparr>pi_address := new_addr, pi_peer_address := Some old_addr,
                           transport_source_keyed := False\<rparr>
          in s\<lparr>peers := AList.update new_addr
                 (case map_of rest new_addr of
                    Some existing \<Rightarrow> merge_peer_entry moved existing
                  | None \<Rightarrow> moved) rest\<rparr>)"

subsubsection \<open>Watermarks of ownership projections\<close>

definition ownership_projection_can_admit :: "GossipState \<Rightarrow> SocketAddr \<Rightarrow> CommitSeq \<Rightarrow> bool" where
  "ownership_projection_can_admit s peer_addr commit_seq =
     (case map_of (ownership_commit_seq s) peer_addr of
        Some newest \<Rightarrow> newest \<le> commit_seq
      | None \<Rightarrow> ownership_pruned_through s < commit_seq)"

text \<open>
  \<open>select_nth_unstable_by_key\<close> followed by \<open>truncate\<close> keeps the \<open>excess\<close> oldest tombstones; among
  equal positions the order of the list decides.
\<close>

definition prune_ownership_watermarks :: "SocketAddr list \<Rightarrow> GossipState \<Rightarrow> GossipState" where
  "prune_ownership_watermarks keep_addrs s =
     (if length (ownership_commit_seq s) \<le> OWNERSHIP_WATERMARK_CAPACITY then s
      else
        let tombstones = filter (\<lambda>(addr, _). map_of (peers s) addr = None \<and> addr \<notin> set keep_addrs)
                           (ownership_commit_seq s);
            excess = length (ownership_commit_seq s) - OWNERSHIP_WATERMARK_TARGET;
            dropped = (if excess < length tombstones
                       then take excess (sort_key snd tombstones) else tombstones)
        in fold (\<lambda>(addr, commit_seq) s.
                   s\<lparr>ownership_commit_seq := AList.delete addr (ownership_commit_seq s),
                     ownership_pruned_through := max (ownership_pruned_through s) commit_seq\<rparr>)
             dropped s)"

definition admit_ownership_projection :: "SocketAddr \<Rightarrow> CommitSeq \<Rightarrow> GossipState \<Rightarrow> bool \<times> GossipState" where
  "admit_ownership_projection peer_addr commit_seq s =
     (if \<not> ownership_projection_can_admit s peer_addr commit_seq then (False, s)
      else (True, prune_ownership_watermarks [peer_addr]
              (s\<lparr>ownership_commit_seq := AList.update peer_addr commit_seq (ownership_commit_seq s)\<rparr>)))"

definition admit_ownership_migration_projection ::
  "SocketAddr \<Rightarrow> SocketAddr \<Rightarrow> CommitSeq \<Rightarrow> GossipState \<Rightarrow> bool \<times> GossipState" where
  "admit_ownership_migration_projection from to commit_seq s =
     (if \<not> ownership_projection_can_admit s from commit_seq
         \<or> \<not> ownership_projection_can_admit s to commit_seq then (False, s)
      else (True, prune_ownership_watermarks [from, to]
              (s\<lparr>ownership_commit_seq :=
                   AList.update to commit_seq (AList.update from commit_seq (ownership_commit_seq s))\<rparr>)))"

definition tombstone_ownership_projection :: "SocketAddr \<Rightarrow> CommitSeq \<Rightarrow> GossipState \<Rightarrow> GossipState" where
  "tombstone_ownership_projection peer_addr commit_seq s =
     (let floor = (case map_of (ownership_commit_seq s) peer_addr of None \<Rightarrow> 0 | Some n \<Rightarrow> n)
      in prune_ownership_watermarks []
           (s\<lparr>ownership_commit_seq :=
                AList.update peer_addr (max floor commit_seq) (ownership_commit_seq s)\<rparr>))"

definition ownership_watermark :: "GossipState \<Rightarrow> SocketAddr \<Rightarrow> CommitSeq option" where
  "ownership_watermark s peer_addr = map_of (ownership_commit_seq s) peer_addr"

subsubsection \<open>Admission of remote actors\<close>

definition actor_admission_count :: "GossipState \<Rightarrow> PeerId \<Rightarrow> usize" where
  "actor_admission_count s peer_id =
     (case actor_admissions_by_peer s peer_id of None \<Rightarrow> 0 | Some names \<Rightarrow> card names)"

text \<open>Taking a name out of a peer's set; an emptied set is removed.\<close>

definition drop_admission :: "PeerId \<Rightarrow> string \<Rightarrow> (PeerId \<rightharpoonup> string set) \<Rightarrow> (PeerId \<rightharpoonup> string set)" where
  "drop_admission peer_id name m =
     (case m peer_id of
        None \<Rightarrow> m
      | Some names \<Rightarrow>
          if names - {name} = {} then m(peer_id := None) else m(peer_id \<mapsto> names - {name}))"

definition record_actor_admission :: "PeerId \<Rightarrow> string \<Rightarrow> GossipState \<Rightarrow> GossipState" where
  "record_actor_admission peer_id name s =
     (let by_peer = (case actor_admission_peer_by_name s name of
                       Some previous \<Rightarrow>
                         if previous \<noteq> peer_id
                         then drop_admission previous name (actor_admissions_by_peer s)
                         else actor_admissions_by_peer s
                     | None \<Rightarrow> actor_admissions_by_peer s);
          names = (case by_peer peer_id of None \<Rightarrow> {} | Some names \<Rightarrow> names)
      in s\<lparr>actor_admission_peer_by_name := (actor_admission_peer_by_name s)(name \<mapsto> peer_id),
           actor_admissions_by_peer := by_peer(peer_id \<mapsto> insert name names)\<rparr>)"

definition compact_record_charge :: "string \<Rightarrow> RemoteActorLocation \<Rightarrow> usize" where
  "compact_record_charge name location =
     saturating_add (saturating_add (saturating_add (saturating_add (length name)
       (length (address location))) (length (metadata location)))
       (saturating_mul (vc_len (loc_clock location)) 48)) 64"

definition try_charge_compact_snapshot ::
  "string \<Rightarrow> RemoteActorLocation \<Rightarrow> usize \<Rightarrow> GossipState \<Rightarrow> bool result \<times> GossipState" where
  "try_charge_compact_snapshot name location max_message_size s =
     (let charge = compact_record_charge name location
      in case map_of (compact_charge_by_name s) name of
           Some old \<Rightarrow>
             (Inr False,
              if old \<noteq> charge
              then s\<lparr>compact_admission_bytes := saturating_add (compact_admission_bytes s - old) charge,
                     compact_charge_by_name := AList.update name charge (compact_charge_by_name s)\<rparr>
              else s)
         | None \<Rightarrow>
             let new_total = saturating_add (compact_admission_bytes s) charge
             in case reject_oversize_for_inline_send GOSSIP_HEADER_LEN new_total max_message_size of
                  Inl _ \<Rightarrow> (Inl (MessageTooLarge new_total max_message_size), s)
                | Inr _ \<Rightarrow>
                    (Inr True,
                     s\<lparr>compact_admission_bytes := new_total,
                       compact_charge_by_name := AList.update name charge (compact_charge_by_name s)\<rparr>))"

definition release_compact_snapshot :: "string \<Rightarrow> GossipState \<Rightarrow> GossipState" where
  "release_compact_snapshot name s =
     (case map_of (compact_charge_by_name s) name of
        None \<Rightarrow> s
      | Some charge \<Rightarrow>
          s\<lparr>compact_charge_by_name := AList.delete name (compact_charge_by_name s),
            compact_admission_bytes := compact_admission_bytes s - charge\<rparr>)"

definition release_actor_admission :: "string \<Rightarrow> GossipState \<Rightarrow> GossipState" where
  "release_actor_admission name s =
     (case actor_admission_peer_by_name s name of
        None \<Rightarrow> s
      | Some peer_id \<Rightarrow>
          release_compact_snapshot name
            (s\<lparr>actor_admission_peer_by_name := (actor_admission_peer_by_name s)(name := None),
               actor_admissions_by_peer := drop_admission peer_id name (actor_admissions_by_peer s)\<rparr>))"

end
