(* ===== verification/Actor_Directory.thy ===== *)
theory Actor_Directory
  imports Gossip_State "HOL-Library.Product_Lexorder"
begin

text \<open>
  The replicated actor directory of \<^verbatim>\<open>src/registry.rs\<close>: registering and unregistering local
  actors, applying deltas and full syncs of peers with vector clocks and tombstones, reaping the
  actors of dead peers, and expiry.

  The actor maps are concurrent maps without a lock; the tables of \<open>gossip_state\<close> have one. What
  an operation does while it holds that lock is one step of the model, and so is each access of
  an actor map outside it: registering, unregistering and expiry are therefore given as their
  sections, and the operation as the sections in turn. Between two sections of one operation
  those of others may run. The surroundings are arguments: the encoder of the crate
  \<^verbatim>\<open>rkyv\<close> (\<open>enc\<close>), the textual form of socket addresses (\<open>txt\<close>), the clock, and what the
  connection pool answers. Sets that are iterated in hash order are iterated in the order of their
  elements. The send that an urgent change triggers is the boolean in the result. Where the code
  calls \<open>expect\<close>, \<open>None\<close> is the panic.
\<close>

text \<open>Folding with a step that may panic.\<close>

primrec fold_opt :: "('a \<Rightarrow> 's \<Rightarrow> 's option) \<Rightarrow> 'a list \<Rightarrow> 's \<Rightarrow> 's option" where
  "fold_opt f [] s = Some s"
| "fold_opt f (x # xs) s = (case f x s of None \<Rightarrow> None | Some s' \<Rightarrow> fold_opt f xs s')"

subsection \<open>State\<close>

record GossipConfig =
  max_known_actors :: usize
  max_known_actors_per_peer :: usize
  max_message_size :: usize
  actor_ttl :: u64
  vector_clock_retention_period :: u64
  max_peer_failures :: usize
  max_delta_history :: usize
  full_sync_interval :: u64
  max_vector_clock_size :: usize
  small_cluster_threshold :: usize
  max_peers :: usize

datatype TombstoneKind = PeerDeath | ExplicitUnregister | Unknown

record RemovedActorTombstone =
  tomb_clock :: VectorClock
  removed_at :: u64
  tomb_kind :: TombstoneKind
  tomb_owner :: "GossipNodeId option"

record ActorState =
  local_actors :: "(string \<times> RemoteActorLocation) list"
  known_actors :: "(string \<times> RemoteActorLocation) list"
  removed_actors :: "(string \<times> RemovedActorTombstone) list"
  routing_revision :: u64
  pubsub_routing_revision :: u64

record GossipRegistry =
  reg_peer_id :: PeerId
  reg_config :: GossipConfig
  reg_shutdown :: bool
  session_epochs :: u64
  actor_state :: ActorState
  gossip_state :: GossipState

text \<open>
  \<open>self.peer_id.to_node_id()\<close>: the own identity is a valid key. \<open>session_epochs\<close> is the
  process-wide epoch counter.
\<close>

definition self_node_id :: "GossipRegistry \<Rightarrow> GossipNodeId" where
  "self_node_id r = PublicKey (peer_bytes (reg_peer_id r))"

abbreviation local_actor :: "GossipRegistry \<Rightarrow> string \<Rightarrow> RemoteActorLocation option" where
  "local_actor r \<equiv> map_of (local_actors (actor_state r))"

abbreviation known_actor :: "GossipRegistry \<Rightarrow> string \<Rightarrow> RemoteActorLocation option" where
  "known_actor r \<equiv> map_of (known_actors (actor_state r))"

abbreviation removed_actor :: "GossipRegistry \<Rightarrow> string \<Rightarrow> RemovedActorTombstone option" where
  "removed_actor r \<equiv> map_of (removed_actors (actor_state r))"

definition on_gossip :: "(GossipState \<Rightarrow> GossipState) \<Rightarrow> GossipRegistry \<Rightarrow> GossipRegistry" where
  "on_gossip f r = r\<lparr>gossip_state := f (gossip_state r)\<rparr>"

definition on_actors :: "(ActorState \<Rightarrow> ActorState) \<Rightarrow> GossipRegistry \<Rightarrow> GossipRegistry" where
  "on_actors f r = r\<lparr>actor_state := f (actor_state r)\<rparr>"

definition insert_local :: "string \<Rightarrow> RemoteActorLocation \<Rightarrow> GossipRegistry \<Rightarrow> GossipRegistry" where
  "insert_local name loc = on_actors (\<lambda>a. a\<lparr>local_actors := AList.update name loc (local_actors a)\<rparr>)"

definition remove_local :: "string \<Rightarrow> GossipRegistry \<Rightarrow> GossipRegistry" where
  "remove_local name = on_actors (\<lambda>a. a\<lparr>local_actors := AList.delete name (local_actors a)\<rparr>)"

definition upsert_known :: "string \<Rightarrow> RemoteActorLocation \<Rightarrow> GossipRegistry \<Rightarrow> GossipRegistry" where
  "upsert_known name loc = on_actors (\<lambda>a. a\<lparr>known_actors := AList.update name loc (known_actors a)\<rparr>)"

definition remove_known :: "string \<Rightarrow> GossipRegistry \<Rightarrow> GossipRegistry" where
  "remove_known name = on_actors (\<lambda>a. a\<lparr>known_actors := AList.delete name (known_actors a)\<rparr>)"

definition upsert_tombstone :: "string \<Rightarrow> RemovedActorTombstone \<Rightarrow> GossipRegistry \<Rightarrow> GossipRegistry" where
  "upsert_tombstone name t = on_actors (\<lambda>a. a\<lparr>removed_actors := AList.update name t (removed_actors a)\<rparr>)"

definition remove_tombstone_of :: "string \<Rightarrow> GossipRegistry \<Rightarrow> GossipRegistry" where
  "remove_tombstone_of name = on_actors (\<lambda>a. a\<lparr>removed_actors := AList.delete name (removed_actors a)\<rparr>)"

subsection \<open>Revisions of the routing state\<close>

definition INTEREST_PREFIX :: string where "INTEREST_PREFIX = ''icanact/pubsub/interest/v1''"

definition is_interest_actor_name :: "string \<Rightarrow> bool" where
  "is_interest_actor_name name \<longleftrightarrow>
     take (length INTEREST_PREFIX) name = INTEREST_PREFIX
     \<and> take 1 (drop (length INTEREST_PREFIX) name) = ''/''"

definition mark_routing_changed_with_pubsub :: "bool \<Rightarrow> GossipRegistry \<Rightarrow> GossipRegistry" where
  "mark_routing_changed_with_pubsub pubsub_changed =
     on_actors (\<lambda>a. a\<lparr>routing_revision := routing_revision a + 1,
                      pubsub_routing_revision :=
                        (if pubsub_changed then pubsub_routing_revision a + 1 else pubsub_routing_revision a)\<rparr>)"

definition mark_routing_changed_for_actor :: "string \<Rightarrow> GossipRegistry \<Rightarrow> GossipRegistry" where
  "mark_routing_changed_for_actor name = mark_routing_changed_with_pubsub (is_interest_actor_name name)"

subsection \<open>Conflict resolution\<close>

definition stable_concurrent_location_wins :: "RemoteActorLocation \<Rightarrow> RemoteActorLocation \<Rightarrow> bool" where
  "stable_concurrent_location_wins candidate existing =
     (if wall_clock_time existing < wall_clock_time candidate then True
      else if wall_clock_time candidate < wall_clock_time existing then False
      else if loc_node_id existing < loc_node_id candidate then True
      else if loc_node_id candidate < loc_node_id existing then False
      else if address existing < address candidate then True
      else if address candidate < address existing then False
      else if metadata existing < metadata candidate then True
      else if metadata candidate < metadata existing then False
      else local_registration_time existing < local_registration_time candidate)"

text \<open>The order of \<open>Vec<(GossipNodeId, u64)>\<close>: entry by entry, then the shorter one first.\<close>

fun clock_vec_less :: "(GossipNodeId \<times> u64) list \<Rightarrow> (GossipNodeId \<times> u64) list \<Rightarrow> bool" where
  "clock_vec_less [] ys = (ys \<noteq> [])"
| "clock_vec_less (x # xs) [] = False"
| "clock_vec_less ((n, c) # xs) ((m, d) # ys) =
     (if n < m then True else if m < n then False
      else if c < d then True else if d < c then False
      else clock_vec_less xs ys)"

definition stable_concurrent_removal_wins ::
  "GossipNodeId \<Rightarrow> VectorClock \<Rightarrow> RemoteActorLocation \<Rightarrow> bool" where
  "stable_concurrent_removal_wins removing_node_id removal_clock existing =
     (if clock_vec_less (vc_to_vec (loc_clock existing)) (vc_to_vec removal_clock) then True
      else if clock_vec_less (vc_to_vec removal_clock) (vc_to_vec (loc_clock existing)) then False
      else loc_node_id existing < removing_node_id)"

definition owner_recovery_wins_tombstone ::
  "RemoteActorLocation \<Rightarrow> PeerId \<Rightarrow> RemovedActorTombstone \<Rightarrow> bool \<Rightarrow> bool" where
  "owner_recovery_wins_tombstone location sender_peer_id tombstone owner_restart_authenticated =
     (if loc_peer_id location \<noteq> sender_peer_id then False
      else
        let owner_clock = vc_get (loc_clock location) (loc_node_id location);
            tombstone_owner_clock = vc_get (tomb_clock tombstone) (loc_node_id location)
        in if tombstone_owner_clock < owner_clock then True
           else if owner_clock = tombstone_owner_clock then tomb_kind tombstone = PeerDeath
           else owner_restart_authenticated \<and> tomb_kind tombstone = PeerDeath)"

definition tombstone_kind_for_removal :: "GossipNodeId \<Rightarrow> GossipNodeId \<Rightarrow> TombstoneKind" where
  "tombstone_kind_for_removal owner_node_id removing_node_id =
     (if owner_node_id = removing_node_id then ExplicitUnregister else PeerDeath)"

definition merge_tombstone_kind :: "TombstoneKind option \<Rightarrow> TombstoneKind \<Rightarrow> TombstoneKind" where
  "merge_tombstone_kind existing new =
     (if existing = Some ExplicitUnregister \<or> new = ExplicitUnregister then ExplicitUnregister
      else if existing = Some PeerDeath \<or> new = PeerDeath then PeerDeath
      else Unknown)"

definition with_kind_and_owner ::
  "u64 \<Rightarrow> VectorClock \<Rightarrow> TombstoneKind \<Rightarrow> GossipNodeId option \<Rightarrow> RemovedActorTombstone" where
  "with_kind_and_owner now clock kind owner_node_id =
     \<lparr>tomb_clock = clock, removed_at = now, tomb_kind = kind, tomb_owner = owner_node_id\<rparr>"

definition new_with_owner :: "u64 \<Rightarrow> VectorClock \<Rightarrow> GossipNodeId \<Rightarrow> RemovedActorTombstone" where
  "new_with_owner now clock owner_node_id = with_kind_and_owner now clock PeerDeath (Some owner_node_id)"

definition new_explicit_unregister_by_owner ::
  "u64 \<Rightarrow> VectorClock \<Rightarrow> GossipNodeId \<Rightarrow> RemovedActorTombstone" where
  "new_explicit_unregister_by_owner now clock owner_node_id =
     with_kind_and_owner now clock ExplicitUnregister (Some owner_node_id)"

text \<open>\<open>None\<close>: the update is skipped; \<open>Some (clear_tombstone, is_update)\<close> otherwise.\<close>

definition current_actor_upsert_plan ::
  "GossipRegistry \<Rightarrow> string \<Rightarrow> RemoteActorLocation \<Rightarrow> PeerId \<Rightarrow> bool \<Rightarrow> (bool \<times> bool) option" where
  "current_actor_upsert_plan r name location sender_peer_id owner_restart_authenticated =
     (if loc_peer_id location = reg_peer_id r then None
      else if local_actor r name \<noteq> None then None
      else
        let tombstone_plan =
              (case removed_actor r name of
                 None \<Rightarrow> Some False
               | Some tombstone \<Rightarrow>
                   if vc_compare (loc_clock location) (tomb_clock tombstone) = CO_After then Some True
                   else if owner_recovery_wins_tombstone location sender_peer_id tombstone
                             owner_restart_authenticated then Some True
                   else None)
        in case tombstone_plan of
             None \<Rightarrow> None
           | Some clear_tombstone \<Rightarrow>
               (case known_actor r name of
                  None \<Rightarrow> Some (clear_tombstone, False)
                | Some existing \<Rightarrow>
                    (case vc_compare (loc_clock location) (loc_clock existing) of
                       CO_After \<Rightarrow> Some (clear_tombstone, True)
                     | CO_Before \<Rightarrow> None
                     | _ \<Rightarrow> if stable_concurrent_location_wins location existing
                           then Some (clear_tombstone, True) else None)))"

text \<open>\<open>None\<close>: the removal is skipped; \<open>Some (clock, tombstone_only)\<close> otherwise.\<close>

definition current_actor_removal_plan ::
  "GossipRegistry \<Rightarrow> string \<Rightarrow> VectorClock \<Rightarrow> GossipNodeId \<Rightarrow> (VectorClock \<times> bool) option" where
  "current_actor_removal_plan r name clock removing_node_id =
     (if local_actor r name \<noteq> None then None
      else case known_actor r name of
             Some existing \<Rightarrow>
               (case vc_compare clock (loc_clock existing) of
                  CO_After \<Rightarrow> Some (clock, False)
                | CO_Concurrent \<Rightarrow>
                    if stable_concurrent_removal_wins removing_node_id clock existing
                    then Some (clock, False) else None
                | _ \<Rightarrow> None)
           | None \<Rightarrow>
               (case removed_actor r name of
                  None \<Rightarrow> Some (clock, True)
                | Some tombstone \<Rightarrow>
                    (case vc_compare clock (tomb_clock tombstone) of
                       CO_Before \<Rightarrow> None
                     | CO_Equal \<Rightarrow> None
                     | CO_After \<Rightarrow> Some (clock, True)
                     | CO_Concurrent \<Rightarrow> Some (vc_merge clock (tomb_clock tombstone), True))))"

subsection \<open>Messages and their size\<close>

definition GOSSIP_MESSAGE_SIZE_SLACK :: usize where "GOSSIP_MESSAGE_SIZE_SLACK = 1024"

record ClockProbeV1 =
  probe_sample_id :: u64
  sender_wall_ns :: u64

record ClockEchoV1 =
  echo_sample_id :: u64
  origin_sender_wall_ns :: u64
  responder_recv_wall_ns :: u64
  responder_send_wall_ns :: u64

record GossipExtensionsV1 =
  clock_probe :: "ClockProbeV1 option"
  clock_echo :: "ClockEchoV1 option"

type_synonym actor_pairs = "(string \<times> RemoteActorLocation) list"

datatype RegistryMessage =
    DeltaGossip RegistryDelta "GossipExtensionsV1 option"
  | DeltaGossipResponse RegistryDelta "GossipExtensionsV1 option"
  | FullSyncRequest PeerId "string option" u64 u64
  | FullSync actor_pairs actor_pairs PeerId "string option" u64 u64 "GossipExtensionsV1 option"
  | FullSyncResponse actor_pairs actor_pairs PeerId "string option" u64 u64 "GossipExtensionsV1 option"
  | PeerListGossip "PeerInfoGossip list" u64 string

type_synonym encoder = "RegistryMessage \<Rightarrow> byte list result"

definition solo_change :: "GossipRegistry \<Rightarrow> string \<Rightarrow> RemoteActorLocation \<Rightarrow> RegistryMessage" where
  "solo_change r name location =
     DeltaGossip \<lparr>since_sequence = 0, current_sequence = 0,
       delta_changes = [ActorAdded name location (loc_priority location)],
       delta_sender_peer_id = reg_peer_id r, delta_wall_clock_time = 0, precise_timing_nanos = 0\<rparr> None"

text \<open>\<open>oversized_gossip_error\<close> takes the error of the check that has just failed.\<close>

definition ensure_solo_change_fits ::
  "encoder \<Rightarrow> GossipRegistry \<Rightarrow> string \<Rightarrow> RemoteActorLocation \<Rightarrow> unit result" where
  "ensure_solo_change_fits enc r name location =
     bind_res (enc (solo_change r name location)) (\<lambda>encoded.
       reject_oversize_for_inline_send GOSSIP_HEADER_LEN (length encoded) (max_message_size (reg_config r)))"

fun as_regular_gossip_change :: "RegistryChange \<Rightarrow> RegistryChange" where
  "as_regular_gossip_change (ActorAdded name location _) = ActorAdded name location Normal"
| "as_regular_gossip_change (ActorRemoved name clock removing_node_id _) =
     ActorRemoved name clock removing_node_id Normal"

text \<open>Queueing a change of the given priority.\<close>

definition enqueue_change :: "RegistryChange \<Rightarrow> RegistrationPriority \<Rightarrow> GossipState \<Rightarrow> GossipState" where
  "enqueue_change change prio s =
     (if should_trigger_immediate_gossip prio
      then s\<lparr>urgent_changes := urgent_changes s @ [change],
             pending_changes := pending_changes s @ [as_regular_gossip_change change]\<rparr>
      else s\<lparr>pending_changes := pending_changes s @ [change]\<rparr>)"

definition release_known :: "string \<Rightarrow> GossipRegistry \<Rightarrow> GossipRegistry" where
  "release_known name r = on_gossip (release_actor_admission name) (remove_known name r)"

subsection \<open>Local registration\<close>

text \<open>The record that is stored: it dominates the tombstone of an earlier removal.\<close>

definition registered_location ::
  "u64 \<Rightarrow> string \<Rightarrow> RemoteActorLocation \<Rightarrow> RegistrationPriority \<Rightarrow> GossipRegistry \<Rightarrow> RemoteActorLocation" where
  "registered_location now name location prio r =
     (let merged = (case removed_actor r name of
                      Some tombstone \<Rightarrow> vc_merge (loc_clock location) (tomb_clock tombstone)
                    | None \<Rightarrow> loc_clock location)
      in location\<lparr>wall_clock_time := now, loc_priority := prio,
                  loc_clock := vc_increment (loc_node_id location) merged\<rparr>)"

text \<open>
  The sections of a registration. A record of this very actor that peers have reflected back, or
  one with the same address, is dropped outside the lock, and its admission under it.
\<close>

definition forget_known :: "string \<Rightarrow> GossipRegistry \<Rightarrow> GossipRegistry" where
  "forget_known name r = mark_routing_changed_for_actor name (remove_known name r)"

definition release_admission :: "string \<Rightarrow> GossipRegistry \<Rightarrow> GossipRegistry" where
  "release_admission name = on_gossip (release_actor_admission name)"

definition register_reflected :: "string \<Rightarrow> RemoteActorLocation \<Rightarrow> GossipRegistry \<Rightarrow> bool" where
  "register_reflected name location r =
     (case known_actor r name of
        Some loc \<Rightarrow> loc_node_id loc = self_node_id r \<or> address loc = address location
      | None \<Rightarrow> False)"

definition register_prepare ::
  "encoder \<Rightarrow> u64 \<Rightarrow> string \<Rightarrow> RemoteActorLocation \<Rightarrow> RegistrationPriority \<Rightarrow> GossipRegistry
   \<Rightarrow> RemoteActorLocation result" where
  "register_prepare enc now name location prio r =
     (if local_actor r name \<noteq> None \<or> known_actor r name \<noteq> None then Inl (ActorAlreadyExists name)
      else
        let prepared = registered_location now name location prio r
        in bind_res (ensure_solo_change_fits enc r name prepared) (\<lambda>_. Inr prepared))"

text \<open>
  The critical section; \<open>insert_sync\<close> fails on a name that is present, and a remote record that
  is present after the insertion undoes it.
\<close>

definition register_commit ::
  "string \<Rightarrow> RemoteActorLocation \<Rightarrow> RegistrationPriority \<Rightarrow> GossipRegistry \<Rightarrow> bool result \<times> GossipRegistry" where
  "register_commit name location prio r =
     (if reg_shutdown r then (Inl Shutdown, r)
      else if local_actor r name \<noteq> None \<or> known_actor r name \<noteq> None then (Inl (ActorAlreadyExists name), r)
      else case try_charge_compact_snapshot name location (max_message_size (reg_config r)) (gossip_state r) of
             (Inl e, _) \<Rightarrow> (Inl e, r)
           | (Inr _, g) \<Rightarrow>
               let r1 = r\<lparr>gossip_state := g\<rparr>
               in if local_actor r1 name \<noteq> None
                  then (Inl (ActorAlreadyExists name), on_gossip (release_compact_snapshot name) r1)
                  else
                    let r2 = mark_routing_changed_for_actor name (insert_local name location r1)
                    in if known_actor r2 name \<noteq> None
                       then (Inl (ActorAlreadyExists name),
                             on_gossip (release_compact_snapshot name)
                               (mark_routing_changed_for_actor name (remove_local name r2)))
                       else (Inr (should_trigger_immediate_gossip prio),
                             on_gossip (enqueue_change (ActorAdded name location prio) prio)
                               (remove_tombstone_of name r2)))"

definition register_actor_with_priority ::
  "encoder \<Rightarrow> u64 \<Rightarrow> string \<Rightarrow> RemoteActorLocation \<Rightarrow> RegistrationPriority \<Rightarrow> GossipRegistry
   \<Rightarrow> bool result \<times> GossipRegistry" where
  "register_actor_with_priority enc now name location prio r =
     (if reg_shutdown r then (Inl Shutdown, r)
      else
        let r1 = (if register_reflected name location r
                  then release_admission name (forget_known name r) else r)
        in case register_prepare enc now name location prio r1 of
             Inl e \<Rightarrow> (Inl e, r1)
           | Inr prepared \<Rightarrow> register_commit name prepared prio r1)"

definition register_actor ::
  "encoder \<Rightarrow> u64 \<Rightarrow> string \<Rightarrow> RemoteActorLocation \<Rightarrow> GossipRegistry \<Rightarrow> bool result \<times> GossipRegistry" where
  "register_actor enc now name location = register_actor_with_priority enc now name location Normal"

definition register_actor_replacing_known ::
  "encoder \<Rightarrow> u64 \<Rightarrow> string \<Rightarrow> RemoteActorLocation \<Rightarrow> GossipRegistry \<Rightarrow> bool result \<times> GossipRegistry" where
  "register_actor_replacing_known enc now name location r =
     (case known_actor r name of
        Some known_location \<Rightarrow>
          register_actor_with_priority enc now name
            (location\<lparr>loc_clock := vc_merge (loc_clock location) (loc_clock known_location)\<rparr>) Normal
            (release_admission name (forget_known name r))
      | None \<Rightarrow> register_actor_with_priority enc now name location Normal r)"

text \<open>
  The sections of an unregistration: the local record is removed outside the lock, and only the
  last section, under it, writes the tombstone and announces the removal. It puts the record back
  if the registry has been shut down in between.
\<close>

definition unregister_remove ::
  "string \<Rightarrow> GossipRegistry \<Rightarrow> RemoteActorLocation option result \<times> GossipRegistry" where
  "unregister_remove name r =
     (if reg_shutdown r then (Inl Shutdown, r)
      else
        (Inr (local_actor r name),
         if local_actor r name \<noteq> None then mark_routing_changed_for_actor name (remove_local name r) else r))"

definition unregister_reflected :: "string \<Rightarrow> GossipRegistry \<Rightarrow> bool" where
  "unregister_reflected name r =
     (case known_actor r name of Some loc \<Rightarrow> loc_node_id loc = self_node_id r | None \<Rightarrow> False)"

definition unregister_commit ::
  "u64 \<Rightarrow> string \<Rightarrow> RemoteActorLocation \<Rightarrow> GossipRegistry \<Rightarrow> bool result \<times> GossipRegistry" where
  "unregister_commit now name location r =
     (if reg_shutdown r
      then (Inl Shutdown, mark_routing_changed_for_actor name (insert_local name location r))
      else
        let removal_clock = vc_increment (self_node_id r) (loc_clock location);
            change = ActorRemoved name removal_clock (self_node_id r) (loc_priority location)
        in (Inr (should_trigger_immediate_gossip (loc_priority location)),
            on_gossip (enqueue_change change (loc_priority location))
              (upsert_tombstone name
                 (new_explicit_unregister_by_owner now removal_clock (self_node_id r))
                 (on_gossip (release_compact_snapshot name) r))))"

definition unregister_actor ::
  "u64 \<Rightarrow> string \<Rightarrow> GossipRegistry \<Rightarrow> (RemoteActorLocation option \<times> bool) result \<times> GossipRegistry" where
  "unregister_actor now name r =
     (case unregister_remove name r of
        (Inl e, r1) \<Rightarrow> (Inl e, r1)
      | (Inr removed, r1) \<Rightarrow>
          let r2 = (if unregister_reflected name r1
                    then release_admission name (forget_known name r1) else r1)
          in case removed of
               None \<Rightarrow> (Inr (None, False), r2)
             | Some location \<Rightarrow>
                 (case unregister_commit now name location r2 of
                    (Inl e, r3) \<Rightarrow> (Inl e, r3)
                  | (Inr urgent, r3) \<Rightarrow> (Inr (Some location, urgent), r3)))"

definition lookup_actor ::
  "(RemoteActorLocation \<Rightarrow> bool) \<Rightarrow> u64 \<Rightarrow> string \<Rightarrow> GossipRegistry \<Rightarrow> RemoteActorLocation option" where
  "lookup_actor owner_connected now name r =
     (case local_actor r name of
        Some location \<Rightarrow> Some location
      | None \<Rightarrow>
          (case known_actor r name of
             Some location \<Rightarrow>
               if sat_sub_word now (wall_clock_time location) < actor_ttl (reg_config r)
                  \<or> owner_connected location
               then Some location else None
           | None \<Rightarrow> None))"

subsection \<open>Applying a delta\<close>

record DeltaRun =
  sender_actors :: "string set"
  names_changed :: "string set"
  applied_count :: usize
  applied_immediate :: "string list"

definition delta_location ::
  "addr_text \<Rightarrow> SocketAddr option \<Rightarrow> PeerId \<Rightarrow> RemoteActorLocation \<Rightarrow> RemoteActorLocation" where
  "delta_location txt repair_addr sender_peer_id location =
     (let owner_is_sender = (loc_peer_id location = sender_peer_id);
          wire_addr = canonical_wire_addr txt (address location);
          resolved = (case repair_addr of
                        Some repair \<Rightarrow> resolve_remote_actor_addr wire_addr repair owner_is_sender
                      | None \<Rightarrow> wire_addr)
      in location\<lparr>address := addr_show txt resolved\<rparr>)"

text \<open>Storing an admitted remote actor, in a delta and in a full sync.\<close>

definition store_remote ::
  "PeerId \<Rightarrow> string \<Rightarrow> RemoteActorLocation \<Rightarrow> bool \<Rightarrow> GossipRegistry \<Rightarrow> GossipRegistry" where
  "store_remote sender_peer_id name location clear_tombstone r =
     on_gossip (record_actor_admission sender_peer_id name)
       (upsert_known name location (if clear_tombstone then remove_tombstone_of name r else r))"

text \<open>The two size checks of a remote record; \<open>None\<close> is their refusal.\<close>

definition charge_remote :: "encoder \<Rightarrow> string \<Rightarrow> RemoteActorLocation \<Rightarrow> GossipRegistry \<Rightarrow> GossipState option" where
  "charge_remote enc name location r =
     (case ensure_solo_change_fits enc r name location of
        Inl _ \<Rightarrow> None
      | Inr _ \<Rightarrow>
          (case try_charge_compact_snapshot name location (max_message_size (reg_config r)) (gossip_state r) of
             (Inl _, _) \<Rightarrow> None
           | (Inr _, g) \<Rightarrow> Some g))"

definition peer_capped :: "PeerId \<Rightarrow> string \<Rightarrow> GossipRegistry \<Rightarrow> bool" where
  "peer_capped sender_peer_id name r \<longleftrightarrow>
     actor_admission_peer_by_name (gossip_state r) name \<noteq> Some sender_peer_id
     \<and> max_known_actors_per_peer (reg_config r) \<le> actor_admission_count (gossip_state r) sender_peer_id"

definition apply_added ::
  "encoder \<Rightarrow> PeerId \<Rightarrow> bool \<Rightarrow> string \<Rightarrow> RemoteActorLocation \<Rightarrow> RegistrationPriority
   \<Rightarrow> GossipRegistry \<times> DeltaRun \<Rightarrow> GossipRegistry \<times> DeltaRun" where
  "apply_added enc sender_peer_id owner_restart_authenticated name location prio = (\<lambda>(r, run).
     (case current_actor_upsert_plan r name location sender_peer_id owner_restart_authenticated of
        None \<Rightarrow> (r, run)
      | Some (clear_tombstone, is_update) \<Rightarrow>
          if peer_capped sender_peer_id name r then (r, run)
          else if \<not> is_update \<and> max_known_actors (reg_config r) \<le> length (known_actors (actor_state r))
          then (r, run)
          else case charge_remote enc name location r of
                 None \<Rightarrow> (r, run)
               | Some g \<Rightarrow>
                   (store_remote sender_peer_id name location clear_tombstone (r\<lparr>gossip_state := g\<rparr>),
                    run\<lparr>sender_actors := insert name (sender_actors run),
                        names_changed := insert name (names_changed run),
                        applied_count := applied_count run + 1,
                        applied_immediate :=
                          (if should_trigger_immediate_gossip prio
                           then applied_immediate run @ [name] else applied_immediate run)\<rparr>)))"

text \<open>The kind and the owner of the tombstone a removal leaves, from what is known before it.\<close>

definition removal_kind :: "GossipRegistry \<Rightarrow> string \<Rightarrow> GossipNodeId \<Rightarrow> TombstoneKind" where
  "removal_kind r name removing_node_id =
     (let existing_kind = map_option tomb_kind (removed_actor r name)
      in case known_actor r name of
           Some loc \<Rightarrow>
             merge_tombstone_kind existing_kind (tombstone_kind_for_removal (loc_node_id loc) removing_node_id)
         | None \<Rightarrow>
             merge_tombstone_kind existing_kind
               (if Option.bind (removed_actor r name) tomb_owner = Some removing_node_id
                then ExplicitUnregister
                else case existing_kind of Some kind \<Rightarrow> kind | None \<Rightarrow> Unknown))"

definition removal_owner :: "GossipRegistry \<Rightarrow> string \<Rightarrow> GossipNodeId \<Rightarrow> GossipNodeId option" where
  "removal_owner r name removing_node_id =
     (case known_actor r name of
        Some loc \<Rightarrow> Some (loc_node_id loc)
      | None \<Rightarrow>
          (case Option.bind (removed_actor r name) tomb_owner of
             Some owner \<Rightarrow> Some owner
           | None \<Rightarrow> if removal_kind r name removing_node_id = ExplicitUnregister
                     then Some removing_node_id else None))"

definition apply_removed ::
  "u64 \<Rightarrow> string \<Rightarrow> VectorClock \<Rightarrow> GossipNodeId \<Rightarrow> RegistrationPriority
   \<Rightarrow> GossipRegistry \<times> DeltaRun \<Rightarrow> GossipRegistry \<times> DeltaRun" where
  "apply_removed now name clock removing_node_id prio = (\<lambda>(r, run).
     let kind = removal_kind r name removing_node_id;
         owner = removal_owner r name removing_node_id
     in case current_actor_removal_plan r name clock removing_node_id of
          None \<Rightarrow> (r, run)
        | Some (removal_clock, tombstone_only) \<Rightarrow>
            let forwarded = ActorRemoved name removal_clock removing_node_id prio;
                tombstone = with_kind_and_owner now removal_clock kind owner;
                forward = on_gossip (\<lambda>s. s\<lparr>pending_changes :=
                                       pending_changes s @ [as_regular_gossip_change forwarded]\<rparr>)
            in if tombstone_only then (forward (upsert_tombstone name tombstone r), run)
               else if known_actor r name = None then (r, run)
               else (forward (upsert_tombstone name tombstone (release_known name r)),
                     run\<lparr>sender_actors := sender_actors run - {name},
                         names_changed := insert name (names_changed run),
                         applied_count := applied_count run + 1\<rparr>))"

fun apply_change ::
  "encoder \<Rightarrow> addr_text \<Rightarrow> u64 \<Rightarrow> SocketAddr option \<Rightarrow> PeerId \<Rightarrow> bool \<Rightarrow> RegistryChange
   \<Rightarrow> GossipRegistry \<times> DeltaRun \<Rightarrow> GossipRegistry \<times> DeltaRun" where
  "apply_change enc txt now repair_addr sender auth (ActorAdded name location prio) s =
     apply_added enc sender auth name (delta_location txt repair_addr sender location) prio s"
| "apply_change enc txt now repair_addr sender auth (ActorRemoved name clock removing_node_id prio) s =
     apply_removed now name clock removing_node_id prio s"

definition apply_delta_from ::
  "encoder \<Rightarrow> addr_text \<Rightarrow> u64 \<Rightarrow> SocketAddr option \<Rightarrow> RegistryDelta \<Rightarrow> SocketAddr option
   \<Rightarrow> (SocketAddr \<times> u64) option \<Rightarrow> GossipRegistry \<Rightarrow> string list result \<times> GossipRegistry" where
  "apply_delta_from enc txt now bookkeeping_addr delta verified_sender_addr session_guard r =
     (let repair_addr = (case verified_sender_addr of Some a \<Rightarrow> Some a | None \<Rightarrow> bookkeeping_addr)
      in if (case session_guard of
               Some (peer_addr, epoch) \<Rightarrow> \<not> session_epoch_still_current (gossip_state r) peer_addr epoch
             | None \<Rightarrow> False)
         then (Inr [], r)
         else
           let auth = (case session_guard of
                         Some (peer_addr, _) \<Rightarrow>
                           (case map_of (peers (gossip_state r)) peer_addr of
                              Some info \<Rightarrow> session_restart_confirmed info
                            | None \<Rightarrow> False)
                       | None \<Rightarrow> False);
               names = (case Option.bind bookkeeping_addr (peer_to_actors (gossip_state r)) of
                          Some names \<Rightarrow> names | None \<Rightarrow> {});
               (r1, run) = fold (apply_change enc txt now repair_addr (delta_sender_peer_id delta) auth)
                             (delta_changes delta)
                             (r, \<lparr>sender_actors = names, names_changed = {}, applied_count = 0,
                                  applied_immediate = []\<rparr>);
               r2 = (case bookkeeping_addr of
                       Some addr \<Rightarrow>
                         on_gossip (\<lambda>s. s\<lparr>peer_to_actors := (peer_to_actors s)(addr \<mapsto> sender_actors run)\<rparr>) r1
                     | None \<Rightarrow> r1);
               r3 = (if 0 < applied_count run
                     then mark_routing_changed_with_pubsub (\<exists>name \<in> names_changed run. is_interest_actor_name name) r2
                     else r2)
           in (Inr (applied_immediate run), r3))"

subsection \<open>Merging a full sync\<close>

record SyncRun =
  peer_actors :: "string set"
  stored_actors :: usize
  pubsub_actors_changed :: bool
  routes_to_configure :: "(string \<times> PeerId \<times> SocketAddr) list"

text \<open>The candidates a full sync yields: the address the actor is stored with, and the route to learn.\<close>

definition sync_candidates ::
  "addr_text \<Rightarrow> PeerId \<Rightarrow> bool \<Rightarrow> SocketAddr \<Rightarrow> PeerId \<Rightarrow> (string \<times> RemoteActorLocation) list
   \<Rightarrow> (string \<times> RemoteActorLocation \<times> SocketAddr option) list" where
  "sync_candidates txt self_peer_id owned repair_addr sender_peer_id actors =
     map (\<lambda>(name, location).
            let owner_is_sender = (loc_peer_id location = sender_peer_id);
                wire_addr = canonical_wire_addr txt (address location);
                resolved = (if owned \<and> owner_is_sender then resolve_owned_actor_addr wire_addr repair_addr
                            else resolve_remote_actor_addr wire_addr repair_addr owner_is_sender)
            in (name, location\<lparr>address := addr_show txt resolved\<rparr>,
                if owner_is_sender then Some resolved else None))
       (filter (\<lambda>(name, location). loc_peer_id location \<noteq> self_peer_id) actors)"

definition apply_sync_actor ::
  "encoder \<Rightarrow> SocketAddr \<Rightarrow> PeerId \<Rightarrow> bool \<Rightarrow> string \<times> RemoteActorLocation \<times> SocketAddr option
   \<Rightarrow> GossipRegistry \<times> SyncRun \<Rightarrow> GossipRegistry \<times> SyncRun" where
  "apply_sync_actor enc repair_addr sender_peer_id auth = (\<lambda>(name, location, addr) (r, run).
     let known_exists = (known_actor r name \<noteq> None);
         skip = (r, run);
         keep = (r, if known_exists then run\<lparr>peer_actors := insert name (peer_actors run)\<rparr> else run)
     in if peer_capped sender_peer_id name r then skip
        else if \<not> known_exists \<and> max_known_actors (reg_config r) \<le> length (known_actors (actor_state r))
        then skip
        else case current_actor_upsert_plan r name location sender_peer_id auth of
               None \<Rightarrow> keep
             | Some (clear_tombstone, is_update) \<Rightarrow>
                 (case charge_remote enc name location r of
                    None \<Rightarrow> keep
                  | Some g \<Rightarrow>
                      (store_remote sender_peer_id name location clear_tombstone (r\<lparr>gossip_state := g\<rparr>),
                       run\<lparr>peer_actors := insert name (peer_actors run),
                           stored_actors := stored_actors run + 1,
                           pubsub_actors_changed := pubsub_actors_changed run \<or> is_interest_actor_name name,
                           routes_to_configure := routes_to_configure run @
                             (case addr of
                                Some a \<Rightarrow> if learnable_dial_route a repair_addr
                                          then [(name, loc_peer_id location, a)] else []
                              | None \<Rightarrow> [])\<rparr>)))"

text \<open>An actor of the sender that its full sync no longer lists.\<close>

definition prune_omitted ::
  "PeerId \<Rightarrow> string \<Rightarrow> GossipRegistry \<times> SyncRun \<Rightarrow> GossipRegistry \<times> SyncRun" where
  "prune_omitted sender_peer_id name = (\<lambda>(r, run).
     if local_actor r name \<noteq> None then (r, run)
     else case known_actor r name of
            Some existing \<Rightarrow>
              if loc_peer_id existing = sender_peer_id
              then (release_known name r,
                    run\<lparr>pubsub_actors_changed := pubsub_actors_changed run \<or> is_interest_actor_name name\<rparr>)
              else (r, run)
          | None \<Rightarrow> (r, run))"

text \<open>
  The second critical section of a full sync, from the candidates to the omitted actors; the
  routes to learn are returned.
\<close>

definition apply_full_sync ::
  "encoder \<Rightarrow> SocketAddr \<Rightarrow> SocketAddr \<Rightarrow> PeerId \<Rightarrow> bool
   \<Rightarrow> (string \<times> RemoteActorLocation \<times> SocketAddr option) list \<Rightarrow> GossipRegistry
   \<Rightarrow> (string \<times> PeerId \<times> SocketAddr) list \<times> GossipRegistry" where
  "apply_full_sync enc sender_addr repair_addr sender_peer_id auth candidates r =
     (let (r1, run1) = fold (apply_sync_actor enc repair_addr sender_peer_id auth) (sort_key fst candidates)
                         (r, \<lparr>peer_actors = {}, stored_actors = 0, pubsub_actors_changed = False,
                              routes_to_configure = []\<rparr>);
          previous = (case peer_to_actors (gossip_state r1) sender_addr of Some names \<Rightarrow> names | None \<Rightarrow> {});
          r2 = on_gossip (\<lambda>s. s\<lparr>peer_to_actors := (peer_to_actors s)(sender_addr \<mapsto> peer_actors run1)\<rparr>) r1;
          (r3, run2) = fold (prune_omitted sender_peer_id)
                         (sorted_list_of_set (previous - peer_actors run1)) (r2, run1)
      in (routes_to_configure run2,
          if 0 < stored_actors run2 \<or> pubsub_actors_changed run2
          then mark_routing_changed_with_pubsub (pubsub_actors_changed run2) r3 else r3))"

text \<open>
  The first critical section: the ownership projection, the session and the sequence. \<open>Inl\<close> is
  an early return; \<open>Inr\<close> carries the epoch to recheck and whether a restart was confirmed.
  \<open>claim_current\<close> is the answer of \<open>registry_owner.claim_is_current\<close> at that moment, \<open>published\<close>
  the peer's connection in the pool.
\<close>

definition ownership_admits ::
  "bool \<Rightarrow> SocketAddr \<Rightarrow> CommitSeq option \<Rightarrow> GossipState \<Rightarrow> bool \<times> GossipState" where
  "ownership_admits claim_current sender_addr ownership_commit s =
     (case ownership_commit of
        None \<Rightarrow> (True, s)
      | Some commit_seq \<Rightarrow>
          if \<not> claim_current then (False, s) else admit_ownership_projection sender_addr commit_seq s)"

definition put_peer :: "SocketAddr \<Rightarrow> PeerInfo \<Rightarrow> GossipState \<Rightarrow> GossipState" where
  "put_peer addr info s = s\<lparr>peers := AList.update addr info (peers s)\<rparr>"

definition begin_full_sync ::
  "bool \<Rightarrow> published_connection \<Rightarrow> SocketAddr \<Rightarrow> SocketAddr option \<Rightarrow> u64 \<Rightarrow> CommitSeq option
   \<Rightarrow> GossipRegistry \<Rightarrow> (bool + u64 option \<times> bool) \<times> GossipRegistry" where
  "begin_full_sync claim_current published sender_addr session_source sequence ownership_commit r =
     (case ownership_admits claim_current sender_addr ownership_commit (gossip_state r) of
        (False, g) \<Rightarrow> (Inl False, r\<lparr>gossip_state := g\<rparr>)
      | (True, g) \<Rightarrow>
          (case map_of (peers g) sender_addr of
             None \<Rightarrow> (Inr (None, False), r\<lparr>gossip_state := g\<rparr>)
           | Some info \<Rightarrow>
               (case peer_info_is_from_current_session published session_source (session_epochs r) info of
                  (current, info1, counter) \<Rightarrow>
                    let r1 = r\<lparr>gossip_state := put_peer sender_addr info1 g, session_epochs := counter\<rparr>
                    in if \<not> current then (Inl False, r1)
                       else case admit_sequence session_source sequence info1 of
                              None \<Rightarrow> (Inl True, r1)
                            | Some info2 \<Rightarrow>
                                (Inr (Some (current_session_epoch info2), session_restart_confirmed info2),
                                 on_gossip (put_peer sender_addr info2) r1))))"

text \<open>The second critical section, whose result carries the routes to learn.\<close>

definition finish_full_sync ::
  "encoder \<Rightarrow> bool \<Rightarrow> SocketAddr \<Rightarrow> SocketAddr \<Rightarrow> PeerId \<Rightarrow> CommitSeq option \<Rightarrow> u64 option \<times> bool
   \<Rightarrow> (string \<times> RemoteActorLocation \<times> SocketAddr option) list \<Rightarrow> GossipRegistry
   \<Rightarrow> (bool \<times> (string \<times> PeerId \<times> SocketAddr) list) \<times> GossipRegistry" where
  "finish_full_sync enc claim_current sender_addr repair_addr sender_peer_id ownership_commit captured
     candidates r =
     (case ownership_admits claim_current sender_addr ownership_commit (gossip_state r) of
        (False, g) \<Rightarrow> ((False, []), r\<lparr>gossip_state := g\<rparr>)
      | (True, g) \<Rightarrow>
          if (case fst captured of
                Some epoch \<Rightarrow> \<not> session_epoch_still_current g sender_addr epoch
              | None \<Rightarrow> False)
          then ((True, []), r\<lparr>gossip_state := g\<rparr>)
          else case apply_full_sync enc sender_addr repair_addr sender_peer_id (snd captured) candidates
                      (r\<lparr>gossip_state := g\<rparr>) of
                 (routes, r1) \<Rightarrow> ((True, routes), r1))"

text \<open>Both sections in turn; other operations may run in between.\<close>

definition merge_full_sync_from_guarded ::
  "encoder \<Rightarrow> addr_text \<Rightarrow> bool \<times> bool \<Rightarrow> published_connection \<Rightarrow> actor_pairs \<Rightarrow> actor_pairs \<Rightarrow> PeerId
   \<Rightarrow> SocketAddr \<Rightarrow> SocketAddr option \<Rightarrow> SocketAddr option \<Rightarrow> u64 \<Rightarrow> CommitSeq option \<Rightarrow> GossipRegistry
   \<Rightarrow> (bool \<times> (string \<times> PeerId \<times> SocketAddr) list) \<times> GossipRegistry" where
  "merge_full_sync_from_guarded enc txt claims published remote_local remote_known sender_peer_id
     sender_addr verified_sender_addr session_source sequence ownership_commit r =
     (let repair_addr = (case verified_sender_addr of Some a \<Rightarrow> a | None \<Rightarrow> sender_addr);
          source = (case session_source of Some a \<Rightarrow> Some a | None \<Rightarrow> verified_sender_addr)
      in case begin_full_sync (fst claims) published sender_addr source sequence ownership_commit r of
           (Inl outcome, r1) \<Rightarrow> ((outcome, []), r1)
         | (Inr captured, r1) \<Rightarrow>
             finish_full_sync enc (snd claims) sender_addr repair_addr sender_peer_id ownership_commit
               captured
               (sync_candidates txt (reg_peer_id r1) (ownership_commit \<noteq> None) repair_addr sender_peer_id
                  (remote_local @ remote_known)) r1)"

definition arm_session ::
  "SocketAddr \<Rightarrow> GossipNodeId \<Rightarrow> SocketAddr \<Rightarrow> published_connection \<Rightarrow> ConnectionId
   \<Rightarrow> GossipRegistry \<Rightarrow> GossipRegistry" where
  "arm_session peer_addr node_id session_source published connection r =
     (case arm_sequence_reset_for_new_session node_id session_source published connection
             (session_epochs r) (map_of (peers (gossip_state r)) peer_addr) of
        (None, counter) \<Rightarrow> r
      | (Some info, counter) \<Rightarrow>
          on_gossip (put_peer peer_addr info) (r\<lparr>session_epochs := counter\<rparr>))"

subsection \<open>Dead peers and expiry\<close>

definition actor_location_belongs_to_peer ::
  "(byte list \<Rightarrow> bool) \<Rightarrow> addr_text \<Rightarrow> RemoteActorLocation \<Rightarrow> SocketAddr \<Rightarrow> PeerInfo option
   \<Rightarrow> bool option" where
  "actor_location_belongs_to_peer valid_key txt location peer_addr peer_info =
     (case Option.bind peer_info pi_node_id of
        Some node_id \<Rightarrow>
          if loc_node_id location = node_id then Some True
          else map_option (\<lambda>n. n = node_id) (to_node_id valid_key (loc_peer_id location))
      | None \<Rightarrow> Some (addr_parse txt (address location) = Some peer_addr))"

definition reap_actor ::
  "(byte list \<Rightarrow> bool) \<Rightarrow> addr_text \<Rightarrow> u64 \<Rightarrow> SocketAddr \<Rightarrow> PeerInfo option \<Rightarrow> string
   \<Rightarrow> GossipRegistry \<times> bool \<Rightarrow> (GossipRegistry \<times> bool) option" where
  "reap_actor valid_key txt now peer_addr peer_info name = (\<lambda>(r, urgent).
     case known_actor r name of
       None \<Rightarrow> Some (r, urgent)
     | Some location \<Rightarrow>
         (case actor_location_belongs_to_peer valid_key txt location peer_addr peer_info of
            None \<Rightarrow> None
          | Some False \<Rightarrow> Some (r, urgent)
          | Some True \<Rightarrow>
              let removal_clock = vc_increment (self_node_id r) (loc_clock location);
                  change = ActorRemoved name removal_clock (self_node_id r) (loc_priority location)
              in Some (on_gossip (enqueue_change change (loc_priority location))
                         (upsert_tombstone name (new_with_owner now removal_clock (loc_node_id location))
                           (release_known name r)),
                       urgent \<or> should_trigger_immediate_gossip (loc_priority location))))"

definition reap_peer_actors ::
  "(byte list \<Rightarrow> bool) \<Rightarrow> addr_text \<Rightarrow> u64 \<Rightarrow> SocketAddr \<Rightarrow> GossipRegistry \<Rightarrow> (bool \<times> GossipRegistry) option" where
  "reap_peer_actors valid_key txt now peer_addr r =
     (case peer_to_actors (gossip_state r) peer_addr of
        None \<Rightarrow> Some (False, r)
      | Some actor_names \<Rightarrow>
          let peer_info = map_of (peers (gossip_state r)) peer_addr
          in map_option (\<lambda>(r1, urgent).
               (urgent, on_gossip (\<lambda>s. s\<lparr>peer_to_actors := (peer_to_actors s)(peer_addr := None)\<rparr>) r1))
               (fold_opt (reap_actor valid_key txt now peer_addr peer_info)
                  (sorted_list_of_set actor_names) (r, False)))"

subsubsection \<open>Bounds\<close>

fun compact_change :: "usize \<Rightarrow> RegistryChange \<Rightarrow> RegistryChange" where
  "compact_change max_size (ActorAdded name location prio) =
     (if max_size < vc_len (loc_clock location)
      then ActorAdded name (location\<lparr>loc_clock := vc_compact max_size (loc_clock location)\<rparr>) prio
      else ActorAdded name location prio)"
| "compact_change max_size (ActorRemoved name clock removing_node_id prio) =
     (if max_size < vc_len clock
      then ActorRemoved name (vc_compact max_size clock) removing_node_id prio
      else ActorRemoved name clock removing_node_id prio)"

text \<open>Dropping the oldest entries beyond a bound.\<close>

definition keep_newest :: "usize \<Rightarrow> 'a list \<Rightarrow> 'a list" where
  "keep_newest bound xs = drop (length xs - bound) xs"

definition select_peers_to_evict ::
  "(SocketAddr \<times> PeerInfo) list \<Rightarrow> usize \<Rightarrow> (SocketAddr \<Rightarrow> PeerInfo \<Rightarrow> bool) \<Rightarrow> SocketAddr list" where
  "select_peers_to_evict entries to_remove is_exempt =
     (let evictable = map (\<lambda>(addr, peer). (addr, last_success peer))
                        (filter (\<lambda>(addr, peer). \<not> is_exempt addr peer) entries)
      in map fst (take to_remove (sort_key (\<lambda>(addr, t). (t, addr)) evictable)))"

definition evict_actor :: "PeerId option \<Rightarrow> string \<Rightarrow> GossipRegistry \<Rightarrow> GossipRegistry" where
  "evict_actor evicted_peer_id actor_name r =
     (let removed = (evicted_peer_id \<noteq> None
                     \<and> map_option loc_peer_id (known_actor r actor_name) = evicted_peer_id);
          admitted_by_evicted = (evicted_peer_id \<noteq> None
                     \<and> actor_admission_peer_by_name (gossip_state r) actor_name = evicted_peer_id);
          r1 = (if removed then remove_known actor_name r else r)
      in if removed \<or> admitted_by_evicted then on_gossip (release_actor_admission actor_name) r1 else r1)"

text \<open>An evicted peer; the address, identity and generation to release are appended.\<close>

definition evict_peer ::
  "(byte list \<Rightarrow> bool) \<Rightarrow> SocketAddr \<Rightarrow> GossipRegistry \<times> (SocketAddr \<times> PeerId \<times> CommitSeq) list
   \<Rightarrow> (GossipRegistry \<times> (SocketAddr \<times> PeerId \<times> CommitSeq) list) option" where
  "evict_peer valid_key addr = (\<lambda>(r, owners).
     let evicted = map_of (peers (gossip_state r)) addr;
         node_id = Option.bind evicted pi_node_id;
         evicted_peer_id = Option.bind node_id (to_peer_id valid_key)
     in if node_id \<noteq> None \<and> evicted_peer_id = None then None
        else
          let owners1 = (case (evicted_peer_id, ownership_watermark (gossip_state r) addr) of
                           (Some peer_id, Some generation) \<Rightarrow> owners @ [(addr, peer_id, generation)]
                         | _ \<Rightarrow> owners);
              names = (case peer_to_actors (gossip_state r) addr of Some names \<Rightarrow> names | None \<Rightarrow> {});
              r1 = on_gossip (\<lambda>s. s\<lparr>peers := AList.delete addr (peers s),
                                    peer_to_actors := (peer_to_actors s)(addr := None)\<rparr>) r
          in Some (fold (evict_actor evicted_peer_id) (sorted_list_of_set names) r1, owners1))"

definition enforce_bounds ::
  "(byte list \<Rightarrow> bool) \<Rightarrow> (SocketAddr \<Rightarrow> PeerInfo \<Rightarrow> bool) \<Rightarrow> GossipRegistry
   \<Rightarrow> (GossipRegistry \<times> (SocketAddr \<times> PeerId \<times> CommitSeq) list) option" where
  "enforce_bounds valid_key is_exempt r =
     (let max_clock_size = max_vector_clock_size (reg_config r);
          r1 = on_gossip (\<lambda>s.
                 s\<lparr>pending_changes := keep_newest 1000 (map (compact_change max_clock_size) (pending_changes s)),
                   urgent_changes := keep_newest 100 (map (compact_change max_clock_size) (urgent_changes s)),
                   delta_history := keep_newest (max_delta_history (reg_config r)) (delta_history s)\<rparr>) r;
          bound = max (max_peers (reg_config r)) 1;
          entries = peers (gossip_state r1)
      in if bound < length entries
         then fold_opt (evict_peer valid_key)
                (select_peers_to_evict entries (length entries - bound) is_exempt) (r1, [])
         else Some (r1, []))"

text \<open>The positions at which the owner released the evicted addresses are fenced afterwards.\<close>

definition fence_released :: "(SocketAddr \<times> CommitSeq) list \<Rightarrow> GossipRegistry \<Rightarrow> GossipRegistry" where
  "fence_released released =
     on_gossip (fold (\<lambda>(addr, commit_seq). tombstone_ownership_projection addr commit_seq) released)"

subsubsection \<open>Expiry\<close>

text \<open>
  The sections of the cleanup: a scan for expired records, their removal under the lock if they
  are still the same and still expired, the removal of expired tombstones, the delta history and
  the bounds. \<open>owner_connected\<close> is the answer of the connection pool. The retention of the delta
  history compares durations in the unit of the monotonic clock, \<open>second\<close> of which make a second.
\<close>

definition expired :: "(RemoteActorLocation \<Rightarrow> bool) \<Rightarrow> u64 \<Rightarrow> u64 \<Rightarrow> RemoteActorLocation \<Rightarrow> bool" where
  "expired owner_connected now ttl location \<longleftrightarrow>
     ttl \<le> sat_sub_word now (wall_clock_time location) \<and> \<not> owner_connected location"

definition expired_actors :: "(RemoteActorLocation \<Rightarrow> bool) \<Rightarrow> u64 \<Rightarrow> GossipRegistry \<Rightarrow> actor_pairs" where
  "expired_actors owner_connected now r =
     filter (\<lambda>(name, location). expired owner_connected now (actor_ttl (reg_config r)) location)
       (known_actors (actor_state r))"

definition remove_expired ::
  "(RemoteActorLocation \<Rightarrow> bool) \<Rightarrow> u64 \<Rightarrow> string \<times> RemoteActorLocation \<Rightarrow> GossipRegistry \<Rightarrow> GossipRegistry" where
  "remove_expired owner_connected now = (\<lambda>(name, stale_location) r.
     case known_actor r name of
       Some current \<Rightarrow>
         if location_eq current stale_location \<and> expired owner_connected now (actor_ttl (reg_config r)) current
         then release_known name r else r
     | None \<Rightarrow> r)"

definition expired_tombstones :: "u64 \<Rightarrow> GossipRegistry \<Rightarrow> string list" where
  "expired_tombstones now r =
     map fst (filter (\<lambda>(name, t). vector_clock_retention_period (reg_config r) \<le> sat_sub_word now (removed_at t))
       (removed_actors (actor_state r)))"

definition trim_delta_history :: "nat \<Rightarrow> Instant \<Rightarrow> GossipRegistry \<Rightarrow> GossipRegistry" where
  "trim_delta_history second now_instant r =
     on_gossip (\<lambda>s. s\<lparr>delta_history :=
       filter (\<lambda>d. now_instant - recorded_at d < 2 * (unat (actor_ttl (reg_config r)) * second))
         (delta_history s)\<rparr>) r"

definition cleanup_stale_actors ::
  "(byte list \<Rightarrow> bool) \<Rightarrow> (SocketAddr \<Rightarrow> PeerInfo \<Rightarrow> bool) \<Rightarrow> (RemoteActorLocation \<Rightarrow> bool) \<Rightarrow> nat
   \<Rightarrow> u64 \<Rightarrow> Instant \<Rightarrow> GossipRegistry
   \<Rightarrow> (GossipRegistry \<times> (SocketAddr \<times> PeerId \<times> CommitSeq) list) option" where
  "cleanup_stale_actors valid_key is_exempt owner_connected second now now_instant r =
     (let r1 = fold (remove_expired owner_connected now) (expired_actors owner_connected now r) r;
          r2 = fold remove_tombstone_of (expired_tombstones now r1) r1
      in enforce_bounds valid_key is_exempt (trim_delta_history second now_instant r2))"

subsubsection \<open>Collection of old clock entries\<close>

text \<open>Whether the entries of a peer are kept: it is healthy, or failed no longer ago than the retention.\<close>

definition gc_keeps :: "u64 \<Rightarrow> GossipConfig \<Rightarrow> PeerInfo \<Rightarrow> bool" where
  "gc_keeps now config peer_info \<longleftrightarrow>
     failures peer_info < max_peer_failures config
     \<or> (case last_failure_time peer_info of
          None \<Rightarrow> True
        | Some failure_time \<Rightarrow> \<not> vector_clock_retention_period config < sat_sub_word now failure_time)"

definition gc_active_nodes :: "u64 \<Rightarrow> GossipRegistry \<Rightarrow> GossipNodeId set" where
  "gc_active_nodes now r =
     insert (self_node_id r)
       (set (List.map_filter (\<lambda>(_, peer_info). if gc_keeps now (reg_config r) peer_info then pi_node_id peer_info else None)
               (peers (gossip_state r))))"

definition gc_actors :: "GossipNodeId set \<Rightarrow> actor_pairs \<Rightarrow> actor_pairs" where
  "gc_actors active =
     map (\<lambda>(name, location). (name, location\<lparr>loc_clock := gc_old_nodes active (loc_clock location)\<rparr>))"

definition collect_clocks :: "GossipNodeId set \<Rightarrow> GossipRegistry \<Rightarrow> GossipRegistry" where
  "collect_clocks active =
     on_actors (\<lambda>a. a\<lparr>local_actors := gc_actors active (local_actors a),
                      known_actors := gc_actors active (known_actors a)\<rparr>)"

definition run_vector_clock_gc :: "u64 \<Rightarrow> GossipRegistry \<Rightarrow> GossipRegistry" where
  "run_vector_clock_gc now r = collect_clocks (gc_active_nodes now r) r"

subsubsection \<open>Shutdown\<close>

definition clear_local :: "GossipRegistry \<Rightarrow> GossipRegistry" where
  "clear_local = on_actors (\<lambda>a. a\<lparr>local_actors := []\<rparr>)"

definition clear_known :: "GossipRegistry \<Rightarrow> GossipRegistry" where
  "clear_known = on_actors (\<lambda>a. a\<lparr>known_actors := []\<rparr>)"

definition clear_gossip :: "GossipRegistry \<Rightarrow> GossipRegistry" where
  "clear_gossip =
     on_gossip (\<lambda>s. s\<lparr>pending_changes := [], urgent_changes := [], delta_history := [], peers := []\<rparr>)"

text \<open>The admissions, their charges and the tombstones outlive a shutdown.\<close>

definition shutdown :: "GossipRegistry \<Rightarrow> GossipRegistry" where
  "shutdown r = clear_gossip (clear_known (clear_local (r\<lparr>reg_shutdown := True\<rparr>)))"

end
