(* ===== verification/Directory_Claims.thy ===== *)
theory Directory_Claims
  imports Actor_Directory
begin

text \<open>
  What claims on an address do to the actor directory (\<^verbatim>\<open>src/registry.rs\<close>): the projection of a
  committed claim into the peer table, which releases the actors of the identity it displaces
  (\<open>add_peer_with_node_id_generation_inner\<close>), and the snapshot and the rollback of an inbound claim
  that is rejected later (\<open>snapshot_inbound_claim_projection\<close>,
  \<open>restore_inbound_claim_projection\<close>). Capabilities, clock probes, peer discovery and the
  connection pool are other tables and left out.
\<close>

subsection \<open>Projecting a committed claim\<close>

text \<open>The state of the identity that held the address before is reset.\<close>

definition reset_displaced_peer :: "u64 \<Rightarrow> u64 \<Rightarrow> u64 \<Rightarrow> PeerInfo \<Rightarrow> PeerInfo" where
  "reset_displaced_peer now now_ms epoch info =
     info\<lparr>last_sequence := 0, last_sent_sequence := 0, consecutive_deltas := 0,
          accept_lower_sequence_from := None, current_session_source := None,
          current_session_connection := None, current_session_epoch := epoch,
          session_restart_confirmed := False, failures := 0, last_failure_time := None,
          last_failure_instant := None, last_attempt := now, last_success := now,
          last_response_received_ms := now_ms\<rparr>"

text \<open>
  Whether a stored record is the displaced identity's own at this address. The identity in the
  record is converted with \<open>expect\<close>.
\<close>

definition displaced_record ::
  "(byte list \<Rightarrow> bool) \<Rightarrow> addr_text \<Rightarrow> SocketAddr \<Rightarrow> SocketAddr option \<Rightarrow> GossipNodeId
   \<Rightarrow> RemoteActorLocation \<Rightarrow> bool option" where
  "displaced_record valid_key txt peer_addr old_connection_addr old_node_id location =
     map_option (\<lambda>same_node. same_node \<and>
         (case addr_parse txt (address location) of
            Some location_addr \<Rightarrow> location_addr = peer_addr \<or> Some location_addr = old_connection_addr
          | None \<Rightarrow> False))
       (if loc_node_id location = old_node_id then Some True
        else map_option (\<lambda>n. n = old_node_id) (to_node_id valid_key (loc_peer_id location)))"

definition collect_displaced ::
  "(byte list \<Rightarrow> bool) \<Rightarrow> addr_text \<Rightarrow> SocketAddr \<Rightarrow> SocketAddr option \<Rightarrow> GossipNodeId
   \<Rightarrow> GossipRegistry \<Rightarrow> string \<Rightarrow> actor_pairs \<Rightarrow> actor_pairs option" where
  "collect_displaced valid_key txt peer_addr old_connection_addr old_node_id r actor_name acc =
     (case known_actor r actor_name of
        None \<Rightarrow> Some acc
      | Some location \<Rightarrow>
          map_option (\<lambda>displaced. if displaced then acc @ [(actor_name, location)] else acc)
            (displaced_record valid_key txt peer_addr old_connection_addr old_node_id location))"

text \<open>
  The critical section for an address that has an entry; the result is the list of records to
  drop after it. \<open>owner_changed\<close> is what the owner task reported, \<open>verified\<close> the kind it resolved.
\<close>

definition project_onto_peer ::
  "(byte list \<Rightarrow> bool) \<Rightarrow> addr_text \<Rightarrow> u64 \<Rightarrow> u64 \<Rightarrow> SocketAddr \<Rightarrow> GossipNodeId option \<Rightarrow> bool \<Rightarrow> bool option
   \<Rightarrow> PeerInfo \<Rightarrow> GossipRegistry \<Rightarrow> (actor_pairs \<times> GossipRegistry) option" where
  "project_onto_peer valid_key txt now now_ms peer_addr node_id owner_changed verified existing r =
     (let old_node_id = pi_node_id existing;
          changed = (owner_changed \<or> old_node_id \<noteq> None \<and> node_id \<noteq> None \<and> old_node_id \<noteq> node_id);
          info1 = (if node_id \<noteq> None then existing\<lparr>pi_node_id := node_id\<rparr> else existing);
          info2 = (case verified of Some v \<Rightarrow> info1\<lparr>identity_verified := v\<rparr> | None \<Rightarrow> info1)
      in if \<not> changed then Some ([], on_gossip (put_peer peer_addr info2) r)
         else case next_session_epoch (session_epochs r) of
                (epoch, counter) \<Rightarrow>
                  let names = sorted_list_of_set
                                (case peer_to_actors (gossip_state r) peer_addr of Some names \<Rightarrow> names | None \<Rightarrow> {});
                      r1 = on_gossip (\<lambda>s. fold release_actor_admission names
                             ((put_peer peer_addr (reset_displaced_peer now now_ms epoch info2) s)
                                \<lparr>peer_to_actors := (peer_to_actors s)(peer_addr := None)\<rparr>))
                             (r\<lparr>session_epochs := counter\<rparr>)
                  in map_option (\<lambda>locations. (locations, r1))
                       (case old_node_id of
                          None \<Rightarrow> Some []
                        | Some old \<Rightarrow>
                            fold_opt (collect_displaced valid_key txt peer_addr (pi_peer_address existing) old r)
                              names []))"

definition project_claim ::
  "(byte list \<Rightarrow> bool) \<Rightarrow> addr_text \<Rightarrow> u64 \<Rightarrow> u64 \<Rightarrow> SocketAddr \<Rightarrow> GossipNodeId option \<Rightarrow> bool \<Rightarrow> bool option
   \<Rightarrow> CommitSeq option \<Rightarrow> string option \<Rightarrow> GossipRegistry \<Rightarrow> (actor_pairs \<times> GossipRegistry) option" where
  "project_claim valid_key txt now now_ms peer_addr node_id owner_changed verified projected_claim dns r =
     (case (case projected_claim of
              Some commit_seq \<Rightarrow> admit_ownership_projection peer_addr commit_seq (gossip_state r)
            | None \<Rightarrow> (True, gossip_state r)) of
        (False, g) \<Rightarrow> Some ([], r\<lparr>gossip_state := g\<rparr>)
      | (True, g) \<Rightarrow>
          (case map_of (peers g) peer_addr of
             Some existing \<Rightarrow>
               project_onto_peer valid_key txt now now_ms peer_addr node_id owner_changed verified existing
                 (r\<lparr>gossip_state := g\<rparr>)
           | None \<Rightarrow>
               Some ([], r\<lparr>gossip_state := put_peer peer_addr
                 ((skeleton now now_ms peer_addr node_id)
                    \<lparr>last_success := now, dns_name := dns, identity_verified := (verified = Some True)\<rparr>) g\<rparr>)))"

text \<open>After the lock is released, the displaced records that are still the same are dropped.\<close>

definition drop_displaced :: "string \<times> RemoteActorLocation \<Rightarrow> GossipRegistry \<Rightarrow> GossipRegistry" where
  "drop_displaced = (\<lambda>(actor_name, displaced_location) r.
     case known_actor r actor_name of
       Some current \<Rightarrow> if location_eq current displaced_location then remove_known actor_name r else r
     | None \<Rightarrow> r)"

subsection \<open>Rolling back a rejected inbound claim\<close>

record InboundClaimProjectionSnapshot =
  snap_peer :: "PeerInfo option"
  snap_peer_to_actors :: "string set option"
  snap_admissions :: "(string \<times> PeerId option) list"
  known_actor_locations :: "(string \<times> RemoteActorLocation option) list"

text \<open>The candidate is an authenticated identity, so its key is valid.\<close>

definition projects_candidate :: "SocketAddr \<Rightarrow> PeerId \<Rightarrow> GossipState \<Rightarrow> bool" where
  "projects_candidate addr candidate s \<longleftrightarrow>
     Option.bind (map_of (peers s) addr) pi_node_id = Some (PublicKey (peer_bytes candidate))"

definition snapshot_inbound_claim_projection ::
  "SocketAddr \<Rightarrow> PeerId \<Rightarrow> GossipRegistry \<Rightarrow> InboundClaimProjectionSnapshot" where
  "snapshot_inbound_claim_projection addr candidate r =
     (let s = gossip_state r;
          actors = (if projects_candidate addr candidate s then None else peer_to_actors s addr);
          names = sorted_list_of_set (case actors of Some names \<Rightarrow> names | None \<Rightarrow> {})
      in \<lparr>snap_peer = map_of (peers s) addr, snap_peer_to_actors = actors,
          snap_admissions = map (\<lambda>name. (name, actor_admission_peer_by_name s name)) names,
          known_actor_locations = map (\<lambda>name. (name, known_actor r name)) names\<rparr>)"

text \<open>A name the candidate holds goes back to its prior owner; a failed charge is ignored.\<close>

definition restore_admission ::
  "usize \<Rightarrow> PeerId \<Rightarrow> InboundClaimProjectionSnapshot \<Rightarrow> string \<Rightarrow> GossipState \<Rightarrow> GossipState" where
  "restore_admission max_size candidate snap name s =
     (if actor_admission_peer_by_name s name \<noteq> Some candidate then s
      else
        let s1 = release_actor_admission name s
        in case map_of (snap_admissions snap) name of
             Some (Some prior_owner) \<Rightarrow>
               record_actor_admission prior_owner name
                 (case map_of (known_actor_locations snap) name of
                    Some (Some location) \<Rightarrow> snd (try_charge_compact_snapshot name location max_size s1)
                  | _ \<Rightarrow> s1)
           | _ \<Rightarrow> s1)"

definition restore_record ::
  "PeerId \<Rightarrow> string \<times> RemoteActorLocation option \<Rightarrow> GossipRegistry \<Rightarrow> GossipRegistry" where
  "restore_record candidate = (\<lambda>(name, location) r.
     case location of
       Some location \<Rightarrow> upsert_known name location r
     | None \<Rightarrow>
         if map_option loc_peer_id (known_actor r name) = Some candidate then remove_known name r else r)"

definition restored_names :: "SocketAddr \<Rightarrow> InboundClaimProjectionSnapshot \<Rightarrow> GossipState \<Rightarrow> string list" where
  "restored_names addr snap s =
     sorted_list_of_set (set (map fst (snap_admissions snap))
       \<union> (case peer_to_actors s addr of Some names \<Rightarrow> names | None \<Rightarrow> {}))"

definition restore_inbound_claim_projection ::
  "SocketAddr \<Rightarrow> PeerId \<Rightarrow> InboundClaimProjectionSnapshot \<Rightarrow> GossipRegistry \<Rightarrow> bool \<times> GossipRegistry" where
  "restore_inbound_claim_projection addr candidate snap r =
     (if \<not> projects_candidate addr candidate (gossip_state r) then (False, r)
      else
        let names = restored_names addr snap (gossip_state r);
            r1 = on_gossip (\<lambda>s. s\<lparr>
                   peers := (case snap_peer snap of
                               Some peer \<Rightarrow> AList.update addr peer (peers s)
                             | None \<Rightarrow> AList.delete addr (peers s)),
                   peer_to_actors := (peer_to_actors s)(addr := snap_peer_to_actors snap)\<rparr>) r;
            r2 = on_gossip (fold (restore_admission (max_message_size (reg_config r)) candidate snap) names) r1
        in (True, fold (restore_record candidate) (known_actor_locations snap) r2))"

end
