(* ===== verification/Directory_Invariant.thy ===== *)
theory Directory_Invariant
  imports Directory_Claims
begin

text \<open>
  What holds of the actor directory whatever sections of its operations interleave: the account
  tables agree with each other and the running total of charges is exact; and, as long as no
  rejected inbound claim is rolled back, the configured caps hold, no remote record names this node
  as its host, and until the shutdown no name is both local and remote.
\<close>

declare map_of_eq_Some_iff [simp del] Some_eq_map_of_iff [simp del]

subsection \<open>Accounts\<close>

definition admitted :: "GossipState \<Rightarrow> PeerId \<Rightarrow> string set" where
  "admitted s p = (case actor_admissions_by_peer s p of None \<Rightarrow> {} | Some names \<Rightarrow> names)"

lemma actor_admission_count_eq: "actor_admission_count s p = card (admitted s p)"
  by (simp add: actor_admission_count_def admitted_def split: option.split)

text \<open>
  \<open>accounts k s\<close>: the admission tables are inverse to each other, the running total is the fixed
  overhead and the sum of the charges, and \<open>k\<close> more bytes can be charged without saturation.
\<close>

definition accounts :: "nat \<Rightarrow> GossipState \<Rightarrow> bool" where
  "accounts k s \<longleftrightarrow>
     (\<forall>p n. n \<in> admitted s p \<longleftrightarrow> actor_admission_peer_by_name s n = Some p)
     \<and> (\<forall>p. finite (admitted s p))
     \<and> keys_distinct (compact_charge_by_name s)
     \<and> compact_admission_bytes s = GOSSIP_MESSAGE_SIZE_SLACK + val_sum id (compact_charge_by_name s)
     \<and> compact_admission_bytes s + k \<le> USIZE_MAX"

definition within_caps :: "usize \<Rightarrow> GossipState \<Rightarrow> bool" where
  "within_caps cap s \<longleftrightarrow> (\<forall>p. card (admitted s p) \<le> cap)"

lemma accounts_mono: "accounts k s \<Longrightarrow> j \<le> k \<Longrightarrow> accounts j s"
  by (simp add: accounts_def)

text \<open>What the account tables depend on.\<close>

definition account_view :: "GossipState \<Rightarrow> (PeerId \<rightharpoonup> string set) \<times> (string \<rightharpoonup> PeerId) \<times> usize \<times> (string \<times> usize) list" where
  "account_view s = (actor_admissions_by_peer s, actor_admission_peer_by_name s, compact_admission_bytes s,
     compact_charge_by_name s)"

lemma account_view_cong:
  assumes "account_view s' = account_view s"
  shows "accounts k s' = accounts k s" "within_caps cap s' = within_caps cap s"
  using assms by (simp_all add: accounts_def within_caps_def admitted_def account_view_def)

lemma drop_admission_at:
  "(case drop_admission p name m q of None \<Rightarrow> {} | Some names \<Rightarrow> names)
   = (case m q of None \<Rightarrow> {} | Some names \<Rightarrow> if q = p then names - {name} else names)"
  by (auto simp: drop_admission_def split: option.split)

lemma drop_admission_other [simp]: "q \<noteq> p \<Longrightarrow> drop_admission p name m q = m q"
  by (simp add: drop_admission_def split: option.split)

lemma admitted_release_compact [simp]: "admitted (release_compact_snapshot name s) = admitted s"
  by (simp add: admitted_def release_compact_snapshot_def fun_eq_iff split: option.split)

lemma by_name_release_compact [simp]:
  "actor_admission_peer_by_name (release_compact_snapshot name s) = actor_admission_peer_by_name s"
  by (simp add: release_compact_snapshot_def split: option.split)

lemma charges_release_compact [simp]:
  "compact_charge_by_name (release_compact_snapshot name s) = AList.delete name (compact_charge_by_name s)"
  by (simp add: release_compact_snapshot_def delete_fresh split: option.split)

lemma bytes_release_compact:
  assumes "keys_distinct (compact_charge_by_name s)"
    and "compact_admission_bytes s = c + val_sum id (compact_charge_by_name s)"
  shows "compact_admission_bytes (release_compact_snapshot name s)
     = c + val_sum id (AList.delete name (compact_charge_by_name s))"
proof (cases "map_of (compact_charge_by_name s) name")
  case None
  then show ?thesis using assms by (simp add: release_compact_snapshot_def delete_fresh)
next
  case (Some charge)
  then show ?thesis
    using assms val_sum_delete [OF assms(1) Some, where f = id] by (simp add: release_compact_snapshot_def)
qed

lemma val_sum_delete_le: "val_sum f (AList.delete k m) \<le> val_sum f m"
  by (induction m) (auto simp: AList.delete_eq)

lemma accounts_release_compact: "accounts k s \<Longrightarrow> accounts k (release_compact_snapshot name s)"
  using val_sum_delete_le [of id name "compact_charge_by_name s"]
    bytes_release_compact [of s GOSSIP_MESSAGE_SIZE_SLACK name]
  by (auto simp: accounts_def keys_distinct_delete)

lemma caps_release_compact [simp]: "within_caps cap (release_compact_snapshot name s) = within_caps cap s"
  by (simp add: within_caps_def)

lemma admitted_release:
  assumes "\<forall>p n. n \<in> admitted s p \<longleftrightarrow> actor_admission_peer_by_name s n = Some p"
  shows "admitted (release_actor_admission name s) p = admitted s p - {name}"
proof (cases "actor_admission_peer_by_name s name")
  case None
  then show ?thesis using assms by (auto simp: release_actor_admission_def)
next
  case (Some q)
  then have "admitted (release_actor_admission name s) p
      = (if p = q then admitted s p - {name} else admitted s p)"
    using drop_admission_at [of q name "actor_admissions_by_peer s" p]
    by (simp add: release_actor_admission_def admitted_def split: option.split)
  then show ?thesis using assms Some by auto
qed

lemma by_name_release [simp]:
  "actor_admission_peer_by_name (release_actor_admission name s)
   = (actor_admission_peer_by_name s)(name := None)"
  by (auto simp: release_actor_admission_def split: option.split)

lemma accounts_release:
  assumes "accounts k s"
  shows "accounts k (release_actor_admission name s)"
proof (cases "actor_admission_peer_by_name s name")
  case None
  then show ?thesis using assms by (simp add: release_actor_admission_def)
next
  case (Some p)
  have adm: "\<forall>p n. n \<in> admitted s p \<longleftrightarrow> actor_admission_peer_by_name s n = Some p"
    using assms by (simp add: accounts_def)
  have charges: "compact_charge_by_name (release_actor_admission name s)
      = AList.delete name (compact_charge_by_name s)"
    using Some by (simp add: release_actor_admission_def)
  have bytes: "compact_admission_bytes (release_actor_admission name s)
      = GOSSIP_MESSAGE_SIZE_SLACK + val_sum id (AList.delete name (compact_charge_by_name s))"
    using Some assms bytes_release_compact [where c = GOSSIP_MESSAGE_SIZE_SLACK]
    by (simp add: release_actor_admission_def accounts_def)
  show ?thesis
    using assms adm val_sum_delete_le [of id name "compact_charge_by_name s"]
    by (auto simp: accounts_def admitted_release [OF adm] charges bytes keys_distinct_delete)
qed

lemma caps_release:
  assumes "accounts k s" and "within_caps cap s"
  shows "within_caps cap (release_actor_admission name s)"
proof -
  have "card (admitted s p - {name}) \<le> cap" for p
    using assms card_Diff1_le [of "admitted s p" name] by (simp add: within_caps_def le_trans)
  then show ?thesis using assms(1) by (simp add: within_caps_def admitted_release accounts_def)
qed

text \<open>Charging a record: the tables keep their relation, and at most its charge is used up.\<close>

lemma try_charge_frame:
  assumes "try_charge_compact_snapshot name loc m s = (Inr b, s')"
  shows "actor_admissions_by_peer s' = actor_admissions_by_peer s"
    and "actor_admission_peer_by_name s' = actor_admission_peer_by_name s"
    and "admitted s' = admitted s"
  using assms by (auto simp: try_charge_compact_snapshot_def Let_def admitted_def split: option.splits sum.splits if_splits)

lemma try_charge_account:
  assumes "try_charge_compact_snapshot name loc m s = (Inr b, s')"
    and "keys_distinct (compact_charge_by_name s)"
    and "compact_admission_bytes s = c + val_sum id (compact_charge_by_name s)"
    and "compact_admission_bytes s + (compact_record_charge name loc + k) \<le> USIZE_MAX"
  shows "keys_distinct (compact_charge_by_name s')
     \<and> compact_admission_bytes s' = c + val_sum id (compact_charge_by_name s')
     \<and> compact_admission_bytes s' + k \<le> USIZE_MAX"
proof (cases "map_of (compact_charge_by_name s) name")
  case None
  have sat: "saturating_add (compact_admission_bytes s) (compact_record_charge name loc)
      = compact_admission_bytes s + compact_record_charge name loc"
    using assms(4) by (simp add: saturating_add_def)
  have "s' = s\<lparr>compact_admission_bytes := compact_admission_bytes s + compact_record_charge name loc,
      compact_charge_by_name := AList.update name (compact_record_charge name loc) (compact_charge_by_name s)\<rparr>"
    using assms(1) None by (simp add: try_charge_compact_snapshot_def Let_def sat split: sum.splits)
  then show ?thesis
    using assms(2-) val_sum_update_new [OF None, where f = id]
    by (simp add: AList.update_conv' keys_distinct_update)
next
  case (Some old)
  have ge: "old \<le> val_sum id (compact_charge_by_name s)" using val_sum_ge [OF Some, where f = id] by simp
  have sat: "saturating_add (compact_admission_bytes s - old) (compact_record_charge name loc)
      = compact_admission_bytes s - old + compact_record_charge name loc"
    using assms(4) by (simp add: saturating_add_def)
  have "s' = (if old \<noteq> compact_record_charge name loc
      then s\<lparr>compact_admission_bytes := compact_admission_bytes s - old + compact_record_charge name loc,
        compact_charge_by_name := AList.update name (compact_record_charge name loc) (compact_charge_by_name s)\<rparr>
      else s)"
    using assms(1) Some by (auto simp: try_charge_compact_snapshot_def Let_def sat)
  then show ?thesis
    using assms(2-) Some ge val_sum_update_old [OF Some, where f = id and v = "compact_record_charge name loc"]
    by (auto simp: AList.update_conv' keys_distinct_update)
qed

lemma accounts_charge:
  assumes "accounts (compact_record_charge name loc + k) s"
    and "try_charge_compact_snapshot name loc m s = (Inr b, s')"
  shows "accounts k s'"
  using assms(1) try_charge_frame [OF assms(2)]
    try_charge_account [OF assms(2), of GOSSIP_MESSAGE_SIZE_SLACK k]
  by (simp add: accounts_def)

lemma admitted_record:
  assumes "\<forall>p n. n \<in> admitted s p \<longleftrightarrow> actor_admission_peer_by_name s n = Some p"
  shows "admitted (record_actor_admission p name s) q
     = (if q = p then insert name (admitted s q) else admitted s q - {name})"
proof (cases "actor_admission_peer_by_name s name")
  case None
  then show ?thesis using assms
    by (auto simp: record_actor_admission_def Let_def admitted_def split: option.splits)
next
  case (Some previous)
  then have "admitted (record_actor_admission p name s) q
      = (if q = p then insert name (admitted s q)
         else if q = previous \<and> previous \<noteq> p then admitted s q - {name} else admitted s q)"
    using drop_admission_at [of previous name "actor_admissions_by_peer s" q]
    by (cases "p = previous") (auto simp: record_actor_admission_def Let_def admitted_def split: option.splits)
  then show ?thesis using assms Some by auto
qed

lemma record_frame [simp]:
  "actor_admission_peer_by_name (record_actor_admission p name s)
   = (actor_admission_peer_by_name s)(name \<mapsto> p)"
  "compact_charge_by_name (record_actor_admission p name s) = compact_charge_by_name s"
  "compact_admission_bytes (record_actor_admission p name s) = compact_admission_bytes s"
  by (simp_all add: record_actor_admission_def Let_def)

lemma accounts_record: "accounts k s \<Longrightarrow> accounts k (record_actor_admission p name s)"
  by (auto simp: accounts_def admitted_record)

lemma caps_store:
  assumes "accounts j s" and "within_caps cap s"
    and "actor_admission_peer_by_name s name = Some p \<or> card (admitted s p) < cap"
    and "try_charge_compact_snapshot name loc m s = (Inr b, s')"
  shows "within_caps cap (record_actor_admission p name s')"
proof -
  have fin: "finite (admitted s q)" for q using assms(1) by (simp add: accounts_def)
  have adm: "\<forall>p n. n \<in> admitted s' p \<longleftrightarrow> actor_admission_peer_by_name s' n = Some p"
    using assms(1) try_charge_frame [OF assms(4)] by (simp add: accounts_def)
  have "card (insert name (admitted s p)) \<le> cap"
    using assms(1,2,3) fin [of p] by (auto simp: accounts_def within_caps_def card_insert_if)
  moreover have "card (admitted s q - {name}) \<le> cap" for q
    using assms(2) card_Diff1_le [of "admitted s q" name] by (simp add: within_caps_def le_trans)
  ultimately show ?thesis
    using try_charge_frame [OF assms(4)] by (simp add: within_caps_def admitted_record [OF adm])
qed

subsection \<open>The invariant\<close>

text \<open>
  The caps and what keeps local and remote names apart; a rollback restores records and admissions
  without looking at either.
\<close>

definition dir_caps :: "GossipRegistry \<Rightarrow> bool" where
  "dir_caps r \<longleftrightarrow>
     keys_distinct (known_actors (actor_state r))
     \<and> within_caps (max_known_actors_per_peer (reg_config r)) (gossip_state r)
     \<and> length (known_actors (actor_state r)) \<le> max_known_actors (reg_config r)
     \<and> (\<forall>n loc. known_actor r n = Some loc \<longrightarrow> loc_peer_id loc \<noteq> reg_peer_id r)
     \<and> (reg_shutdown r \<or> (\<forall>n. known_actor r n \<noteq> None \<longrightarrow> local_actor r n = None))"

text \<open>
  \<open>dir_inv rollbacks k r\<close>; \<open>k\<close> is the number of bytes that can still be charged without
  saturation.
\<close>

definition dir_inv :: "bool \<Rightarrow> nat \<Rightarrow> GossipRegistry \<Rightarrow> bool" where
  "dir_inv rollbacks k r \<longleftrightarrow> accounts k (gossip_state r) \<and> (rollbacks \<or> dir_caps r)"

definition dir_view ::
  "GossipRegistry \<Rightarrow> PeerId \<times> GossipConfig \<times> bool \<times> actor_pairs \<times> actor_pairs
   \<times> (PeerId \<rightharpoonup> string set) \<times> (string \<rightharpoonup> PeerId) \<times> usize \<times> (string \<times> usize) list" where
  "dir_view r = (reg_peer_id r, reg_config r, reg_shutdown r, local_actors (actor_state r),
     known_actors (actor_state r), account_view (gossip_state r))"

lemma dir_inv_view: "dir_view r' = dir_view r \<Longrightarrow> dir_inv rb k r' = dir_inv rb k r"
  using account_view_cong [of "gossip_state r'" "gossip_state r"]
  by (simp add: dir_view_def dir_inv_def dir_caps_def)

lemma dir_inv_mono: "dir_inv rb k r \<Longrightarrow> j \<le> k \<Longrightarrow> dir_inv rb j r"
  by (auto simp: dir_inv_def intro: accounts_mono)

lemmas directory_defs = on_gossip_def on_actors_def insert_local_def remove_local_def upsert_known_def
  remove_known_def upsert_tombstone_def remove_tombstone_of_def mark_routing_changed_for_actor_def
  mark_routing_changed_with_pubsub_def

lemma dir_view_frame [simp]:
  "dir_view (mark_routing_changed_with_pubsub b r) = dir_view r"
  "dir_view (mark_routing_changed_for_actor name r) = dir_view r"
  "dir_view (upsert_tombstone name t r) = dir_view r"
  "dir_view (remove_tombstone_of name r) = dir_view r"
  "dir_view (r\<lparr>session_epochs := c\<rparr>) = dir_view r"
  by (simp_all add: dir_view_def directory_defs)

lemmas dir_inv_frame [simp] = dir_view_frame [THEN dir_inv_view]

lemma account_view_enqueue [simp]: "account_view (enqueue_change change prio s) = account_view s"
  by (simp add: account_view_def enqueue_change_def)

lemma account_view_put_peer [simp]: "account_view (put_peer addr info g) = account_view g"
  by (simp add: put_peer_def account_view_def)

lemma dir_inv_on_gossip:
  "account_view (f (gossip_state r)) = account_view (gossip_state r) \<Longrightarrow> dir_inv rb k (on_gossip f r) = dir_inv rb k r"
  by (rule dir_inv_view) (simp add: dir_view_def on_gossip_def)

lemma dir_inv_with_gossip:
  "account_view g = account_view (gossip_state r) \<Longrightarrow> dir_inv rb k (r\<lparr>gossip_state := g\<rparr>) = dir_inv rb k r"
  by (rule dir_inv_view) (simp add: dir_view_def)

lemma dir_inv_gossip_fields [simp]:
  "dir_inv rb k (on_gossip (enqueue_change change prio) r) = dir_inv rb k r"
  "dir_inv rb k (on_gossip (\<lambda>s. s\<lparr>pending_changes := f s\<rparr>) r) = dir_inv rb k r"
  "dir_inv rb k (on_gossip (\<lambda>s. s\<lparr>peer_to_actors := g s\<rparr>) r) = dir_inv rb k r"
  "dir_inv rb k (on_gossip (put_peer addr info) r) = dir_inv rb k r"
  by (rule dir_inv_on_gossip; simp add: account_view_def enqueue_change_def put_peer_def)+

lemma dir_inv_release: "dir_inv rb k r \<Longrightarrow> dir_inv rb k (on_gossip (release_actor_admission name) r)"
  by (auto simp: dir_inv_def dir_caps_def on_gossip_def accounts_release intro: caps_release)

lemma dir_inv_release_compact: "dir_inv rb k r \<Longrightarrow> dir_inv rb k (on_gossip (release_compact_snapshot name) r)"
  by (auto simp: dir_inv_def dir_caps_def on_gossip_def accounts_release_compact)

lemma dir_inv_remove_known: "dir_inv rb k r \<Longrightarrow> dir_inv rb k (remove_known name r)"
  using AList.length_delete_le [of name "known_actors (actor_state r)"]
  by (auto simp: dir_inv_def dir_caps_def directory_defs keys_distinct_delete AList.delete_conv')

lemma dir_inv_remove_local: "dir_inv rb k r \<Longrightarrow> dir_inv rb k (remove_local name r)"
  by (auto simp: dir_inv_def dir_caps_def directory_defs AList.delete_conv')

lemma dir_inv_release_known: "dir_inv rb k r \<Longrightarrow> dir_inv rb k (release_known name r)"
  by (simp add: release_known_def dir_inv_release dir_inv_remove_known)

lemma length_dom: "keys_distinct m \<Longrightarrow> length m = card (dom (map_of m))"
  by (metis distinct_card dom_map_of_conv_image_fst length_map set_map)

lemma dom_update: "dom (map_of (AList.update k v m)) = insert k (dom (map_of m))"
  by (simp add: AList.update_conv')

lemma length_update_le:
  assumes "keys_distinct m" "map_of m k \<noteq> None \<or> length m < b" "length m \<le> b"
  shows "length (AList.update k v m) \<le> b"
proof (cases "map_of m k")
  case None
  then show ?thesis
    using assms length_dom [of "AList.update k v m"] length_dom [OF assms(1)]
    by (simp add: keys_distinct_update dom_update card_insert_if finite_dom_map_of domIff)
next
  case (Some w)
  then have "insert k (dom (map_of m)) = dom (map_of m)" by auto
  then show ?thesis
    using assms length_dom [of "AList.update k v m"] length_dom [OF assms(1)]
    by (simp add: keys_distinct_update dom_update)
qed

lemma dir_inv_store:
  assumes inv: "dir_inv rb (compact_record_charge name loc + k) r"
    and charge: "try_charge_compact_snapshot name loc m (gossip_state r) = (Inr b, g)"
    and new: "local_actor r name = None" "loc_peer_id loc \<noteq> reg_peer_id r"
    and peer_cap: "actor_admission_peer_by_name (gossip_state r) name = Some p
      \<or> card (admitted (gossip_state r) p) < max_known_actors_per_peer (reg_config r)"
    and global_cap: "known_actor r name \<noteq> None
      \<or> length (known_actors (actor_state r)) < max_known_actors (reg_config r)"
  shows "dir_inv rb k (store_remote p name loc clear (r\<lparr>gossip_state := g\<rparr>))"
proof -
  have ac: "accounts k (record_actor_admission p name g)"
    using inv by (intro accounts_record accounts_charge [OF _ charge]) (simp add: dir_inv_def)
  have caps: "dir_caps (store_remote p name loc clear (r\<lparr>gossip_state := g\<rparr>))" if "dir_caps r"
  proof -
    have "within_caps (max_known_actors_per_peer (reg_config r)) (record_actor_admission p name g)"
      using inv that by (intro caps_store [OF _ _ peer_cap charge]) (auto simp: dir_inv_def dir_caps_def)
    moreover have "length (AList.update name loc (known_actors (actor_state r))) \<le> max_known_actors (reg_config r)"
      using length_update_le [OF _ global_cap] that by (simp add: dir_caps_def)
    ultimately show ?thesis
      using that new
      by (cases clear) (auto simp: dir_caps_def store_remote_def directory_defs keys_distinct_update
          AList.update_conv' split: if_splits)
  qed
  have "gossip_state (store_remote p name loc clear (r\<lparr>gossip_state := g\<rparr>)) = record_actor_admission p name g"
    by (simp add: store_remote_def directory_defs)
  with ac caps inv show ?thesis by (auto simp: dir_inv_def)
qed

subsection \<open>Remote changes\<close>

lemma upsert_plan_Some:
  assumes "current_actor_upsert_plan r name loc p auth = Some (clear, upd)"
  shows "local_actor r name = None" "loc_peer_id loc \<noteq> reg_peer_id r"
    "upd \<longleftrightarrow> known_actor r name \<noteq> None"
  using assms
  by (auto simp: current_actor_upsert_plan_def Let_def split: if_splits option.splits ClockOrdering.splits)

lemma removal_plan_Some:
  assumes "current_actor_removal_plan r name clock node = Some (c, only)"
  shows "local_actor r name = None" "only \<longleftrightarrow> known_actor r name = None"
  using assms
  by (auto simp: current_actor_removal_plan_def split: if_splits option.splits ClockOrdering.splits)

text \<open>Both ways a remote record is stored: after the caps and the size checks.\<close>

definition admits_remote :: "encoder \<Rightarrow> PeerId \<Rightarrow> bool \<Rightarrow> string \<Rightarrow> RemoteActorLocation \<Rightarrow> GossipRegistry
   \<Rightarrow> (bool \<times> GossipState) option" where
  "admits_remote enc p auth name loc r =
     (if peer_capped p name r then None
      else if known_actor r name = None \<and> max_known_actors (reg_config r) \<le> length (known_actors (actor_state r))
      then None
      else case current_actor_upsert_plan r name loc p auth of
             None \<Rightarrow> None
           | Some (clear, upd) \<Rightarrow> map_option (Pair clear) (charge_remote enc name loc r))"

lemma apply_added_eq:
  "fst (apply_added enc p auth name loc prio (r, run)) =
     (case admits_remote enc p auth name loc r of
        None \<Rightarrow> r
      | Some (clear, g) \<Rightarrow> store_remote p name loc clear (r\<lparr>gossip_state := g\<rparr>))"
  by (auto simp: apply_added_def admits_remote_def dest: upsert_plan_Some(3) split: option.split)

lemma apply_sync_actor_eq:
  "fst (apply_sync_actor enc repair p auth (name, loc, addr) (r, run)) =
     (case admits_remote enc p auth name loc r of
        None \<Rightarrow> r
      | Some (clear, g) \<Rightarrow> store_remote p name loc clear (r\<lparr>gossip_state := g\<rparr>))"
  by (auto simp: apply_sync_actor_def admits_remote_def Let_def split: option.split)

lemma charge_remote_Some:
  "charge_remote enc name loc r = Some g \<Longrightarrow>
     \<exists>b. try_charge_compact_snapshot name loc (max_message_size (reg_config r)) (gossip_state r) = (Inr b, g)"
  by (auto simp: charge_remote_def split: sum.splits prod.splits)

lemma admits_remote_Some:
  assumes "admits_remote enc p auth name loc r = Some (clear, g)"
  obtains upd b where "current_actor_upsert_plan r name loc p auth = Some (clear, upd)"
    "try_charge_compact_snapshot name loc (max_message_size (reg_config r)) (gossip_state r) = (Inr b, g)"
    "\<not> peer_capped p name r"
    "known_actor r name \<noteq> None \<or> length (known_actors (actor_state r)) < max_known_actors (reg_config r)"
  using assms charge_remote_Some [of enc name loc r g]
  by (fastforce simp: admits_remote_def split: if_splits option.splits)

lemma dir_inv_store_admitted:
  assumes "dir_inv rb (compact_record_charge name loc + k) r"
  shows "dir_inv rb k (case admits_remote enc p auth name loc r of
        None \<Rightarrow> r
      | Some (clear, g) \<Rightarrow> store_remote p name loc clear (r\<lparr>gossip_state := g\<rparr>))"
proof (cases "admits_remote enc p auth name loc r")
  case None
  then show ?thesis using assms dir_inv_mono [of rb _ r k] by simp
next
  case (Some cg)
  then obtain clear g where cg: "admits_remote enc p auth name loc r = Some (clear, g)" by (cases cg) auto
  obtain upd b where a: "current_actor_upsert_plan r name loc p auth = Some (clear, upd)"
    "try_charge_compact_snapshot name loc (max_message_size (reg_config r)) (gossip_state r) = (Inr b, g)"
    "\<not> peer_capped p name r"
    "known_actor r name \<noteq> None \<or> length (known_actors (actor_state r)) < max_known_actors (reg_config r)"
    using admits_remote_Some [OF cg] by blast
  have "actor_admission_peer_by_name (gossip_state r) name = Some p
      \<or> card (admitted (gossip_state r) p) < max_known_actors_per_peer (reg_config r)"
    using a(3) by (auto simp: peer_capped_def actor_admission_count_eq)
  then show ?thesis using dir_inv_store [OF assms a(2) upsert_plan_Some(1,2) [OF a(1)] _ a(4)] cg by simp
qed

lemma dir_inv_apply_added:
  "dir_inv rb (compact_record_charge name loc + k) r
   \<Longrightarrow> dir_inv rb k (fst (apply_added enc p auth name loc prio (r, run)))"
  unfolding apply_added_eq by (rule dir_inv_store_admitted)

lemma dir_inv_apply_removed:
  "dir_inv rb k r \<Longrightarrow> dir_inv rb k (fst (apply_removed now name clock node prio (r, run)))"
  by (auto simp: apply_removed_def Let_def dir_inv_release_known split: option.split)

fun change_charge :: "addr_text \<Rightarrow> SocketAddr option \<Rightarrow> PeerId \<Rightarrow> RegistryChange \<Rightarrow> nat" where
  "change_charge txt repair_addr sender (ActorAdded name location prio) =
     compact_record_charge name (delta_location txt repair_addr sender location)"
| "change_charge txt repair_addr sender (ActorRemoved name clock node prio) = 0"

lemma dir_inv_apply_change:
  assumes "dir_inv rb (change_charge txt repair_addr sender c + k) (fst s)"
  shows "dir_inv rb k (fst (apply_change enc txt now repair_addr sender auth c s))"
proof (cases c)
  case (ActorAdded name loc prio)
  then show ?thesis
    using assms dir_inv_apply_added [of rb name _ k "fst s" enc sender auth prio "snd s"] by simp
next
  case (ActorRemoved name clock node prio)
  then show ?thesis
    using assms dir_inv_apply_removed [of rb k "fst s" now name clock node prio "snd s"] by simp
qed

text \<open>Folding an operation over records whose charges are known beforehand.\<close>

lemma dir_inv_fold:
  assumes step: "\<And>x k s. dir_inv rb (charge x + k) (fst s) \<Longrightarrow> dir_inv rb k (fst (f x s))"
    and "dir_inv rb (sum_list (map charge xs) + k) (fst s)"
  shows "dir_inv rb k (fst (fold f xs s))"
  using assms(2)
proof (induction xs arbitrary: s)
  case (Cons x xs)
  have "dir_inv rb (sum_list (map charge xs) + k) (fst (f x s))"
    using Cons.prems by (intro step) (simp add: add.assoc)
  then show ?case using Cons.IH by simp
qed simp

definition delta_charge :: "addr_text \<Rightarrow> SocketAddr option \<Rightarrow> RegistryDelta \<Rightarrow> nat" where
  "delta_charge txt repair_addr delta =
     sum_list (map (change_charge txt repair_addr (delta_sender_peer_id delta)) (delta_changes delta))"

lemma dir_inv_apply_delta:
  assumes "dir_inv rb (delta_charge txt (case verified of Some a \<Rightarrow> Some a | None \<Rightarrow> book) delta + k) r"
  shows "dir_inv rb k (snd (apply_delta_from enc txt now book delta verified guard r))"
proof -
  let ?repair = "case verified of Some a \<Rightarrow> Some a | None \<Rightarrow> book"
  have "dir_inv rb k (fst (fold (apply_change enc txt now ?repair (delta_sender_peer_id delta) auth)
      (delta_changes delta) (r, run)))" for auth run
    using assms by (intro dir_inv_fold [where charge = "change_charge txt ?repair (delta_sender_peer_id delta)"])
      (auto simp: delta_charge_def intro: dir_inv_apply_change)
  moreover have "dir_inv rb k r" using assms dir_inv_mono by fastforce
  ultimately show ?thesis
    by (simp add: apply_delta_from_def Let_def case_prod_beta split: option.split)
qed
subsection \<open>Full syncs\<close>

definition sync_charge :: "(string \<times> RemoteActorLocation \<times> SocketAddr option) \<Rightarrow> nat" where
  "sync_charge c = compact_record_charge (fst c) (fst (snd c))"

lemma dir_inv_apply_sync_actor:
  "dir_inv rb (sync_charge c + k) (fst s) \<Longrightarrow> dir_inv rb k (fst (apply_sync_actor enc repair p auth c s))"
  using dir_inv_store_admitted [where name = "fst c" and loc = "fst (snd c)" and r = "fst s" and k = k]
    apply_sync_actor_eq [of enc repair p auth "fst c" "fst (snd c)" "snd (snd c)" "fst s" "snd s"]
  by (simp add: sync_charge_def)

lemma dir_inv_prune: "dir_inv rb k (fst s) \<Longrightarrow> dir_inv rb k (fst (prune_omitted p name s))"
  by (cases s) (auto simp: prune_omitted_def dir_inv_release_known split: option.split)

lemma fold_invariant: "(\<And>x s. P s \<Longrightarrow> P (f x s)) \<Longrightarrow> P s \<Longrightarrow> P (fold f xs s)"
  by (induction xs arbitrary: s) auto

lemma sum_list_sort_key: "sum_list (map f (sort_key g xs)) = (sum_list (map f xs) :: nat)"
proof -
  have "sum_list (map f (insort_key g x ys)) = f x + sum_list (map f ys)" for x ys
    by (induction ys) auto
  then show ?thesis by (induction xs) auto
qed

lemma dir_inv_apply_full_sync:
  assumes "dir_inv rb (sum_list (map sync_charge candidates) + k) r"
  shows "dir_inv rb k (snd (apply_full_sync enc sender repair p auth candidates r))"
proof -
  have 1: "dir_inv rb k (fst (fold (apply_sync_actor enc repair p auth) (sort_key fst candidates) (r, run)))" for run
    using assms
    by (intro dir_inv_fold [where charge = sync_charge] dir_inv_apply_sync_actor)
      (auto simp: sum_list_sort_key)
  have 2: "dir_inv rb k (fst s) \<Longrightarrow> dir_inv rb k (fst (fold (prune_omitted p) xs s))" for xs s
    by (rule fold_invariant [where P = "\<lambda>s. dir_inv rb k (fst s)"]) (auto intro: dir_inv_prune)
  show ?thesis
    using 1 2 by (simp add: apply_full_sync_def Let_def case_prod_beta)
qed

lemma account_view_prune [simp]: "account_view (prune_ownership_watermarks keep s) = account_view s"
proof -
  have "account_view (fold (\<lambda>(addr, c) s. s\<lparr>ownership_commit_seq := AList.delete addr (ownership_commit_seq s),
      ownership_pruned_through := max (ownership_pruned_through s) c\<rparr>) xs s) = account_view s" for xs
    by (rule fold_invariant [where P = "\<lambda>s'. account_view s' = account_view s"]) (auto simp: account_view_def)
  then show ?thesis by (simp add: prune_ownership_watermarks_def Let_def)
qed

lemma account_view_projection [simp]:
  "account_view (snd (admit_ownership_projection addr c s)) = account_view s"
  "account_view (tombstone_ownership_projection addr c s) = account_view s"
  by (simp_all add: admit_ownership_projection_def tombstone_ownership_projection_def Let_def)
    (simp_all add: account_view_def)

lemma account_view_admits: "account_view (snd (ownership_admits current addr commit s)) = account_view s"
  by (simp add: ownership_admits_def split: option.split)

lemma dir_inv_begin_full_sync:
  "dir_inv rb k (snd (begin_full_sync current published sender source sequence commit r)) = dir_inv rb k r"
proof -
  obtain ok g where og: "ownership_admits current sender commit (gossip_state r) = (ok, g)" by fastforce
  have g: "account_view g = account_view (gossip_state r)"
    using account_view_admits [of current sender commit "gossip_state r"] og by simp
  have "dir_inv rb k (r\<lparr>gossip_state := put_peer sender info g, session_epochs := c\<rparr>) = dir_inv rb k r" for info c
    by (rule dir_inv_view) (simp add: dir_view_def g)
  then show ?thesis
    using g by (simp add: begin_full_sync_def og dir_inv_with_gossip Let_def
        split: option.split prod.split bool.split)
qed

lemma dir_inv_finish_full_sync:
  assumes "dir_inv rb (sum_list (map sync_charge candidates) + k) r"
  shows "dir_inv rb k (snd (finish_full_sync enc current sender repair p commit captured candidates r))"
proof -
  obtain ok g where og: "ownership_admits current sender commit (gossip_state r) = (ok, g)" by fastforce
  have g: "account_view g = account_view (gossip_state r)"
    using account_view_admits [of current sender commit "gossip_state r"] og by simp
  have "dir_inv rb k (r\<lparr>gossip_state := g\<rparr>)" using assms dir_inv_mono [of rb _ r k] by (simp add: dir_inv_with_gossip g)
  moreover have "dir_inv rb k (snd (apply_full_sync enc sender repair p (snd captured) candidates (r\<lparr>gossip_state := g\<rparr>)))"
    using assms by (intro dir_inv_apply_full_sync) (simp add: dir_inv_with_gossip g)
  ultimately show ?thesis by (auto simp: finish_full_sync_def og split: option.split prod.split bool.split)
qed

subsection \<open>Local registration\<close>

lemma dir_inv_insert_local:
  assumes "dir_inv rb k r" "known_actor r name = None \<or> reg_shutdown r"
  shows "dir_inv rb k (insert_local name loc r)"
  using assms by (auto simp: dir_inv_def dir_caps_def directory_defs AList.update_conv')

lemma dir_inv_charge:
  assumes "dir_inv rb (compact_record_charge name loc + k) r"
    and "try_charge_compact_snapshot name loc m (gossip_state r) = (Inr b, g)"
  shows "dir_inv rb k (r\<lparr>gossip_state := g\<rparr>)"
proof -
  have "within_caps cap g = within_caps cap (gossip_state r)" for cap
    by (simp add: within_caps_def try_charge_frame [OF assms(2)])
  then show ?thesis
    using assms(1) accounts_charge [OF _ assms(2), of k] by (auto simp: dir_inv_def dir_caps_def)
qed

lemma dir_inv_forget: "dir_inv rb k r \<Longrightarrow> dir_inv rb k (forget_known name r)"
  by (simp add: forget_known_def dir_inv_remove_known)

lemma dir_inv_register_commit:
  assumes "dir_inv rb (compact_record_charge name loc + k) r"
  shows "dir_inv rb k (snd (register_commit name loc prio r))"
proof -
  have "dir_inv rb k r" using assms dir_inv_mono by fastforce
  moreover have "dir_inv rb k (insert_local name loc (r\<lparr>gossip_state := g\<rparr>))"
    if "try_charge_compact_snapshot name loc m (gossip_state r) = (Inr b, g)" "known_actor r name = None" for m b g
    using dir_inv_charge [OF assms that(1)] that(2) by (intro dir_inv_insert_local) simp_all
  ultimately show ?thesis
    by (auto simp: register_commit_def Let_def dir_inv_release_compact dir_inv_remove_local
        split: sum.split prod.split)
qed

lemma dir_inv_unregister_remove: "dir_inv rb k r \<Longrightarrow> dir_inv rb k (snd (unregister_remove name r))"
  by (simp add: unregister_remove_def dir_inv_remove_local)

lemma dir_inv_unregister_commit: "dir_inv rb k r \<Longrightarrow> dir_inv rb k (snd (unregister_commit now name loc r))"
  by (simp add: unregister_commit_def Let_def dir_inv_release_compact dir_inv_insert_local)

subsection \<open>Dead peers, bounds and expiry\<close>

lemma fold_opt_invariant:
  "(\<And>x s s'. P s \<Longrightarrow> f x s = Some s' \<Longrightarrow> P s') \<Longrightarrow> P s \<Longrightarrow> fold_opt f xs s = Some s' \<Longrightarrow> P s'"
  by (induction xs arbitrary: s) (auto split: option.splits)

lemma dir_inv_reap_actor:
  "dir_inv rb k (fst s) \<Longrightarrow> reap_actor valid_key txt now addr info name s = Some s' \<Longrightarrow> dir_inv rb k (fst s')"
  by (auto simp: reap_actor_def Let_def case_prod_beta dir_inv_release_known split: option.splits bool.splits)

lemma dir_inv_reap_peer:
  assumes "dir_inv rb k r" and "reap_peer_actors valid_key txt now addr r = Some (urgent, r')"
  shows "dir_inv rb k r'"
proof -
  have "fold_opt (reap_actor valid_key txt now addr info) xs s = Some s' \<Longrightarrow> dir_inv rb k (fst s) \<Longrightarrow> dir_inv rb k (fst s')"
    for info xs s s'
    by (rule fold_opt_invariant [where P = "\<lambda>s. dir_inv rb k (fst s)"]) (auto intro: dir_inv_reap_actor)
  then show ?thesis
    using assms by (fastforce simp: reap_peer_actors_def Let_def split: option.splits)
qed

lemma dir_inv_evict_actor: "dir_inv rb k r \<Longrightarrow> dir_inv rb k (evict_actor p name r)"
  using dir_inv_release_known [of rb k r name] dir_inv_release [of rb k r name]
  by (auto simp: evict_actor_def Let_def release_known_def)

lemma dir_inv_evict_peer:
  assumes "dir_inv rb k (fst s)" and "evict_peer valid_key addr s = Some s'"
  shows "dir_inv rb k (fst s')"
proof -
  have "dir_inv rb k (on_gossip (\<lambda>s. s\<lparr>peers := f s, peer_to_actors := g s\<rparr>) (fst s))" for f g
    using assms(1) dir_inv_on_gossip by (simp add: account_view_def dir_inv_on_gossip)
  then have "dir_inv rb k (fold (evict_actor p) xs (on_gossip (\<lambda>s. s\<lparr>peers := f s, peer_to_actors := g s\<rparr>) (fst s)))"
    for p xs f g
    by (intro fold_invariant [where P = "dir_inv rb k"] dir_inv_evict_actor)
  then show ?thesis
    using assms(2) by (auto simp: evict_peer_def Let_def case_prod_beta split: if_splits)
qed

lemma dir_inv_enforce_bounds:
  assumes "dir_inv rb k r" and "enforce_bounds valid_key is_exempt r = Some (r', owners)"
  shows "dir_inv rb k r'"
proof -
  have 1: "dir_inv rb k (on_gossip (\<lambda>s. s\<lparr>pending_changes := f s, urgent_changes := g s, delta_history := h s\<rparr>) r)"
    for f g h
    using assms(1) by (simp add: account_view_def dir_inv_on_gossip)
  have "fold_opt (evict_peer valid_key) xs s = Some s' \<Longrightarrow> dir_inv rb k (fst s) \<Longrightarrow> dir_inv rb k (fst s')" for xs s s'
    by (rule fold_opt_invariant [where P = "\<lambda>s. dir_inv rb k (fst s)"]) (auto intro: dir_inv_evict_peer)
  then show ?thesis
    using assms(2) 1 by (fastforce simp: enforce_bounds_def Let_def split: if_splits)
qed

lemma dir_inv_remove_expired: "dir_inv rb k r \<Longrightarrow> dir_inv rb k (remove_expired owner_connected now x r)"
  by (auto simp: remove_expired_def dir_inv_release_known split: prod.split option.split)

lemma dir_inv_arm: "dir_inv rb k (arm_session addr node_id source published connection r) = dir_inv rb k r"
  by (simp add: arm_session_def split: prod.split option.split)

lemma map_of_gc_actors:
  "map_of (gc_actors active m) name =
     map_option (\<lambda>location. location\<lparr>loc_clock := gc_old_nodes active (loc_clock location)\<rparr>) (map_of m name)"
  by (simp add: gc_actors_def map_of_map)

lemma keys_gc_actors [simp]:
  "map fst (gc_actors active m) = map fst m" "length (gc_actors active m) = length m"
  by (simp_all add: gc_actors_def split_beta comp_def)

lemma dir_inv_collect: "dir_inv rb k r \<Longrightarrow> dir_inv rb k (collect_clocks active r)"
  by (auto simp: dir_inv_def dir_caps_def collect_clocks_def on_actors_def map_of_gc_actors)

lemma dir_inv_shutdown:
  "dir_inv rb k r \<Longrightarrow> dir_inv rb k (r\<lparr>reg_shutdown := True\<rparr>)"
  "dir_inv rb k r \<Longrightarrow> dir_inv rb k (clear_local r)"
  "dir_inv rb k r \<Longrightarrow> dir_inv rb k (clear_known r)"
  by (auto simp: dir_inv_def dir_caps_def clear_local_def clear_known_def on_actors_def)

subsection \<open>Claims on an address\<close>

lemma dir_inv_project_onto_peer:
  assumes "dir_inv rb k r"
    and "project_onto_peer valid_key txt now now_ms addr node_id changed verified existing r = Some (locs, r')"
  shows "dir_inv rb k r'"
proof -
  have "dir_inv rb k (on_gossip (\<lambda>s. fold release_actor_admission names ((put_peer addr info s)\<lparr>peer_to_actors := f s\<rparr>))
      (r\<lparr>session_epochs := c\<rparr>))" for names info f c
  proof (induction names rule: rev_induct)
    case Nil
    then show ?case using assms(1) by (subst dir_inv_on_gossip) (simp_all add: account_view_def put_peer_def)
  next
    case (snoc name names)
    then show ?case using dir_inv_release [OF snoc, of name] by (simp add: on_gossip_def)
  qed
  then show ?thesis
    using assms by (auto simp: project_onto_peer_def Let_def next_session_epoch_def split: if_splits)
qed

lemma dir_inv_project_claim:
  assumes "dir_inv rb k r"
    and "project_claim valid_key txt now now_ms addr node_id changed verified commit dns r = Some (locs, r')"
  shows "dir_inv rb k r'"
proof -
  obtain ok g where og: "(case commit of Some c \<Rightarrow> admit_ownership_projection addr c (gossip_state r)
      | None \<Rightarrow> (True, gossip_state r)) = (ok, g)" by fastforce
  have "account_view g = account_view (gossip_state r)"
    using og account_view_projection(1) [of addr _ "gossip_state r"]
    by (cases commit) (simp, metis option.simps(5) snd_conv)
  then have g: "dir_inv rb k (r\<lparr>gossip_state := g\<rparr>)" "dir_inv rb k (r\<lparr>gossip_state := put_peer addr info g\<rparr>)" for info
    using assms(1) by (simp_all add: dir_inv_with_gossip)
  show ?thesis
    using assms(2) g dir_inv_project_onto_peer [OF g(1)]
    by (auto simp: project_claim_def og split: bool.splits option.splits)
qed

lemma dir_inv_drop_displaced: "dir_inv rb k r \<Longrightarrow> dir_inv rb k (drop_displaced x r)"
  by (auto simp: drop_displaced_def dir_inv_remove_known split: prod.split option.split)

text \<open>What restoring an admission can charge.\<close>

definition restore_charge :: "InboundClaimProjectionSnapshot \<Rightarrow> string \<Rightarrow> nat" where
  "restore_charge snap name =
     (case map_of (known_actor_locations snap) name of
        Some (Some location) \<Rightarrow> compact_record_charge name location
      | _ \<Rightarrow> 0)"

lemma try_charge_refused: "try_charge_compact_snapshot name loc m s = (Inl e, s') \<Longrightarrow> s' = s"
  by (auto simp: try_charge_compact_snapshot_def Let_def split: option.splits sum.splits)

lemma accounts_try_charge:
  assumes "accounts (compact_record_charge name loc + k) s"
  shows "accounts k (snd (try_charge_compact_snapshot name loc m s))"
proof (cases "try_charge_compact_snapshot name loc m s")
  case (Pair res g)
  then show ?thesis
    using accounts_charge [OF assms] accounts_mono [OF assms, of k] try_charge_refused
    by (cases res) fastforce+
qed

lemma accounts_restore_admission:
  assumes "accounts (restore_charge snap name + k) s"
  shows "accounts k (restore_admission m candidate snap name s)"
proof -
  have rel: "accounts (restore_charge snap name + k) (release_actor_admission name s)"
    using assms by (rule accounts_release)
  moreover have "accounts k (release_actor_admission name s)" "accounts k s"
    using accounts_mono [OF rel] accounts_mono [OF assms] by simp_all
  ultimately show ?thesis
    by (auto simp: restore_admission_def Let_def restore_charge_def intro!: accounts_record accounts_try_charge
        split: option.splits)
qed

lemma accounts_restore_admissions:
  "accounts (sum_list (map (restore_charge snap) names) + k) s
   \<Longrightarrow> accounts k (fold (restore_admission m candidate snap) names s)"
  by (induction names arbitrary: s) (auto simp: add.assoc intro: accounts_restore_admission)

lemma gossip_restore_record [simp]: "gossip_state (fold (restore_record candidate) xs r) = gossip_state r"
  by (induction xs arbitrary: r) (auto simp: restore_record_def directory_defs split: prod.split option.split)

lemma dir_inv_restore:
  assumes "dir_inv True (sum_list (map (restore_charge snap) (restored_names addr snap (gossip_state r))) + k) r"
  shows "dir_inv True k (snd (restore_inbound_claim_projection addr candidate snap r))"
proof -
  let ?names = "restored_names addr snap (gossip_state r)"
  have "accounts (sum_list (map (restore_charge snap) ?names) + k) ((gossip_state r)\<lparr>peers := f, peer_to_actors := h\<rparr>)"
    for f h
    using assms account_view_cong(1) [of "(gossip_state r)\<lparr>peers := f, peer_to_actors := h\<rparr>" "gossip_state r"]
    by (simp add: dir_inv_def account_view_def)
  then have "accounts k (fold (restore_admission m candidate snap) ?names
      ((gossip_state r)\<lparr>peers := f, peer_to_actors := h\<rparr>))" for m f h
    by (rule accounts_restore_admissions)
  moreover have "accounts k (gossip_state r)"
    using assms accounts_mono [of _ "gossip_state r" k] by (auto simp: dir_inv_def)
  ultimately show ?thesis
    by (simp add: restore_inbound_claim_projection_def Let_def dir_inv_def on_gossip_def)
qed

subsection \<open>Reachable directories\<close>

text \<open>
  A registry as it is created, and the steps of its life: the sections of its operations, in any
  order and with any arguments, so that they interleave in every way the tasks of a node can
  interleave them and more. A step that charges records is one that leaves their charges within
  the range of \<open>usize\<close>: they are sizes of data in memory. \<open>tables\<close> stands for the critical sections
  that concern peers, sessions, sequences and queues only. Rollbacks of rejected inbound claims
  occur if \<open>rollbacks\<close> is set.
\<close>

definition empty_registry :: "PeerId \<Rightarrow> GossipConfig \<Rightarrow> GossipRegistry" where
  "empty_registry peer_id config =
     \<lparr>reg_peer_id = peer_id, reg_config = config, reg_shutdown = False, session_epochs = 1,
      actor_state = \<lparr>local_actors = [], known_actors = [], removed_actors = [], routing_revision = 0,
        pubsub_routing_revision = 0\<rparr>,
      gossip_state = \<lparr>gossip_sequence = 0, pending_changes = [], urgent_changes = [], delta_history = [],
        peers = [], peer_to_actors = Map.empty, actor_admissions_by_peer = Map.empty,
        actor_admission_peer_by_name = Map.empty, compact_admission_bytes = GOSSIP_MESSAGE_SIZE_SLACK,
        compact_charge_by_name = [], ownership_commit_seq = [], ownership_pruned_through = 0\<rparr>\<rparr>"

definition room :: "GossipRegistry \<Rightarrow> nat \<Rightarrow> bool" where
  "room r k \<longleftrightarrow> compact_admission_bytes (gossip_state r) + k \<le> USIZE_MAX"

inductive dir_step :: "bool \<Rightarrow> GossipRegistry \<Rightarrow> GossipRegistry \<Rightarrow> bool" for rollbacks where
  forget: "dir_step rollbacks r (forget_known name r)"
| release: "dir_step rollbacks r (release_admission name r)"
| register: "room r (compact_record_charge name loc)
    \<Longrightarrow> dir_step rollbacks r (snd (register_commit name loc prio r))"
| unregister_remove: "dir_step rollbacks r (snd (unregister_remove name r))"
| unregister_commit: "dir_step rollbacks r (snd (unregister_commit now name loc r))"
| delta: "room r (delta_charge txt (case verified of Some a \<Rightarrow> Some a | None \<Rightarrow> book) delta)
    \<Longrightarrow> dir_step rollbacks r (snd (apply_delta_from enc txt now book delta verified guard r))"
| sync_begin: "dir_step rollbacks r (snd (begin_full_sync current published sender source sequence commit r))"
| sync_finish: "room r (sum_list (map sync_charge candidates))
    \<Longrightarrow> dir_step rollbacks r (snd (finish_full_sync enc current sender repair p commit captured candidates r))"
| reap: "reap_peer_actors valid_key txt now addr r = Some (urgent, r') \<Longrightarrow> dir_step rollbacks r r'"
| expire: "dir_step rollbacks r (fold (remove_expired owner_connected now) stale r)"
| expire_tombstone: "dir_step rollbacks r (remove_tombstone_of name r)"
| bounds: "enforce_bounds valid_key is_exempt r = Some (r', owners) \<Longrightarrow> dir_step rollbacks r r'"
| collect: "dir_step rollbacks r (collect_clocks active r)"
| arm: "dir_step rollbacks r (arm_session addr node_id source published connection r)"
| project: "project_claim valid_key txt now now_ms addr node_id changed verified commit dns r = Some (locs, r')
    \<Longrightarrow> dir_step rollbacks r r'"
| displaced: "dir_step rollbacks r (drop_displaced x r)"
| tables: "account_view (f (gossip_state r)) = account_view (gossip_state r)
    \<Longrightarrow> dir_step rollbacks r (on_gossip f r)"
| shut: "dir_step rollbacks r (r\<lparr>reg_shutdown := True\<rparr>)"
| shut_local: "dir_step rollbacks r (clear_local r)"
| shut_known: "dir_step rollbacks r (clear_known r)"
| rollback: "rollbacks \<Longrightarrow> room r (sum_list (map (restore_charge snap) (restored_names addr snap (gossip_state r))))
    \<Longrightarrow> dir_step rollbacks r (snd (restore_inbound_claim_projection addr candidate snap r))"

lemma dir_inv_room: "dir_inv rb 0 r \<Longrightarrow> room r k \<Longrightarrow> dir_inv rb (k + 0) r"
  by (auto simp: dir_inv_def room_def accounts_def)

lemma dir_inv_empty: "dir_inv rb 0 (empty_registry p c)"
  by (simp add: dir_inv_def dir_caps_def empty_registry_def accounts_def within_caps_def admitted_def
      GOSSIP_MESSAGE_SIZE_SLACK_def USIZE_MAX_def)

lemma dir_step_inv: "dir_step rb r r' \<Longrightarrow> dir_inv rb 0 r \<Longrightarrow> dir_inv rb 0 r'"
proof (induction rule: dir_step.induct)
  case register
  then show ?case by (intro dir_inv_register_commit dir_inv_room)
next
  case delta
  then show ?case by (intro dir_inv_apply_delta dir_inv_room)
next
  case sync_finish
  then show ?case by (intro dir_inv_finish_full_sync dir_inv_room)
next
  case reap
  then show ?case by (rule dir_inv_reap_peer [rotated])
next
  case expire
  then show ?case by (rule fold_invariant [where P = "dir_inv rb 0", rotated]) (rule dir_inv_remove_expired)
next
  case bounds
  then show ?case by (rule dir_inv_enforce_bounds [rotated])
next
  case project
  then show ?case by (rule dir_inv_project_claim [rotated])
next
  case tables
  then show ?case by (simp add: dir_inv_on_gossip)
next
  case rollback
  then show ?case using dir_inv_restore [OF dir_inv_room] by simp
qed (simp_all add: release_admission_def dir_inv_forget dir_inv_release dir_inv_unregister_remove
    dir_inv_unregister_commit dir_inv_begin_full_sync dir_inv_collect dir_inv_arm dir_inv_drop_displaced
    dir_inv_shutdown)

interpretation directory: invariant_steps "empty_registry p c" "dir_step rb" "dir_inv rb 0" for p c rb
  by unfold_locales (simp_all add: dir_inv_empty dir_step_inv)

end
