(* ===== verification/Directory_Removal.thy ===== *)
theory Directory_Removal
  imports Directory_Invariant
begin

text \<open>
  Removals of the actor directory: an actor whose unregistration is committed stays removed whatever
  peers send that does not causally follow the removal; a reap of a dead peer panics exactly
  when a stored record carries a peer identity that is no valid key; and what the eviction of a
  peer does to the actors it relayed.
\<close>

subsection \<open>Buried names\<close>

text \<open>
  A record that does not follow the removal clock, neither as a whole nor in the component of its
  own node.
\<close>

definition stale_location :: "VectorClock \<Rightarrow> RemoteActorLocation \<Rightarrow> bool" where
  "stale_location clock loc \<longleftrightarrow>
     vc_compare (loc_clock loc) clock \<noteq> CO_After
     \<and> vc_get (loc_clock loc) (loc_node_id loc) \<le> vc_get clock (loc_node_id loc)"

fun stale_change :: "string \<Rightarrow> VectorClock \<Rightarrow> RegistryChange \<Rightarrow> bool" where
  "stale_change name clock (ActorAdded n loc prio) \<longleftrightarrow> (n = name \<longrightarrow> stale_location clock loc)"
| "stale_change name clock (ActorRemoved n c node prio) \<longleftrightarrow> bt_wf c"

definition buried :: "string \<Rightarrow> VectorClock \<Rightarrow> GossipRegistry \<Rightarrow> bool" where
  "buried name clock r \<longleftrightarrow>
     local_actor r name = None \<and> known_actor r name = None
     \<and> (\<exists>t. removed_actor r name = Some t \<and> tomb_kind t = ExplicitUnregister
            \<and> bt_wf (tomb_clock t) \<and> vc_le clock (tomb_clock t))"

lemma vc_le_trans: "vc_le a b \<Longrightarrow> vc_le b c \<Longrightarrow> vc_le a c"
  by (meson order_trans vc_le_def)

lemma vc_compare_After: "vc_compare a b = CO_After \<longleftrightarrow> vc_le b a \<and> \<not> vc_le a b"
  by (simp add: vc_compare_eq)

lemma stale_location_mono:
  assumes "stale_location c loc" "vc_le c c'"
  shows "stale_location c' loc"
proof -
  have "vc_get c n \<le> vc_get c' n" for n using assms(2) by (simp add: vc_le_def)
  moreover have "vc_le (loc_clock loc) c'" if "vc_le c' (loc_clock loc)"
  proof -
    have "vc_le c (loc_clock loc)" using assms(2) that by (rule vc_le_trans)
    then have "vc_le (loc_clock loc) c" using assms(1) by (simp add: stale_location_def vc_compare_After)
    then show ?thesis using assms(2) by (rule vc_le_trans)
  qed
  ultimately show ?thesis
    using assms(1) order_trans by (fastforce simp: stale_location_def vc_compare_After)
qed

lemma buried_refuses:
  assumes "buried name clock r" "stale_location clock loc"
  shows "current_actor_upsert_plan r name loc p auth = None"
proof -
  obtain t where t: "removed_actor r name = Some t" "tomb_kind t = ExplicitUnregister" "vc_le clock (tomb_clock t)"
    using assms(1) by (auto simp: buried_def)
  have stale: "stale_location (tomb_clock t) loc" using stale_location_mono [OF assms(2) t(3)] .
  then have "\<not> owner_recovery_wins_tombstone loc p t auth"
    using t(2) by (auto simp: owner_recovery_wins_tombstone_def stale_location_def Let_def)
  then show ?thesis using t(1) stale by (simp add: current_actor_upsert_plan_def stale_location_def)
qed

lemma actor_fields [simp]:
  "local_actor (on_gossip f r) = local_actor r" "known_actor (on_gossip f r) = known_actor r"
  "removed_actor (on_gossip f r) = removed_actor r"
  "local_actor (mark_routing_changed_with_pubsub b r) = local_actor r"
  "known_actor (mark_routing_changed_with_pubsub b r) = known_actor r"
  "removed_actor (mark_routing_changed_with_pubsub b r) = removed_actor r"
  by (simp_all add: on_gossip_def mark_routing_changed_with_pubsub_def on_actors_def)

lemma buried_frame [simp]:
  "buried name clock (on_gossip f r) = buried name clock r"
  "buried name clock (mark_routing_changed_with_pubsub b r) = buried name clock r"
  "buried name clock (r\<lparr>gossip_state := g\<rparr>) = buried name clock r"
  "buried name clock (r\<lparr>session_epochs := e\<rparr>) = buried name clock r"
  by (simp_all add: buried_def)

lemma buried_remove_known: "buried name clock r \<Longrightarrow> buried name clock (remove_known n r)"
  by (simp add: buried_def remove_known_def on_actors_def)

lemma buried_release [simp]: "buried name clock r \<Longrightarrow> buried name clock (release_known n r)"
  by (simp add: release_known_def buried_remove_known)

lemma buried_other [simp]: "n \<noteq> name \<Longrightarrow> buried name clock (upsert_tombstone n t r) = buried name clock r"
  by (simp add: buried_def upsert_tombstone_def on_actors_def)

lemma buried_store:
  "n \<noteq> name \<Longrightarrow> buried name clock r \<Longrightarrow> buried name clock (store_remote p n loc clear (r\<lparr>gossip_state := g\<rparr>))"
  by (simp add: buried_def store_remote_def directory_defs)

lemma buried_admitted:
  assumes "buried name clock r" "n = name \<Longrightarrow> stale_location clock loc"
  shows "buried name clock (case admits_remote enc p auth n loc r of
        None \<Rightarrow> r
      | Some (clear, g) \<Rightarrow> store_remote p n loc clear (r\<lparr>gossip_state := g\<rparr>))"
proof (cases "n = name")
  case True
  then have "admits_remote enc p auth n loc r = None"
    using buried_refuses [OF assms(1)] assms(2) by (simp add: admits_remote_def)
  then show ?thesis using assms(1) by simp
next
  case False
  then show ?thesis using assms(1) by (simp add: buried_store split: option.split)
qed

subsection \<open>Removals keep a name buried\<close>

lemma removal_clock_grows:
  assumes plan: "current_actor_removal_plan r name clock node = Some (c, only)"
    and known: "known_actor r name = None" and removed: "removed_actor r name = Some t"
    and wf: "bt_wf clock" "bt_wf (tomb_clock t)"
  shows "bt_wf c \<and> vc_le (tomb_clock t) c"
proof -
  have distinct: "keys_distinct (tomb_clock t)" using wf(2) by (simp add: bt_wf_distinct)
  have "vc_le (tomb_clock t) (vc_merge clock (tomb_clock t))"
    by (simp add: vc_le_def vc_merge_props [OF wf(1) distinct])
  then show ?thesis
    using plan known removed wf vc_merge_props(1) [OF wf(1) distinct]
    by (auto simp: current_actor_removal_plan_def vc_compare_eq split: if_splits)
qed

lemma buried_apply_removed:
  assumes b: "buried name clock r" and wf: "bt_wf c"
  shows "buried name clock (fst (apply_removed now n c node prio (r, run)))"
proof (cases "current_actor_removal_plan r n c node")
  case None
  then show ?thesis using b by (simp add: apply_removed_def)
next
  case (Some plan)
  then obtain rc only where plan: "current_actor_removal_plan r n c node = Some (rc, only)" by (cases plan) auto
  show ?thesis
  proof (cases "n = name")
    case False
    then show ?thesis using b plan by (simp add: apply_removed_def Let_def)
  next
    case True
    obtain t where t: "removed_actor r name = Some t" "tomb_kind t = ExplicitUnregister"
      "bt_wf (tomb_clock t)" "vc_le clock (tomb_clock t)" and none: "local_actor r name = None" "known_actor r name = None"
      using b by (auto simp: buried_def)
    have "bt_wf rc \<and> vc_le clock rc"
      using removal_clock_grows [OF plan [unfolded True] none(2) t(1) wf t(3)] vc_le_trans [OF t(4)] by blast
    moreover have "removal_kind r name node = ExplicitUnregister"
      using t none by (simp add: removal_kind_def merge_tombstone_kind_def Let_def)
    ultimately show ?thesis
      using plan True none removal_plan_Some(2) [OF plan]
      by (simp add: apply_removed_def Let_def buried_def upsert_tombstone_def on_actors_def with_kind_and_owner_def)
  qed
qed

lemma buried_apply_change:
  assumes "buried name clock (fst s)" "stale_change name clock c"
  shows "buried name clock (fst (apply_change enc txt now repair sender auth c s))"
proof (cases c)
  case (ActorAdded n loc prio)
  have "n = name \<Longrightarrow> stale_location clock (delta_location txt repair sender loc)"
    using assms(2) ActorAdded by (simp add: delta_location_def Let_def stale_location_def)
  then show ?thesis
    using buried_admitted [OF assms(1)] ActorAdded
      apply_added_eq [of enc sender auth n "delta_location txt repair sender loc" prio "fst s" "snd s"]
    by simp
next
  case (ActorRemoved n clock' node prio)
  then show ?thesis
    using buried_apply_removed [OF assms(1), of clock' now n node prio "snd s"] assms(2) by simp
qed

lemma fold_buried:
  assumes "\<And>x s. x \<in> set xs \<Longrightarrow> buried name clock (fst s) \<Longrightarrow> buried name clock (fst (f x s))"
    and "buried name clock (fst s)"
  shows "buried name clock (fst (fold f xs s))"
  using assms by (induction xs arbitrary: s) auto

lemma buried_apply_delta:
  assumes "buried name clock r" "list_all (stale_change name clock) (delta_changes delta)"
  shows "buried name clock (snd (apply_delta_from enc txt now book delta verified guard r))"
proof -
  have "buried name clock (fst (fold (apply_change enc txt now repair (delta_sender_peer_id delta) auth)
      (delta_changes delta) (r, run)))" for repair auth run
    using assms by (intro fold_buried buried_apply_change) (auto simp: list_all_iff)
  then show ?thesis
    using assms(1) by (simp add: apply_delta_from_def Let_def case_prod_beta split: option.split)
qed

lemma buried_prune: "buried name clock (fst s) \<Longrightarrow> buried name clock (fst (prune_omitted p n s))"
  by (cases s) (auto simp: prune_omitted_def split: option.split)

lemma buried_apply_sync_actor:
  assumes "buried name clock (fst s)" "fst c = name \<Longrightarrow> stale_location clock (fst (snd c))"
  shows "buried name clock (fst (apply_sync_actor enc repair p auth c s))"
  using buried_admitted [OF assms]
    apply_sync_actor_eq [of enc repair p auth "fst c" "fst (snd c)" "snd (snd c)" "fst s" "snd s"] by simp

lemma buried_finish_full_sync:
  assumes "buried name clock r" "list_all (\<lambda>(n, loc, _). n = name \<longrightarrow> stale_location clock loc) candidates"
  shows "buried name clock (snd (finish_full_sync enc current sender repair p commit captured candidates r))"
proof -
  have 1: "buried name clock (fst (fold (apply_sync_actor enc repair p auth) (sort_key fst candidates) (r\<lparr>gossip_state := g\<rparr>, run)))"
    for auth g run
    using assms by (intro fold_buried buried_apply_sync_actor) (fastforce simp: list_all_iff)+
  have 2: "buried name clock (fst s) \<Longrightarrow> buried name clock (fst (fold (prune_omitted p) xs s))" for xs s
    by (intro fold_buried buried_prune)
  have "buried name clock (snd (apply_full_sync enc sender repair p auth candidates (r\<lparr>gossip_state := g\<rparr>)))" for auth g
    using 1 2 by (simp add: apply_full_sync_def Let_def case_prod_beta)
  then have "apply_full_sync enc sender repair p auth candidates (r\<lparr>gossip_state := g\<rparr>) = (routes, r')
      \<Longrightarrow> buried name clock r'" for auth g routes r'
    by (metis snd_conv)
  then show ?thesis
    using assms(1) by (auto simp: finish_full_sync_def split: option.split prod.split bool.split)
qed

lemma buried_begin_full_sync:
  "buried name clock (snd (begin_full_sync current published sender source sequence commit r)) = buried name clock r"
proof -
  have "buried name clock (r\<lparr>gossip_state := g, session_epochs := e\<rparr>) = buried name clock r" for g e
    by (simp add: buried_def)
  then show ?thesis
    by (simp add: begin_full_sync_def Let_def split: option.split prod.split bool.split)
qed

lemma buried_reap:
  assumes "buried name clock r" "reap_peer_actors valid_key txt now addr r = Some (urgent, r')"
  shows "buried name clock r'"
proof -
  have step: "buried name clock (fst s')"
    if "buried name clock (fst s)" "reap_actor valid_key txt now addr info n s = Some s'" for info n s s'
  proof (cases "n = name")
    case True
    then have "known_actor (fst s) n = None" using that(1) by (simp add: buried_def)
    then show ?thesis using that by (cases s) (auto simp: reap_actor_def)
  next
    case False
    then show ?thesis
      using that by (cases s) (auto simp: reap_actor_def Let_def split: option.splits bool.splits)
  qed
  have "fold_opt (reap_actor valid_key txt now addr info) xs s = Some s' \<Longrightarrow> buried name clock (fst s)
      \<Longrightarrow> buried name clock (fst s')" for info xs s s'
    by (rule fold_opt_invariant [where P = "\<lambda>s. buried name clock (fst s)"]) (auto intro: step)
  then show ?thesis
    using assms by (fastforce simp: reap_peer_actors_def Let_def split: option.splits)
qed

lemma buried_evict_actor: "buried name clock r \<Longrightarrow> buried name clock (evict_actor p n r)"
  using buried_remove_known [of name clock r n] by (simp add: evict_actor_def Let_def)

lemma buried_enforce_bounds:
  assumes "buried name clock r" "enforce_bounds valid_key is_exempt r = Some (r', owners)"
  shows "buried name clock r'"
proof -
  have f: "buried name clock r \<Longrightarrow> buried name clock (fold (evict_actor p) xs r)" for p xs r
    by (rule fold_invariant [where P = "buried name clock"]) (auto intro: buried_evict_actor)
  have step: "buried name clock (fst s')" if "buried name clock (fst s)" "evict_peer valid_key addr s = Some s'"
    for addr s s'
    using that by (auto simp: evict_peer_def Let_def case_prod_beta f split: if_splits)
  have "fold_opt (evict_peer valid_key) xs s = Some s' \<Longrightarrow> buried name clock (fst s) \<Longrightarrow> buried name clock (fst s')"
    for xs s s'
    by (rule fold_opt_invariant [where P = "\<lambda>s. buried name clock (fst s)"]) (auto intro: step)
  then show ?thesis
    using assms by (fastforce simp: enforce_bounds_def Let_def split: if_splits)
qed

lemma buried_remove_expired:
  "buried name clock r \<Longrightarrow> buried name clock (fold (remove_expired owner_connected now) stale r)"
  by (rule fold_invariant [where P = "buried name clock"])
    (auto simp: remove_expired_def split: prod.split option.split)

lemma buried_collect: "buried name clock r \<Longrightarrow> buried name clock (collect_clocks active r)"
  by (simp add: buried_def collect_clocks_def on_actors_def map_of_gc_actors)

lemma buried_project_onto_peer:
  assumes "project_onto_peer valid_key txt now now_ms addr node_id changed verified existing r = Some (locs, r')"
  shows "buried name clock r' = buried name clock r"
  using assms by (auto simp: project_onto_peer_def Let_def next_session_epoch_def split: if_splits)

lemma buried_project_claim:
  assumes "project_claim valid_key txt now now_ms addr node_id changed verified commit dns r = Some (locs, r')"
  shows "buried name clock r' = buried name clock r"
  using assms buried_project_onto_peer
  by (fastforce simp: project_claim_def split: prod.splits bool.splits option.splits)

lemma buried_drop_displaced: "buried name clock r \<Longrightarrow> buried name clock (drop_displaced x r)"
  by (auto simp: drop_displaced_def buried_remove_known split: prod.split option.split)

lemma buried_restore:
  assumes "buried name clock r" "\<forall>loc. (name, Some loc) \<notin> set (known_actor_locations snap)"
  shows "buried name clock (snd (restore_inbound_claim_projection addr candidate snap r))"
proof -
  have one: "buried name clock (restore_record candidate x r)"
    if "\<forall>loc. x \<noteq> (name, Some loc)" "buried name clock r" for x r
    using that buried_remove_known [of name clock r "fst x"]
    by (cases x) (auto simp: restore_record_def buried_def upsert_known_def on_actors_def split: option.split)
  have "buried name clock (fold (restore_record candidate) xs r)"
    if "\<forall>loc. (name, Some loc) \<notin> set xs" "buried name clock r" for xs r
    using that one
    by (intro List.fold_invariant [where Q = "\<lambda>x. \<forall>loc. x \<noteq> (name, Some loc)" and P = "buried name clock"]) blast+
  then show ?thesis
    using assms by (simp add: restore_inbound_claim_projection_def Let_def)
qed

lemma buried_local_operations:
  assumes "buried name clock r"
  shows "buried name clock (forget_known n r)"
    and "buried name clock (snd (unregister_remove n r))"
    and "n \<noteq> name \<Longrightarrow> buried name clock (snd (register_commit n loc prio r))"
    and "n \<noteq> name \<Longrightarrow> buried name clock (snd (unregister_commit now n loc r))"
  using assms
  by (auto simp: forget_known_def unregister_remove_def register_commit_def unregister_commit_def Let_def
      buried_def directory_defs split: prod.split sum.split)

subsection \<open>What peers can do to a removed name\<close>

text \<open>
  Everything but the local registration of the name and the expiry of its tombstone: messages of
  peers that do not follow the removal, reaps, evictions, expiry, claims on addresses, rollbacks
  that restore no record of the name, local operations on other names, and the shutdown.
\<close>

inductive remote_step :: "string \<Rightarrow> VectorClock \<Rightarrow> GossipRegistry \<Rightarrow> GossipRegistry \<Rightarrow> bool" for name clock where
  delta: "list_all (stale_change name clock) (delta_changes delta)
    \<Longrightarrow> remote_step name clock r (snd (apply_delta_from enc txt now book delta verified guard r))"
| sync_begin: "remote_step name clock r (snd (begin_full_sync current published sender source sequence commit r))"
| sync_finish: "list_all (\<lambda>(n, loc, _). n = name \<longrightarrow> stale_location clock loc) candidates
    \<Longrightarrow> remote_step name clock r (snd (finish_full_sync enc current sender repair p commit captured candidates r))"
| reap: "reap_peer_actors valid_key txt now addr r = Some (urgent, r') \<Longrightarrow> remote_step name clock r r'"
| bounds: "enforce_bounds valid_key is_exempt r = Some (r', owners) \<Longrightarrow> remote_step name clock r r'"
| expire: "remote_step name clock r (fold (remove_expired owner_connected now) stale r)"
| expire_tombstone: "n \<noteq> name \<Longrightarrow> remote_step name clock r (remove_tombstone_of n r)"
| collect: "remote_step name clock r (collect_clocks active r)"
| tables: "remote_step name clock r (on_gossip f r)"
| project: "project_claim valid_key txt now now_ms addr node_id changed verified commit dns r = Some (locs, r')
    \<Longrightarrow> remote_step name clock r r'"
| displaced: "remote_step name clock r (drop_displaced x r)"
| rollback: "\<forall>loc. (name, Some loc) \<notin> set (known_actor_locations snap)
    \<Longrightarrow> remote_step name clock r (snd (restore_inbound_claim_projection addr candidate snap r))"
| forget: "remote_step name clock r (forget_known n r)"
| register: "n \<noteq> name \<Longrightarrow> remote_step name clock r (snd (register_commit n loc prio r))"
| unregister_remove: "remote_step name clock r (snd (unregister_remove n r))"
| unregister_commit: "n \<noteq> name \<Longrightarrow> remote_step name clock r (snd (unregister_commit now n loc r))"
| shut: "remote_step name clock r (r\<lparr>reg_shutdown := True\<rparr>)"
| shut_local: "remote_step name clock r (clear_local r)"
| shut_known: "remote_step name clock r (clear_known r)"

lemma buried_shutdown:
  "buried name clock (r\<lparr>reg_shutdown := b\<rparr>) = buried name clock r"
  "buried name clock r \<Longrightarrow> buried name clock (clear_local r)"
  "buried name clock r \<Longrightarrow> buried name clock (clear_known r)"
  "n \<noteq> name \<Longrightarrow> buried name clock (remove_tombstone_of n r) = buried name clock r"
  by (simp_all add: buried_def clear_local_def clear_known_def on_actors_def remove_tombstone_of_def)

lemma remote_step_buried: "remote_step name clock r r' \<Longrightarrow> buried name clock r \<Longrightarrow> buried name clock r'"
proof (induction rule: remote_step.induct)
  case delta
  then show ?case by (intro buried_apply_delta)
next
  case sync_finish
  then show ?case by (intro buried_finish_full_sync)
next
  case reap
  then show ?case by (rule buried_reap [rotated])
next
  case bounds
  then show ?case by (rule buried_enforce_bounds [rotated])
next
  case project
  then show ?case by (simp add: buried_project_claim)
next
  case rollback
  then show ?case by (intro buried_restore)
qed (simp_all add: buried_begin_full_sync buried_remove_expired buried_collect buried_drop_displaced
    buried_local_operations buried_shutdown)

lemma remote_steps_buried: "(remote_step name clock)\<^sup>*\<^sup>* r r' \<Longrightarrow> buried name clock r \<Longrightarrow> buried name clock r'"
  by (induction rule: rtranclp_induct) (auto intro: remote_step_buried)

lemma bt_wf_increment: "bt_wf c \<Longrightarrow> bt_wf (vc_increment n c)"
  by (simp add: vc_increment_def bt_wf_insert)

lemma unregister_commit_maps:
  assumes "unregister_commit now name loc r = (Inr urgent, r1)"
  shows "local_actor r1 name = local_actor r name" "known_actor r1 name = known_actor r name"
    "removed_actor r1 name = Some (new_explicit_unregister_by_owner now
       (vc_increment (self_node_id r) (loc_clock loc)) (self_node_id r))"
  using assms by (auto simp: unregister_commit_def Let_def directory_defs split: if_splits)

lemma unregister_buries:
  assumes "unregister_commit now name loc r = (Inr urgent, r1)" and "bt_wf (loc_clock loc)"
    and "local_actor r name = None" "known_actor r name = None"
  shows "buried name (vc_increment (self_node_id r) (loc_clock loc)) r1"
  using assms(3,4) bt_wf_increment [OF assms(2)]
  by (simp add: buried_def unregister_commit_maps [OF assms(1)] new_explicit_unregister_by_owner_def
      with_kind_and_owner_def vc_le_def)

lemma buried_not_found: "buried name clock r \<Longrightarrow> lookup_actor owner_connected now name r = None"
  by (simp add: buried_def lookup_actor_def)

text \<open>Examples for the statements below: an encoder, a configuration and a record.\<close>

definition ex_config :: GossipConfig where
  "ex_config = \<lparr>max_known_actors = 4, max_known_actors_per_peer = 2, max_message_size = 4096,
     actor_ttl = 86400, vector_clock_retention_period = 7200, max_peer_failures = 2,
     max_delta_history = 100, full_sync_interval = 50, max_vector_clock_size = 1000,
     small_cluster_threshold = 5, max_peers = 1\<rparr>"

definition ex_location :: "PeerId \<Rightarrow> GossipNodeId \<Rightarrow> VectorClock \<Rightarrow> RemoteActorLocation" where
  "ex_location peer node clock =
     \<lparr>address = ''h'', loc_peer_id = peer, loc_node_id = node, loc_clock = clock, wall_clock_time = 7,
      loc_priority = Normal, local_registration_time = 0, metadata = []\<rparr>"

definition ex_delta :: "PeerId \<Rightarrow> RegistryChange list \<Rightarrow> RegistryDelta" where
  "ex_delta sender changes =
     \<lparr>since_sequence = 0, current_sequence = 1, delta_changes = changes, delta_sender_peer_id = sender,
      delta_wall_clock_time = 0, precise_timing_nanos = 0\<rparr>"

definition ex_text :: addr_text where
  "ex_text = \<lparr>addr_parse = (\<lambda>_. None), addr_show = (\<lambda>_. ''h'')\<rparr>"

definition ex_registered :: GossipRegistry where
  "ex_registered = snd (register_actor_with_priority (\<lambda>_. Inr []) 9 ''a''
     (ex_location (PeerId [1]) (PublicKey [1]) []) Normal (empty_registry (PeerId [1]) ex_config))"

lemmas register_run = register_actor_with_priority_def register_reflected_def register_prepare_def
  register_commit_def forget_known_def release_admission_def Let_def ensure_solo_change_fits_def bind_res_def
  reject_oversize_for_inline_send_def try_charge_compact_snapshot_def directory_defs
  mark_routing_changed_for_actor_def mark_routing_changed_with_pubsub_def compact_record_charge_def
  empty_registry_def ex_config_def saturating_add_def saturating_mul_def USIZE_MAX_def vc_len_def
  GOSSIP_HEADER_LEN_def GOSSIP_MESSAGE_SIZE_SLACK_def

lemma ex_registered_commit:
  "ex_registered = snd (register_commit ''a'' (registered_location 9 ''a''
     (ex_location (PeerId [1]) (PublicKey [1]) []) Normal (empty_registry (PeerId [1]) ex_config)) Normal
     (empty_registry (PeerId [1]) ex_config))"
  by (simp add: ex_registered_def register_actor_with_priority_def register_reflected_def register_prepare_def
      ensure_solo_change_fits_def bind_res_def reject_oversize_for_inline_send_def Let_def empty_registry_def
      ex_config_def GOSSIP_HEADER_LEN_def saturating_add_def USIZE_MAX_def)

lemma ex_registered_reachable: "(dir_step False)\<^sup>*\<^sup>* (empty_registry (PeerId [1]) ex_config) ex_registered"
proof -
  have charge: "compact_record_charge ''a'' (registered_location 9 ''a''
      (ex_location (PeerId [1]) (PublicKey [1]) []) Normal (empty_registry (PeerId [1]) ex_config)) = 114"
    by (simp add: compact_record_charge_def registered_location_def ex_location_def empty_registry_def
        saturating_add_def saturating_mul_def USIZE_MAX_def vc_len_def vc_increment_def)
  have "dir_step False (empty_registry (PeerId [1]) ex_config) ex_registered"
    unfolding ex_registered_commit
    by (rule dir_step.register) (simp only: charge, simp add: room_def empty_registry_def
        GOSSIP_MESSAGE_SIZE_SLACK_def USIZE_MAX_def)
  then show ?thesis by blast
qed

lemma ex_registered_local:
  "local_actor ex_registered ''a'' = Some (registered_location 9 ''a''
     (ex_location (PeerId [1]) (PublicKey [1]) []) Normal (empty_registry (PeerId [1]) ex_config))"
  by (simp add: ex_registered_def register_run registered_location_def ex_location_def vc_increment_def)

lemma ex_registered_open: "\<not> reg_shutdown ex_registered"
  by (simp add: ex_registered_def register_run registered_location_def ex_location_def vc_increment_def)

lemma ex_registered_self: "self_node_id ex_registered = PublicKey [1]"
  by (simp add: ex_registered_def register_run registered_location_def ex_location_def vc_increment_def self_node_id_def)

text \<open>The part of the state on which conflict resolution depends.\<close>

definition actor_maps ::
  "GossipRegistry \<Rightarrow> PeerId \<times> (string \<rightharpoonup> RemoteActorLocation) \<times> (string \<rightharpoonup> RemoteActorLocation) \<times> (string \<rightharpoonup> RemovedActorTombstone)" where
  "actor_maps r = (reg_peer_id r, local_actor r, known_actor r, removed_actor r)"

lemma store_remote_maps [simp]:
  "reg_peer_id (store_remote p name loc clear r) = reg_peer_id r"
  "local_actor (store_remote p name loc clear r) = local_actor r"
  "known_actor (store_remote p name loc clear r) = (known_actor r)(name \<mapsto> loc)"
  by (cases clear; simp add: store_remote_def directory_defs)+

subsection \<open>Reaps that panic\<close>

definition reap_panics ::
  "(byte list \<Rightarrow> bool) \<Rightarrow> addr_text \<Rightarrow> SocketAddr \<Rightarrow> PeerInfo option \<Rightarrow> GossipRegistry \<Rightarrow> string \<Rightarrow> bool" where
  "reap_panics valid_key txt addr info r name \<longleftrightarrow>
     (\<exists>loc. known_actor r name = Some loc \<and> actor_location_belongs_to_peer valid_key txt loc addr info = None)"

lemma reap_actor_None: "reap_actor valid_key txt now addr info name (r, u) = None \<longleftrightarrow> reap_panics valid_key txt addr info r name"
  by (auto simp: reap_actor_def reap_panics_def Let_def split: option.splits bool.splits)

lemma reap_actor_others:
  assumes "reap_actor valid_key txt now addr info name (r, u) = Some (r', u')" "n \<noteq> name"
  shows "known_actor r' n = known_actor r n"
  using assms
  by (auto simp: reap_actor_def Let_def release_known_def directory_defs split: option.splits bool.splits)

lemma fold_reap_None:
  "distinct names \<Longrightarrow> fold_opt (reap_actor valid_key txt now addr info) names (r, u) = None
   \<longleftrightarrow> (\<exists>name \<in> set names. reap_panics valid_key txt addr info r name)"
proof (induction names arbitrary: r u)
  case (Cons name names)
  show ?case
  proof (cases "reap_actor valid_key txt now addr info name (r, u)")
    case None
    moreover have "reap_panics valid_key txt addr info r name" using None by (simp only: reap_actor_None)
    ultimately show ?thesis by simp
  next
    case (Some s)
    obtain r' u' where s: "s = (r', u')" by fastforce
    have "reap_panics valid_key txt addr info r' n = reap_panics valid_key txt addr info r n" if "n \<in> set names" for n
    proof -
      have "n \<noteq> name" using that Cons.prems by auto
      then show ?thesis using reap_actor_others [OF Some [unfolded s]] by (simp add: reap_panics_def)
    qed
    moreover have "\<not> reap_panics valid_key txt addr info r name" using Some reap_actor_None [of valid_key "txt" now addr info name r u] by simp
    ultimately show ?thesis using Some s Cons by simp
  qed
qed simp

lemma belongs_None:
  "actor_location_belongs_to_peer valid_key txt loc addr info = None \<longleftrightarrow>
     (\<exists>node. Option.bind info pi_node_id = Some node \<and> loc_node_id loc \<noteq> node
       \<and> \<not> (length (peer_bytes (loc_peer_id loc)) = 32 \<and> valid_key (peer_bytes (loc_peer_id loc))))"
  by (auto simp: actor_location_belongs_to_peer_def to_node_id_def PublicKey_from_bytes_def
      split: option.split sum.split if_splits)

subsection \<open>Evictions\<close>

text \<open>A name without admission and charge.\<close>

definition uncharged :: "string \<Rightarrow> GossipRegistry \<Rightarrow> bool" where
  "uncharged name r \<longleftrightarrow>
     actor_admission_peer_by_name (gossip_state r) name = None
     \<and> map_of (compact_charge_by_name (gossip_state r)) name = None"

text \<open>
  A record that stays while its admission, by a peer with an entry, is released: it is relayed by
  that peer, and no peer with an entry is its owner.
\<close>

definition relayed ::
  "(byte list \<Rightarrow> bool) \<Rightarrow> SocketAddr \<Rightarrow> PeerId \<Rightarrow> string \<Rightarrow> RemoteActorLocation \<Rightarrow> GossipRegistry \<Rightarrow> bool" where
  "relayed valid_key addr p name loc r \<longleftrightarrow>
     known_actor r name = Some loc
     \<and> (\<forall>a info. map_of (peers (gossip_state r)) a = Some info
          \<longrightarrow> Option.bind (pi_node_id info) (to_peer_id valid_key) \<noteq> Some (loc_peer_id loc))
     \<and> (uncharged name r
        \<or> actor_admission_peer_by_name (gossip_state r) name = Some p
          \<and> Option.bind (Option.bind (map_of (peers (gossip_state r)) addr) pi_node_id) (to_peer_id valid_key) = Some p
          \<and> (\<exists>names. peer_to_actors (gossip_state r) addr = Some names \<and> finite names \<and> name \<in> names))"

lemma release_fields [simp]:
  "peers (release_actor_admission n s) = peers s"
  "peer_to_actors (release_actor_admission n s) = peer_to_actors s"
  by (simp_all add: release_actor_admission_def release_compact_snapshot_def split: option.split)

lemma evict_actor_tables [simp]:
  "peers (gossip_state (evict_actor q n r)) = peers (gossip_state r)"
  "peer_to_actors (gossip_state (evict_actor q n r)) = peer_to_actors (gossip_state r)"
  by (simp_all add: evict_actor_def Let_def on_gossip_def remove_known_def on_actors_def)

lemma evict_actors_tables [simp]:
  "peers (gossip_state (fold (evict_actor q) ns r)) = peers (gossip_state r)"
  "peer_to_actors (gossip_state (fold (evict_actor q) ns r)) = peer_to_actors (gossip_state r)"
  by (induction ns arbitrary: r) simp_all

lemma evict_actor_known:
  assumes "known_actor r name = Some loc" "q \<noteq> Some (loc_peer_id loc)"
  shows "known_actor (evict_actor q n r) name = Some loc"
  using assms by (auto simp: evict_actor_def Let_def directory_defs AList.delete_conv')

lemma release_at:
  "actor_admission_peer_by_name (release_actor_admission n s) name
     = (if n = name then None else actor_admission_peer_by_name s name)"
  "map_of (compact_charge_by_name (release_actor_admission n s)) name
     = (if n = name \<and> actor_admission_peer_by_name s n \<noteq> None then None else map_of (compact_charge_by_name s) name)"
  by (auto simp: release_actor_admission_def release_compact_snapshot_def AList.delete_conv'
      split: option.split)

lemma evict_actor_uncharged: "uncharged name r \<Longrightarrow> uncharged name (evict_actor q n r)"
  by (auto simp: uncharged_def evict_actor_def Let_def on_gossip_def release_at remove_known_def on_actors_def)

lemma evict_actor_admitted:
  assumes "actor_admission_peer_by_name (gossip_state r) name = Some p"
  shows "actor_admission_peer_by_name (gossip_state (evict_actor q n r)) name = Some p
     \<and> (q = Some p \<longrightarrow> n \<noteq> name) \<or> uncharged name (evict_actor q n r)"
  using assms
  by (auto simp: uncharged_def evict_actor_def Let_def on_gossip_def release_at remove_known_def on_actors_def)

lemma evict_actors:
  assumes "known_actor r name = Some loc" "q \<noteq> Some (loc_peer_id loc)"
    and "uncharged name r \<or> actor_admission_peer_by_name (gossip_state r) name = Some p"
  shows "known_actor (fold (evict_actor q) ns r) name = Some loc
    \<and> (uncharged name (fold (evict_actor q) ns r)
       \<or> actor_admission_peer_by_name (gossip_state r) name = Some p
         \<and> actor_admission_peer_by_name (gossip_state (fold (evict_actor q) ns r)) name = Some p
         \<and> (q = Some p \<longrightarrow> name \<notin> set ns))"
  using assms
proof (induction ns arbitrary: r)
  case (Cons n ns)
  have "uncharged name (evict_actor q n r)
      \<or> actor_admission_peer_by_name (gossip_state (evict_actor q n r)) name = Some p"
    using Cons.prems(3) evict_actor_uncharged evict_actor_admitted by blast
  from Cons.IH [OF evict_actor_known [OF Cons.prems(1,2)] Cons.prems(2) this] show ?case
    using Cons.prems(3) evict_actor_admitted [of r name p q n] evict_actor_uncharged [of name r q n]
    by (auto simp: uncharged_def)
qed auto

lemma relayed_evict_peer:
  assumes rel: "relayed valid_key addr p name loc (fst s)" and ev: "evict_peer valid_key a s = Some s'"
  shows "relayed valid_key addr p name loc (fst s')"
proof -
  obtain r owners where s: "s = (r, owners)" by fastforce
  let ?q = "Option.bind (Option.bind (map_of (peers (gossip_state r)) a) pi_node_id) (to_peer_id valid_key)"
  let ?ns = "sorted_list_of_set (case peer_to_actors (gossip_state r) a of Some names \<Rightarrow> names | None \<Rightarrow> {})"
  let ?r1 = "on_gossip (\<lambda>s. s\<lparr>peers := AList.delete a (peers s), peer_to_actors := (peer_to_actors s)(a := None)\<rparr>) r"
  have r': "fst s' = fold (evict_actor ?q) ?ns ?r1"
    using ev by (auto simp: s evict_peer_def Let_def split: if_splits)
  have known: "known_actor ?r1 name = Some loc" using rel s by (simp add: relayed_def)
  have q: "?q \<noteq> Some (loc_peer_id loc)"
    using rel s by (cases "map_of (peers (gossip_state r)) a") (auto simp: relayed_def)
  have adm: "uncharged name ?r1 \<or> actor_admission_peer_by_name (gossip_state ?r1) name = Some p"
    using rel s by (auto simp: relayed_def uncharged_def on_gossip_def)
  show ?thesis
    using evict_actors [OF known q adm, of ?ns] rel
    by (auto simp: relayed_def r' s on_gossip_def AList.delete_conv' uncharged_def)
qed

lemma relayed_enforce_bounds:
  assumes "relayed valid_key addr p name loc r" "enforce_bounds valid_key is_exempt r = Some (r', owners)"
  shows "relayed valid_key addr p name loc r'"
proof -
  have "relayed valid_key addr p name loc (on_gossip (\<lambda>s. s\<lparr>pending_changes := f s, urgent_changes := g s,
      delta_history := h s\<rparr>) r)" for f g h
    using assms(1) by (simp add: relayed_def uncharged_def on_gossip_def)
  moreover have "fold_opt (evict_peer valid_key) xs s = Some s' \<Longrightarrow> relayed valid_key addr p name loc (fst s)
      \<Longrightarrow> relayed valid_key addr p name loc (fst s')" for xs s s'
    by (rule fold_opt_invariant [where P = "\<lambda>s. relayed valid_key addr p name loc (fst s)"])
      (auto intro: relayed_evict_peer)
  ultimately show ?thesis
    using assms(2) by (fastforce simp: enforce_bounds_def Let_def split: if_splits)
qed

subsection \<open>Examples\<close>

text \<open>
  Two peers are known by address; the first one relays an actor of a third node. The key bytes of
  that node are the invalid ones where an example needs it.
\<close>

definition ex_key :: "byte \<Rightarrow> byte list" where "ex_key b = replicate 32 b"

definition ex_start :: GossipRegistry where
  "ex_start =
     on_gossip (put_peer (SocketAddrV4 1 1) (skeleton 0 0 (SocketAddrV4 1 1) (Some (PublicKey (ex_key 2)))))
       (on_gossip (put_peer (SocketAddrV4 2 2) (PeerInfo_local 5 0 (SocketAddrV4 2 2)))
         (empty_registry (PeerId (ex_key 1)) ex_config))"

definition ex_relay :: "RegistryDelta" where
  "ex_relay = ex_delta (PeerId (ex_key 2))
     [ActorAdded ''a'' (ex_location (PeerId (ex_key 3)) (PublicKey (ex_key 3)) [(PublicKey (ex_key 3), 1)]) Normal]"

definition ex_relayed :: GossipRegistry where
  "ex_relayed = snd (apply_delta_from (\<lambda>_. Inr []) ex_text 8 (Some (SocketAddrV4 1 1)) ex_relay None None ex_start)"

lemma ex_key_simps [simp]: "ex_key a = ex_key b \<longleftrightarrow> a = b" "length (ex_key b) = 32"
  by (simp_all add: ex_key_def)

lemma apply_single_delta:
  assumes "admits_remote enc (delta_sender_peer_id delta) False name
      (delta_location txt (Some addr) (delta_sender_peer_id delta) loc) r = Some (clear, g)"
    and "delta_changes delta = [ActorAdded name loc prio]"
    and "peer_to_actors (gossip_state r) addr = None"
  shows "snd (apply_delta_from enc txt now (Some addr) delta None None r) =
    mark_routing_changed_with_pubsub (is_interest_actor_name name)
      (on_gossip (\<lambda>s. s\<lparr>peer_to_actors := (peer_to_actors s)(addr \<mapsto> {name})\<rparr>)
        (store_remote (delta_sender_peer_id delta) name
          (delta_location txt (Some addr) (delta_sender_peer_id delta) loc) clear (r\<lparr>gossip_state := g\<rparr>)))"
  using assms
  by (auto simp: apply_delta_from_def Let_def apply_added_def admits_remote_def dest: upsert_plan_Some(3)
      split: option.splits if_splits)

lemma ex_start_admits:
  "admits_remote (\<lambda>_. Inr []) (delta_sender_peer_id ex_relay) False ''a''
      (delta_location ex_text (Some (SocketAddrV4 1 1)) (delta_sender_peer_id ex_relay)
        (ex_location (PeerId (ex_key 3)) (PublicKey (ex_key 3)) [(PublicKey (ex_key 3), 1)])) ex_start
      = Some (False, (gossip_state ex_start)
          \<lparr>compact_admission_bytes := 1138, compact_charge_by_name := [(''a'', 114)]\<rparr>)"
  by (simp add: admits_remote_def peer_capped_def actor_admission_count_def current_actor_upsert_plan_def
      charge_remote_def ex_start_def ex_relay_def put_peer_def delta_location_def ex_delta_def ex_location_def
      ex_text_def register_run)

lemma ex_relayed_eq:
  "ex_relayed = mark_routing_changed_with_pubsub (is_interest_actor_name ''a'')
      (on_gossip (\<lambda>s. s\<lparr>peer_to_actors := (peer_to_actors s)(SocketAddrV4 1 1 \<mapsto> {''a''})\<rparr>)
        (store_remote (PeerId (ex_key 2)) ''a''
          ((ex_location (PeerId (ex_key 3)) (PublicKey (ex_key 3)) [(PublicKey (ex_key 3), 1)])\<lparr>address := ''h''\<rparr>) False
          (ex_start\<lparr>gossip_state := (gossip_state ex_start)\<lparr>compact_admission_bytes := 1138,
            compact_charge_by_name := [(''a'', 114)]\<rparr>\<rparr>)))"
proof -
  have "peer_to_actors (gossip_state ex_start) (SocketAddrV4 1 1) = None"
    by (simp add: ex_start_def put_peer_def on_gossip_def empty_registry_def)
  moreover have "delta_location ex_text repair p loc = loc\<lparr>address := ''h''\<rparr>" for repair p loc
    by (simp add: delta_location_def Let_def ex_text_def)
  ultimately show ?thesis
    using apply_single_delta [OF ex_start_admits, of Normal 8]
    by (simp add: ex_relayed_def ex_relay_def ex_delta_def)
qed

lemma ex_relayed_eqs:
  "known_actor ex_relayed = [''a'' \<mapsto> (ex_location (PeerId (ex_key 3)) (PublicKey (ex_key 3)) [(PublicKey (ex_key 3), 1)])\<lparr>address := ''h''\<rparr>]"
  "reg_config ex_relayed = ex_config"
  "peer_to_actors (gossip_state ex_relayed) = [SocketAddrV4 1 1 \<mapsto> {''a''}]"
  "peers (gossip_state ex_relayed) =
     [(SocketAddrV4 2 2, PeerInfo_local 5 0 (SocketAddrV4 2 2)),
      (SocketAddrV4 1 1, skeleton 0 0 (SocketAddrV4 1 1) (Some (PublicKey (ex_key 2))))]"
  "actor_admission_peer_by_name (gossip_state ex_relayed) = [''a'' \<mapsto> PeerId (ex_key 2)]"
  "compact_charge_by_name (gossip_state ex_relayed) = [(''a'', 114)]"
  "ownership_commit_seq (gossip_state ex_relayed) = []"
  by (simp_all add: ex_relayed_eq mark_routing_changed_with_pubsub_def store_remote_def directory_defs
      ex_start_def put_peer_def empty_registry_def record_actor_admission_def Let_def)

end
