(* ===== verification/Directory_Properties.thy ===== *)
theory Directory_Properties
  imports Directory_Removal
begin

text \<open>The properties of the actor directory.\<close>

text \<open>
  C34. However the sections of registrations, unregistrations, received deltas and full syncs,
  reaps, evictions, expiry, claims on addresses, their rollbacks and the shutdown interleave: the
  names counted for a peer are exactly those whose admission names it, and the running total of
  the compact snapshot is the fixed overhead and the sum of the charges. As long as no rejected claim
  is rolled back, the remote actors and each peer's admissions are within the configured caps and
  no remote record names this node as its host; and until the shutdown no name is both local and
  remote.
\<close>

theorem directory_well_formed:
  assumes "(dir_step rollbacks)\<^sup>*\<^sup>* (empty_registry peer_id config) r"
  shows "(\<forall>p. actor_admission_count (gossip_state r) p
            = card {n. actor_admission_peer_by_name (gossip_state r) n = Some p})
    \<and> (\<forall>p n. n \<in> admitted (gossip_state r) p \<longleftrightarrow> actor_admission_peer_by_name (gossip_state r) n = Some p)
    \<and> compact_admission_bytes (gossip_state r)
        = GOSSIP_MESSAGE_SIZE_SLACK + val_sum id (compact_charge_by_name (gossip_state r))
    \<and> (\<not> rollbacks \<longrightarrow>
         length (known_actors (actor_state r)) \<le> max_known_actors (reg_config r)
         \<and> (\<forall>p. actor_admission_count (gossip_state r) p \<le> max_known_actors_per_peer (reg_config r))
         \<and> (\<forall>n loc. known_actor r n = Some loc \<longrightarrow> loc_peer_id loc \<noteq> reg_peer_id r)
         \<and> (\<not> reg_shutdown r \<longrightarrow> dom (local_actor r) \<inter> dom (known_actor r) = {}))"
proof -
  have inv: "dir_inv rollbacks 0 r" using directory.inv_reachable [OF assms] .
  then have adm: "\<forall>p n. n \<in> admitted (gossip_state r) p \<longleftrightarrow> actor_admission_peer_by_name (gossip_state r) n = Some p"
    by (simp add: dir_inv_def accounts_def)
  then have "{n. actor_admission_peer_by_name (gossip_state r) n = Some p} = admitted (gossip_state r) p" for p by auto
  moreover have "dom (local_actor r) \<inter> dom (known_actor r) = {}" if "\<not> rollbacks" "\<not> reg_shutdown r"
    using inv that by (auto simp: dir_inv_def dir_caps_def)
  ultimately show ?thesis
    using inv adm by (simp add: dir_inv_def dir_caps_def accounts_def within_caps_def actor_admission_count_eq) blast
qed

theorem directory_well_formed_witness:
  "\<not> reg_shutdown ex_registered \<and> local_actor ex_registered ''a'' \<noteq> None \<and> known_actor ex_registered ''a'' = None
   \<and> actor_admission_count (gossip_state ex_registered) (PeerId [2]) \<le> 2"
proof -
  have "reg_config ex_registered = ex_config"
    by (simp add: ex_registered_def register_run registered_location_def ex_location_def vc_increment_def)
  then show ?thesis
    using directory_well_formed [OF ex_registered_reachable] ex_registered_local ex_registered_open
    by (auto simp: ex_config_def)
qed










text \<open>
  C36. Reaping the actors of a dead peer panics exactly if one of the names filed under its
  address is stored with a node other than the peer's and a peer identity whose bytes are no
  valid key: the code converts that identity with \<open>expect\<close>, and nothing validates it when the
  record is received.
\<close>

theorem reap_panics_on_invalid_key:
  assumes "peer_to_actors (gossip_state r) addr = Some names" and "finite names"
  shows "reap_peer_actors valid_key txt now addr r = None \<longleftrightarrow>
    (\<exists>name \<in> names. \<exists>loc node. known_actor r name = Some loc
       \<and> Option.bind (map_of (peers (gossip_state r)) addr) pi_node_id = Some node
       \<and> loc_node_id loc \<noteq> node
       \<and> \<not> (length (peer_bytes (loc_peer_id loc)) = 32 \<and> valid_key (peer_bytes (loc_peer_id loc))))"
proof -
  have "reap_peer_actors valid_key txt now addr r = None \<longleftrightarrow>
      (\<exists>name \<in> names. reap_panics valid_key txt addr (map_of (peers (gossip_state r)) addr) r name)"
    using assms fold_reap_None [of "sorted_list_of_set names"] by (simp add: reap_peer_actors_def Let_def)
  then show ?thesis by (auto simp: reap_panics_def belongs_None)
qed

theorem reap_panics_on_invalid_key_witness:
  "reap_peer_actors (\<lambda>bytes. bytes \<noteq> ex_key 3) ex_text 99 (SocketAddrV4 1 1)
     (snd (apply_delta_from (\<lambda>_. Inr []) ex_text 8 (Some (SocketAddrV4 1 1)) ex_relay None None ex_start)) = None"
  using reap_panics_on_invalid_key [of ex_relayed "SocketAddrV4 1 1" "{''a''}" "\<lambda>bytes. bytes \<noteq> ex_key 3" ex_text 99]
  by (simp add: ex_relayed_eqs skeleton_def ex_location_def flip: ex_relayed_def)

lemma single_change:
  assumes "delta_changes delta = [c]"
  shows "\<exists>run. actor_maps (snd (apply_delta_from enc txt now None delta None None r))
    = actor_maps (fst (apply_change enc txt now None (delta_sender_peer_id delta) False c (r, run)))"
  using assms
  by (auto simp: apply_delta_from_def Let_def case_prod_beta actor_maps_def mark_routing_changed_with_pubsub_def
      on_actors_def)

text \<open>
  C37. The same two deltas, an announcement of an actor by its owner and a concurrent removal by
  another node, lead to different directories when they arrive in different orders, wherever the
  removal loses the tie-break and its clock counts the owner's component: the tie-break decides
  if the announcement comes first, while a removal that comes first always wins.
\<close>

theorem delivery_order_decides:
  assumes "local_actor r name = None" "known_actor r name = None" "removed_actor r name = None"
    and "delta_changes announce = [ActorAdded name loc prio]"
    and "delta_changes remove = [ActorRemoved name clock remover prio']"
    and "admits_remote enc (delta_sender_peer_id announce) False name
      (delta_location txt None (delta_sender_peer_id announce) loc) r = Some (clear, g)"
    and "vc_compare clock (loc_clock loc) = CO_Concurrent"
    and "\<not> stable_concurrent_removal_wins remover clock loc"
    and "vc_get (loc_clock loc) (loc_node_id loc) \<le> vc_get clock (loc_node_id loc)"
  shows "let receive = (\<lambda>delta r. snd (apply_delta_from enc txt now None delta None None r))
    in known_actor (receive remove (receive announce r)) name \<noteq> None
     \<and> known_actor (receive announce (receive remove r)) name = None"
proof -
  let ?loc = "delta_location txt None (delta_sender_peer_id announce) loc"
  let ?receive = "\<lambda>delta r. snd (apply_delta_from enc txt now None delta None None r)"
  have loc: "loc_clock ?loc = loc_clock loc" "loc_node_id ?loc = loc_node_id loc"
    by (simp_all add: delta_location_def Let_def)
  have loses: "\<not> stable_concurrent_removal_wins remover clock ?loc"
    using assms(8) unfolding stable_concurrent_removal_wins_def loc .
  have a: "actor_maps (?receive announce r) = actor_maps (store_remote (delta_sender_peer_id announce) name ?loc clear (r\<lparr>gossip_state := g\<rparr>))"
    using single_change [OF assms(4), of enc "txt" now r] assms(6) by (auto simp: apply_added_eq)
  have "current_actor_removal_plan r1 name clock remover = None" if "actor_maps r1 = actor_maps (?receive announce r)" for r1
    using that a assms(1,7,8) loc
    by (simp add: actor_maps_def current_actor_removal_plan_def loses)
  then have 1: "actor_maps (?receive remove (?receive announce r)) = actor_maps (?receive announce r)"
    using single_change [OF assms(5), of enc "txt" now "?receive announce r"] by (auto simp: apply_removed_def)
  have plan: "current_actor_removal_plan r name clock remover = Some (clock, True)"
    using assms(1-3) by (simp add: current_actor_removal_plan_def)
  have b: "actor_maps (?receive remove r)
      = actor_maps (upsert_tombstone name (with_kind_and_owner now clock Unknown None) r)"
    using single_change [OF assms(5), of enc "txt" now r] plan assms(2,3)
    by (auto simp: apply_removed_def Let_def removal_kind_def removal_owner_def merge_tombstone_kind_def
        actor_maps_def on_gossip_def)
  have conc: "vc_compare (loc_clock loc) clock \<noteq> CO_After"
    using assms(7) by (auto simp: vc_compare_eq split: if_splits)
  have "\<not> owner_recovery_wins_tombstone ?loc p (with_kind_and_owner now clock Unknown None) False" for p
    using assms(9) by (auto simp: owner_recovery_wins_tombstone_def Let_def loc with_kind_and_owner_def)
  then have "current_actor_upsert_plan r1 name ?loc p False = None" if "actor_maps r1 = actor_maps (?receive remove r)" for r1 p
    using that b conc
    by (simp add: actor_maps_def current_actor_upsert_plan_def upsert_tombstone_def on_actors_def loc)
      (simp add: with_kind_and_owner_def)
  then have 2: "actor_maps (?receive announce (?receive remove r)) = actor_maps (?receive remove r)"
    using single_change [OF assms(4), of enc "txt" now "?receive remove r"] by (auto simp: apply_added_def)
  show ?thesis
    using 1 2 a b assms(2) by (simp add: actor_maps_def upsert_tombstone_def on_actors_def)
qed

theorem delivery_order_decides_witness:
  "let node = (\<lambda>b. PublicKey [b]);
       announce = ex_delta (PeerId [2]) [ActorAdded ''a'' (ex_location (PeerId [2]) (node 2) [(node 2, 1), (node 4, 1)]) Normal];
       remove = ex_delta (PeerId [3]) [ActorRemoved ''a'' [(node 2, 1), (node 3, 1)] (node 3) Normal];
       receive = (\<lambda>delta r. snd (apply_delta_from (\<lambda>_. Inr []) ex_text 8 None delta None None r));
       start = empty_registry (PeerId [1]) ex_config
   in known_actor (receive remove (receive announce start)) ''a'' \<noteq> None
    \<and> known_actor (receive announce (receive remove start)) ''a'' = None"
proof -
  let ?node = "\<lambda>b. PublicKey [b]"
  let ?loc = "ex_location (PeerId [2]) (?node 2) [(?node 2, 1), (?node 4, 1)]"
  let ?start = "empty_registry (PeerId [1]) ex_config"
  have admits: "admits_remote (\<lambda>_. Inr []) (delta_sender_peer_id (ex_delta (PeerId [2]) [ActorAdded ''a'' ?loc Normal])) False ''a''
      (delta_location ex_text None (delta_sender_peer_id (ex_delta (PeerId [2]) [ActorAdded ''a'' ?loc Normal])) ?loc) ?start
      = Some (False, (gossip_state ?start)\<lparr>compact_admission_bytes := 1186, compact_charge_by_name := [(''a'', 162)]\<rparr>)"
    by (simp add: admits_remote_def peer_capped_def actor_admission_count_def current_actor_upsert_plan_def
        charge_remote_def delta_location_def ex_delta_def ex_location_def ex_text_def register_run)
  have less: "?node 2 < ?node 3" "?node 2 < ?node 4" "?node 3 < ?node 4"
    by (simp_all add: less_PublicKey_def)
  have "vc_compare [(?node 2, 1), (?node 3, 1)] (loc_clock ?loc) = CO_Concurrent"
    by (auto simp: vc_compare_eq vc_le_def vc_get_def bt_get_def ex_location_def)
  moreover have "\<not> stable_concurrent_removal_wins (?node 3) [(?node 2, 1), (?node 3, 1)] ?loc"
    using less by (simp add: stable_concurrent_removal_wins_def ex_location_def vc_to_vec_def)
  moreover have "vc_get (loc_clock ?loc) (loc_node_id ?loc) \<le> vc_get [(?node 2, 1), (?node 3, 1)] (loc_node_id ?loc)"
    by (simp add: vc_get_def bt_get_def ex_location_def)
  ultimately show ?thesis
    using delivery_order_decides [OF _ _ _ _ _ admits, of Normal
        "ex_delta (PeerId [3]) [ActorRemoved ''a'' [(?node 2, 1), (?node 3, 1)] (?node 3) Normal]"
        "[(?node 2, 1), (?node 3, 1)]" "?node 3" Normal 8]
    by (simp add: Let_def empty_registry_def) (simp add: ex_delta_def)
qed

text \<open>
  C38. When the bound on the peers evicts a peer, an actor that was admitted for it and is filed
  under its address, but whose owner is a node without an entry in the peer table, stays in the
  directory while its admission and its charge are released: it counts against no peer's cap and
  not towards the snapshot size any more.
\<close>

theorem eviction_uncharges_relayed_actor:
  assumes "enforce_bounds valid_key is_exempt r = Some (r', owners)"
    and "map_of (peers (gossip_state r)) addr = Some info" and "map_of (peers (gossip_state r')) addr = None"
    and "pi_node_id info = Some node" and "to_peer_id valid_key node = Some p"
    and "peer_to_actors (gossip_state r) addr = Some names" and "finite names" and "name \<in> names"
    and "actor_admission_peer_by_name (gossip_state r) name = Some p"
    and "known_actor r name = Some loc"
    and "\<forall>a i. map_of (peers (gossip_state r)) a = Some i
           \<longrightarrow> Option.bind (pi_node_id i) (to_peer_id valid_key) \<noteq> Some (loc_peer_id loc)"
  shows "known_actor r' name = Some loc
    \<and> actor_admission_peer_by_name (gossip_state r') name = None
    \<and> map_of (compact_charge_by_name (gossip_state r')) name = None"
proof -
  have "relayed valid_key addr p name loc r" using assms by (simp add: relayed_def)
  then have "relayed valid_key addr p name loc r'" using assms(1) by (rule relayed_enforce_bounds)
  then show ?thesis using assms(3) by (simp add: relayed_def uncharged_def)
qed

definition ex_evicted :: GossipRegistry where
  "ex_evicted = fst (the (enforce_bounds (\<lambda>_. True) (\<lambda>_ _. False) ex_relayed))"

lemma ex_evicted_eqs:
  "enforce_bounds (\<lambda>_. True) (\<lambda>_ _. False) ex_relayed = Some (ex_evicted, [])"
  "map_of (peers (gossip_state ex_evicted)) (SocketAddrV4 1 1) = None"
  by (simp_all add: ex_evicted_def enforce_bounds_def Let_def ex_relayed_eqs select_peers_to_evict_def evict_peer_def
      ex_config_def skeleton_def PeerInfo_local_def on_gossip_def ownership_watermark_def
      to_peer_id_def PeerId_from_bytes_def)

theorem eviction_uncharges_relayed_actor_witness:
  "known_actor ex_evicted ''a'' \<noteq> None
   \<and> map_of (compact_charge_by_name (gossip_state ex_relayed)) ''a'' = Some 114
   \<and> map_of (compact_charge_by_name (gossip_state ex_evicted)) ''a'' = None
   \<and> actor_admission_peer_by_name (gossip_state ex_evicted) ''a'' = None"
proof -
  have "\<forall>a i. map_of (peers (gossip_state ex_relayed)) a = Some i
      \<longrightarrow> Option.bind (pi_node_id i) (to_peer_id (\<lambda>_. True)) \<noteq> Some (PeerId (ex_key 3))"
    by (auto simp: ex_relayed_eqs skeleton_def PeerInfo_local_def to_peer_id_def PeerId_from_bytes_def
        split: if_splits)
  then show ?thesis
    using eviction_uncharges_relayed_actor [OF ex_evicted_eqs(1), of "SocketAddrV4 1 1"
        "skeleton 0 0 (SocketAddrV4 1 1) (Some (PublicKey (ex_key 2)))" "PublicKey (ex_key 2)" "PeerId (ex_key 2)" "{''a''}" "''a''"]
    by (simp add: ex_relayed_eqs ex_evicted_eqs(2) skeleton_def to_peer_id_def PeerId_from_bytes_def ex_location_def)
qed


end
