(* ===== verification/Gossip_Messages.thy ===== *)
theory Gossip_Messages
  imports Actor_Directory
begin

text \<open>
  The gossip messages of \<^verbatim>\<open>src/registry.rs\<close>: the choice between a delta and a full sync, the
  creation of both from the directory, the deduplication of changes, and the splitting of a
  message into payloads that fit the frame limit. The encoder of the crate \<^verbatim>\<open>rkyv\<close> is the
  argument \<open>enc\<close>; the snapshots of the actor tables are association lists.
\<close>

subsection \<open>Deltas\<close>

definition should_use_delta_state :: "GossipRegistry \<Rightarrow> PeerInfo \<Rightarrow> bool" where
  "should_use_delta_state r info =
     (let s = gossip_state r;
          healthy_peers = length (filter (\<lambda>(_, p). failures p < max_peer_failures (reg_config r)) (peers s));
          oldest_available = (case delta_history s of [] \<Rightarrow> gossip_sequence s | d # _ \<Rightarrow> hist_sequence d)
      in if last_sequence info = 0 \<and> gossip_sequence s = 0 then False
         else if healthy_peers + 1 \<le> small_cluster_threshold (reg_config r)
                 \<and> gossip_sequence s \<le> last_sequence info then False
         else if full_sync_interval (reg_config r) \<le> consecutive_deltas info then False
         else if 0 < last_sequence info \<and> last_sequence info < oldest_available then False
         else True)"

definition gossip_message_needs_actor_maps :: "bool \<Rightarrow> u64 \<Rightarrow> bool" where
  "gossip_message_needs_actor_maps use_delta peer_last_sequence \<longleftrightarrow> \<not> use_delta \<or> peer_last_sequence = 0"

fun change_vector_clock :: "RegistryChange \<Rightarrow> VectorClock" where
  "change_vector_clock (ActorAdded _ location _) = loc_clock location"
| "change_vector_clock (ActorRemoved _ clock _ _) = clock"

fun get_change_actor_name :: "RegistryChange \<Rightarrow> string" where
  "get_change_actor_name (ActorAdded name _ _) = name"
| "get_change_actor_name (ActorRemoved name _ _ _) = name"

fun is_removal :: "RegistryChange \<Rightarrow> bool" where
  "is_removal (ActorAdded _ _ _) = False"
| "is_removal (ActorRemoved _ _ _ _) = True"

definition change_wins :: "RegistryChange \<Rightarrow> RegistryChange \<Rightarrow> bool" where
  "change_wins candidate existing =
     (case vc_compare (change_vector_clock candidate) (change_vector_clock existing) of
        CO_After \<Rightarrow> True
      | CO_Before \<Rightarrow> False
      | _ \<Rightarrow> is_removal candidate \<and> \<not> is_removal existing)"

definition dedup_insert :: "RegistryChange \<Rightarrow> (string \<times> RegistryChange) list \<Rightarrow> (string \<times> RegistryChange) list" where
  "dedup_insert change m =
     (case map_of m (get_change_actor_name change) of
        None \<Rightarrow> AList.update (get_change_actor_name change) change m
      | Some existing \<Rightarrow>
          if change_wins change existing then AList.update (get_change_actor_name change) change m else m)"

definition deduplicate_changes :: "RegistryChange list \<Rightarrow> RegistryChange list" where
  "deduplicate_changes changes = map snd (sort_key fst (fold dedup_insert changes []))"

definition actor_pairs_to_normal_changes :: "actor_pairs \<Rightarrow> RegistryChange list" where
  "actor_pairs_to_normal_changes actors = map (\<lambda>(name, location). ActorAdded name location Normal) (sort_key fst actors)"

definition create_delta_from_state ::
  "u64 \<Rightarrow> u64 \<Rightarrow> GossipRegistry \<Rightarrow> actor_pairs \<Rightarrow> actor_pairs \<Rightarrow> u64 \<Rightarrow> RegistryDelta" where
  "create_delta_from_state now now_nanos r local_pairs known_pairs since =
     (let s = gossip_state r;
          snapshot = (if since = 0
                      then actor_pairs_to_normal_changes local_pairs @ actor_pairs_to_normal_changes known_pairs
                      else []);
          historical = concat (map hist_changes (filter (\<lambda>d. since < hist_sequence d) (delta_history s)))
      in \<lparr>since_sequence = since, current_sequence = gossip_sequence s,
          delta_changes = deduplicate_changes (snapshot @ map as_regular_gossip_change (urgent_changes s)
            @ pending_changes s @ historical),
          delta_sender_peer_id = reg_peer_id r, delta_wall_clock_time = now, precise_timing_nanos = now_nanos\<rparr>)"

definition create_delta_response_from_state ::
  "u64 \<Rightarrow> u64 \<Rightarrow> GossipRegistry \<Rightarrow> actor_pairs \<Rightarrow> actor_pairs \<Rightarrow> u64 \<Rightarrow> RegistryMessage" where
  "create_delta_response_from_state now now_nanos r local_pairs known_pairs since =
     DeltaGossipResponse (create_delta_from_state now now_nanos r local_pairs known_pairs since) None"

definition create_full_sync_message_from_state ::
  "u64 \<Rightarrow> string option \<Rightarrow> GossipRegistry \<Rightarrow> actor_pairs \<Rightarrow> actor_pairs \<Rightarrow> u64 \<Rightarrow> RegistryMessage" where
  "create_full_sync_message_from_state now advertised r local_pairs known_pairs sequence =
     FullSync (sort_key fst local_pairs) (sort_key fst known_pairs) (reg_peer_id r) advertised sequence now None"

definition create_full_sync_response_from_state ::
  "u64 \<Rightarrow> string option \<Rightarrow> GossipRegistry \<Rightarrow> actor_pairs \<Rightarrow> actor_pairs \<Rightarrow> u64 \<Rightarrow> RegistryMessage" where
  "create_full_sync_response_from_state now advertised r local_pairs known_pairs sequence =
     FullSyncResponse (sort_key fst local_pairs) (sort_key fst known_pairs) (reg_peer_id r) advertised sequence now None"

subsection \<open>Payloads within the frame limit\<close>

definition GOSSIP_RECORD_SIZE_SLACK :: usize where "GOSSIP_RECORD_SIZE_SLACK = 512"

definition gossip_payload_fits :: "usize \<Rightarrow> usize \<Rightarrow> bool" where
  "gossip_payload_fits payload_len max_size =
     (case reject_oversize_for_inline_send GOSSIP_HEADER_LEN payload_len max_size of
        Inl _ \<Rightarrow> False
      | Inr _ \<Rightarrow> True)"

text \<open>\<open>None\<close> is the panic of \<open>expect_err\<close> for a payload that does fit.\<close>

definition oversized_gossip_error :: "usize \<Rightarrow> usize \<Rightarrow> GossipError option" where
  "oversized_gossip_error payload_len max_size =
     (case reject_oversize_for_inline_send GOSSIP_HEADER_LEN payload_len max_size of
        Inl e \<Rightarrow> Some e
      | Inr _ \<Rightarrow> None)"

definition estimated_actor_pair_bytes :: "string \<Rightarrow> RemoteActorLocation \<Rightarrow> usize" where
  "estimated_actor_pair_bytes name location =
     saturating_add (saturating_add (saturating_add (length name) (length (metadata location)))
       (length (address location))) GOSSIP_RECORD_SIZE_SLACK"

fun estimated_change_bytes :: "RegistryChange \<Rightarrow> usize" where
  "estimated_change_bytes (ActorAdded name location _) = estimated_actor_pair_bytes name location"
| "estimated_change_bytes (ActorRemoved name _ _ _) = saturating_add (length name) GOSSIP_RECORD_SIZE_SLACK"

definition estimated_full_sync_bytes :: "actor_pairs \<Rightarrow> actor_pairs \<Rightarrow> usize" where
  "estimated_full_sync_bytes local_pairs known_pairs =
     fold (\<lambda>(name, location) acc. saturating_add acc (estimated_actor_pair_bytes name location))
       (local_pairs @ known_pairs) GOSSIP_MESSAGE_SIZE_SLACK"

definition strip_actor_pair_metadata :: "actor_pairs \<Rightarrow> actor_pairs" where
  "strip_actor_pair_metadata actors = map (\<lambda>(name, location). (name, location\<lparr>metadata := []\<rparr>)) actors"

definition actor_pairs_to_added_changes :: "actor_pairs \<Rightarrow> actor_pairs \<Rightarrow> RegistryChange list" where
  "actor_pairs_to_added_changes local_pairs known_pairs =
     map (\<lambda>(name, location). ActorAdded name location (loc_priority location)) (local_pairs @ known_pairs)"

text \<open>The fields that every fragment of a split delta shares.\<close>

record delta_frame =
  frame_sender :: PeerId
  frame_since :: u64
  frame_current :: u64
  frame_wall :: u64
  frame_nanos :: u64
  frame_extensions :: "GossipExtensionsV1 option"
  frame_as_response :: bool

definition delta_message :: "delta_frame \<Rightarrow> RegistryChange list \<Rightarrow> RegistryMessage" where
  "delta_message f changes =
     (let delta = \<lparr>since_sequence = frame_since f, current_sequence = frame_current f,
                   delta_changes = changes, delta_sender_peer_id = frame_sender f,
                   delta_wall_clock_time = frame_wall f, precise_timing_nanos = frame_nanos f\<rparr>
      in if frame_as_response f then DeltaGossipResponse delta (frame_extensions f)
         else DeltaGossip delta (frame_extensions f))"

definition full_sync_frame :: "PeerId \<Rightarrow> u64 \<Rightarrow> u64 \<Rightarrow> u64 \<Rightarrow> GossipExtensionsV1 option \<Rightarrow> bool \<Rightarrow> delta_frame" where
  "full_sync_frame sender sequence wall now_nanos ext as_response =
     \<lparr>frame_sender = sender, frame_since = sequence, frame_current = sequence, frame_wall = wall,
      frame_nanos = now_nanos, frame_extensions = ext, frame_as_response = as_response\<rparr>"

definition delta_fragment_frame :: "RegistryDelta \<Rightarrow> GossipExtensionsV1 option \<Rightarrow> bool \<Rightarrow> delta_frame" where
  "delta_fragment_frame delta ext as_response =
     \<lparr>frame_sender = delta_sender_peer_id delta, frame_since = since_sequence delta,
      frame_current = current_sequence delta, frame_wall = delta_wall_clock_time delta,
      frame_nanos = precise_timing_nanos delta, frame_extensions = ext, frame_as_response = as_response\<rparr>"

text \<open>The outer option of the results below is the panic of \<open>expect_err\<close>.\<close>

type_synonym payloads = "byte list list result option"

definition append_payloads :: "payloads \<Rightarrow> payloads \<Rightarrow> payloads" where
  "append_payloads first rest =
     (case first of
        None \<Rightarrow> None
      | Some (Inl e) \<Rightarrow> Some (Inl e)
      | Some (Inr ps) \<Rightarrow>
          (case rest of None \<Rightarrow> None | Some (Inl e) \<Rightarrow> Some (Inl e) | Some (Inr qs) \<Rightarrow> Some (Inr (ps @ qs))))"

function encode_delta_batch_fitting ::
  "(RegistryChange list \<Rightarrow> byte list result) \<Rightarrow> usize \<Rightarrow> RegistryChange list \<Rightarrow> payloads" where
  "encode_delta_batch_fitting emit_batch max_size batch =
     (if batch = [] then Some (Inr [])
      else case emit_batch batch of
             Inl e \<Rightarrow> Some (Inl e)
           | Inr encoded \<Rightarrow>
               if gossip_payload_fits (length encoded) max_size then Some (Inr [encoded])
               else if length batch = 1
               then map_option Inl (oversized_gossip_error (length encoded) max_size)
               else append_payloads
                      (encode_delta_batch_fitting emit_batch max_size (take (length batch div 2) batch))
                      (encode_delta_batch_fitting emit_batch max_size (drop (length batch div 2) batch)))"
  by pat_completeness auto
termination
proof (relation "measure (\<lambda>(_, _, batch). length batch)", goal_cases)
  case (2 emit_batch max_size batch encoded)
  then have "2 \<le> length batch" by (cases batch) (auto simp: neq_Nil_conv Suc_le_eq)
  then show ?case by simp
next
  case (3 emit_batch max_size batch encoded)
  then have "2 \<le> length batch" by (cases batch) (auto simp: neq_Nil_conv Suc_le_eq)
  then show ?case by simp
qed simp

declare encode_delta_batch_fitting.simps [simp del]

fun pack_loop ::
  "(RegistryChange list \<Rightarrow> byte list result) \<Rightarrow> usize \<Rightarrow> RegistryChange list \<Rightarrow> RegistryChange list \<Rightarrow> usize \<Rightarrow> payloads" where
  "pack_loop emit_batch max_size [] batch batch_est =
     (if batch = [] then Some (Inr []) else encode_delta_batch_fitting emit_batch max_size batch)"
| "pack_loop emit_batch max_size (change # changes) batch batch_est =
     (let change_est = estimated_change_bytes change
      in if batch \<noteq> [] \<and> \<not> gossip_payload_fits
              (saturating_add (saturating_add batch_est change_est) GOSSIP_MESSAGE_SIZE_SLACK) max_size
         then append_payloads (encode_delta_batch_fitting emit_batch max_size batch)
                (pack_loop emit_batch max_size changes [change] (saturating_add 0 change_est))
         else pack_loop emit_batch max_size changes (batch @ [change]) (saturating_add batch_est change_est))"

definition normal_frame :: "delta_frame \<Rightarrow> delta_frame" where
  "normal_frame f = (if frame_current f < frame_since f then f\<lparr>frame_current := frame_since f\<rparr> else f)"

definition pack_delta_change_batches ::
  "encoder \<Rightarrow> RegistryChange list \<Rightarrow> delta_frame \<Rightarrow> usize \<Rightarrow> payloads" where
  "pack_delta_change_batches enc changes f max_size =
     pack_loop (\<lambda>batch. enc (delta_message (normal_frame f) batch)) max_size changes [] 0"

text \<open>A full sync that does not fit: the complete set of names without metadata, then the records.\<close>

definition compact_full_sync ::
  "bool \<Rightarrow> actor_pairs \<Rightarrow> actor_pairs \<Rightarrow> PeerId \<Rightarrow> string option \<Rightarrow> u64 \<Rightarrow> u64 \<Rightarrow> GossipExtensionsV1 option
   \<Rightarrow> RegistryMessage" where
  "compact_full_sync as_response local_pairs known_pairs sender bind_addr sequence wall ext =
     (if as_response
      then FullSyncResponse (strip_actor_pair_metadata local_pairs) (strip_actor_pair_metadata known_pairs)
             sender bind_addr sequence wall ext
      else FullSync (strip_actor_pair_metadata local_pairs) (strip_actor_pair_metadata known_pairs)
             sender bind_addr sequence wall ext)"

definition encode_large_full_sync ::
  "encoder \<Rightarrow> u64 \<Rightarrow> usize \<Rightarrow> bool \<Rightarrow> actor_pairs \<Rightarrow> actor_pairs \<Rightarrow> PeerId \<Rightarrow> string option \<Rightarrow> u64 \<Rightarrow> u64
   \<Rightarrow> GossipExtensionsV1 option \<Rightarrow> payloads" where
  "encode_large_full_sync enc now_nanos max_size as_response local_pairs known_pairs sender bind_addr sequence wall ext =
     (case enc (compact_full_sync as_response local_pairs known_pairs sender bind_addr sequence wall ext) of
           Inl e \<Rightarrow> Some (Inl e)
         | Inr compact_encoded \<Rightarrow>
             if \<not> gossip_payload_fits (length compact_encoded) max_size
             then map_option Inl (oversized_gossip_error (length compact_encoded) max_size)
             else
               let adds = actor_pairs_to_added_changes local_pairs known_pairs
               in if adds = [] then Some (Inr [compact_encoded])
                  else append_payloads (Some (Inr [compact_encoded]))
                         (pack_delta_change_batches enc adds
                            (full_sync_frame sender sequence wall now_nanos ext as_response) max_size))"

definition encode_large_delta ::
  "encoder \<Rightarrow> usize \<Rightarrow> usize \<Rightarrow> bool \<Rightarrow> RegistryDelta \<Rightarrow> GossipExtensionsV1 option \<Rightarrow> payloads" where
  "encode_large_delta enc encoded_len max_size as_response delta ext =
     (if delta_changes delta = [] then map_option Inl (oversized_gossip_error encoded_len max_size)
      else pack_delta_change_batches enc (delta_changes delta)
             (delta_fragment_frame delta ext as_response) max_size)"

definition encode_outbound_gossip_for_inline_limit ::
  "encoder \<Rightarrow> u64 \<Rightarrow> usize \<Rightarrow> RegistryMessage \<Rightarrow> payloads" where
  "encode_outbound_gossip_for_inline_limit enc now_nanos max_size message =
     (case enc message of
        Inl e \<Rightarrow> Some (Inl e)
      | Inr encoded \<Rightarrow>
          if gossip_payload_fits (length encoded) max_size then Some (Inr [encoded])
          else case message of
                 FullSync l k sender bind_addr sequence wall ext \<Rightarrow>
                   encode_large_full_sync enc now_nanos max_size False l k sender bind_addr sequence wall ext
               | FullSyncResponse l k sender bind_addr sequence wall ext \<Rightarrow>
                   encode_large_full_sync enc now_nanos max_size True l k sender bind_addr sequence wall ext
               | DeltaGossip delta ext \<Rightarrow> encode_large_delta enc (length encoded) max_size False delta ext
               | DeltaGossipResponse delta ext \<Rightarrow> encode_large_delta enc (length encoded) max_size True delta ext
               | _ \<Rightarrow> map_option Inl (oversized_gossip_error (length encoded) max_size))"

subsubsection \<open>Splitting a snapshot\<close>

text \<open>The last known actor, or else the last local one, moves to the overflow.\<close>

fun pop_actor :: "actor_pairs \<times> actor_pairs \<times> actor_pairs \<Rightarrow> actor_pairs \<times> actor_pairs \<times> actor_pairs" where
  "pop_actor (l, k, overflow) =
     (if k \<noteq> [] then (l, butlast k, overflow @ [last k]) else (butlast l, k, overflow @ [last l]))"

function shed_by_estimate ::
  "usize \<Rightarrow> usize \<Rightarrow> actor_pairs \<times> actor_pairs \<times> actor_pairs \<Rightarrow> actor_pairs \<times> actor_pairs \<times> actor_pairs" where
  "shed_by_estimate max_size estimate (l, k, overflow) =
     (if \<not> gossip_payload_fits estimate max_size \<and> (l \<noteq> [] \<or> k \<noteq> [])
      then let item = (if k \<noteq> [] then last k else last l)
           in shed_by_estimate max_size (estimate - estimated_actor_pair_bytes (fst item) (snd item))
                (pop_actor (l, k, overflow))
      else (l, k, overflow))"
  by pat_completeness auto
termination
  by (relation "measure (\<lambda>(_, _, l, k, _). length l + length k)") (auto simp: Suc_le_eq)

declare shed_by_estimate.simps [simp del]

function split_loop ::
  "encoder \<Rightarrow> u64 \<Rightarrow> usize \<Rightarrow> PeerId \<Rightarrow> string option \<Rightarrow> u64 \<Rightarrow> u64
   \<Rightarrow> actor_pairs \<times> actor_pairs \<times> actor_pairs \<Rightarrow> payloads" where
  "split_loop enc now_nanos max_size sender bind_addr sequence wall (l, k, overflow) =
     (case enc (FullSync l k sender bind_addr sequence wall None) of
        Inl e \<Rightarrow> Some (Inl e)
      | Inr payload \<Rightarrow>
          if gossip_payload_fits (length payload) max_size
          then if overflow = [] then Some (Inr [payload])
               else append_payloads (Some (Inr [payload]))
                      (pack_delta_change_batches enc (actor_pairs_to_added_changes (rev overflow) [])
                         (full_sync_frame sender sequence wall now_nanos None False) max_size)
          else if l \<noteq> [] \<or> k \<noteq> []
          then split_loop enc now_nanos max_size sender bind_addr sequence wall (pop_actor (l, k, overflow))
          else map_option Inl (oversized_gossip_error (length payload) max_size))"
  by pat_completeness auto
termination
  by (relation "measure (\<lambda>(_, _, _, _, _, _, _, l, k, _). length l + length k)") (auto simp: Suc_le_eq)

declare split_loop.simps [simp del]

definition split_full_sync_for_inline_limit ::
  "encoder \<Rightarrow> u64 \<Rightarrow> GossipRegistry \<Rightarrow> actor_pairs \<Rightarrow> actor_pairs \<Rightarrow> PeerId \<Rightarrow> string option \<Rightarrow> u64 \<Rightarrow> u64
   \<Rightarrow> usize \<Rightarrow> payloads" where
  "split_full_sync_for_inline_limit enc now_nanos r local_pairs known_pairs sender bind_addr sequence wall max_size0 =
     (let max_size = min max_size0 (max_message_size (reg_config r))
      in split_loop enc now_nanos max_size sender bind_addr sequence wall
           (shed_by_estimate max_size (estimated_full_sync_bytes local_pairs known_pairs)
              (local_pairs, known_pairs, [])))"
subsection \<open>Fragments convey the message\<close>

lemma not_fits_error:
  "\<not> gossip_payload_fits n max_size \<Longrightarrow> \<exists>e. oversized_gossip_error n max_size = Some e"
  by (simp add: gossip_payload_fits_def oversized_gossip_error_def split: sum.splits)

text \<open>
  \<open>batches emit max changes ps\<close>: the payloads \<open>ps\<close> encode consecutive pieces of \<open>changes\<close>, in
  order and without loss, and each of them fits.
\<close>

definition batches :: "(RegistryChange list \<Rightarrow> byte list result) \<Rightarrow> usize \<Rightarrow> RegistryChange list \<Rightarrow> byte list list \<Rightarrow> bool" where
  "batches emit_batch max_size changes ps \<longleftrightarrow>
     (\<exists>bs. concat bs = changes
        \<and> list_all2 (\<lambda>b p. emit_batch b = Inr p \<and> gossip_payload_fits (length p) max_size) bs ps)"

lemma batches_Nil: "batches emit_batch max_size [] []"
  by (auto simp: batches_def intro: exI [of _ "[]"])

lemma batches_one: "emit_batch b = Inr p \<Longrightarrow> gossip_payload_fits (length p) max_size \<Longrightarrow> batches emit_batch max_size b [p]"
  by (auto simp: batches_def intro!: exI [of _ "[b]"])

lemma batches_append:
  assumes "batches emit_batch max_size xs ps" "batches emit_batch max_size ys qs"
  shows "batches emit_batch max_size (xs @ ys) (ps @ qs)"
proof -
  obtain bs cs where "concat bs = xs" "concat cs = ys"
    and "list_all2 (\<lambda>b p. emit_batch b = Inr p \<and> gossip_payload_fits (length p) max_size) bs ps"
    and "list_all2 (\<lambda>b p. emit_batch b = Inr p \<and> gossip_payload_fits (length p) max_size) cs qs"
    using assms unfolding batches_def by blast
  then show ?thesis unfolding batches_def by (intro exI [of _ "bs @ cs"]) (simp add: list_all2_appendI)
qed

text \<open>
  The contract of the splitters: no panic, on success a lossless sequence of fitting payloads, and
  success whenever the encoder works and each change fits alone.
\<close>

definition splits :: "(RegistryChange list \<Rightarrow> byte list result) \<Rightarrow> usize \<Rightarrow> RegistryChange list \<Rightarrow> payloads \<Rightarrow> bool" where
  "splits emit_batch max_size changes out \<longleftrightarrow>
     out \<noteq> None
     \<and> (\<forall>ps. out = Some (Inr ps) \<longrightarrow> batches emit_batch max_size changes ps)
     \<and> ((\<forall>b. \<exists>p. emit_batch b = Inr p)
        \<and> (\<forall>c p. c \<in> set changes \<longrightarrow> emit_batch [c] = Inr p \<longrightarrow> gossip_payload_fits (length p) max_size)
        \<longrightarrow> (\<exists>ps. out = Some (Inr ps)))"

lemma append_payloads_Some: "a \<noteq> None \<Longrightarrow> b \<noteq> None \<Longrightarrow> append_payloads a b \<noteq> None"
  by (auto simp: append_payloads_def split: option.split sum.split)

lemma append_payloads_Nil [simp]: "append_payloads (Some (Inr ps)) (Some (Inr [])) = Some (Inr ps)"
  by (simp add: append_payloads_def)

lemma append_payloads_Inr:
  "append_payloads a b = Some (Inr rs) \<longleftrightarrow> (\<exists>ps qs. a = Some (Inr ps) \<and> b = Some (Inr qs) \<and> rs = ps @ qs)"
  by (auto simp: append_payloads_def split: option.splits sum.splits)

lemma splits_append:
  assumes "splits emit_batch max_size xs out" "splits emit_batch max_size ys out'"
  shows "splits emit_batch max_size (xs @ ys) (append_payloads out out')"
proof -
  have "append_payloads out out' \<noteq> None"
    using assms by (intro append_payloads_Some) (simp_all add: splits_def)
  moreover have "batches emit_batch max_size (xs @ ys) rs" if "append_payloads out out' = Some (Inr rs)" for rs
    using that assms by (auto simp: append_payloads_Inr splits_def batches_append)
  moreover have "\<exists>rs. append_payloads out out' = Some (Inr rs)"
    if "\<forall>b. \<exists>p. emit_batch b = Inr p"
      and "\<forall>c p. c \<in> set (xs @ ys) \<longrightarrow> emit_batch [c] = Inr p \<longrightarrow> gossip_payload_fits (length p) max_size"
    using that assms unfolding splits_def append_payloads_Inr by fastforce
  ultimately show ?thesis unfolding splits_def by blast
qed

lemma splits_batch: "splits emit_batch max_size batch (encode_delta_batch_fitting emit_batch max_size batch)"
proof (induction emit_batch max_size batch rule: encode_delta_batch_fitting.induct)
  case (1 emit_batch max_size batch)
  note unfold = encode_delta_batch_fitting.simps [of emit_batch max_size batch]
  consider "batch = []" | e where "batch \<noteq> []" "emit_batch batch = Inl e"
    | p where "batch \<noteq> []" "emit_batch batch = Inr p" "gossip_payload_fits (length p) max_size"
    | c p where "batch = [c]" "emit_batch batch = Inr p" "\<not> gossip_payload_fits (length p) max_size"
    | p where "batch \<noteq> []" "length batch \<noteq> 1" "emit_batch batch = Inr p" "\<not> gossip_payload_fits (length p) max_size"
    by (metis One_nat_def length_0_conv length_Suc_conv sum.exhaust)
  then show ?case
  proof cases
    case 1
    then show ?thesis by (simp add: encode_delta_batch_fitting.simps splits_def batches_Nil)
  next
    case (2 e)
    then have "\<not> (\<forall>b. \<exists>p. emit_batch b = Inr p)" by (metis sum.distinct(1))
    then show ?thesis using 2 by (simp add: unfold splits_def)
  next
    case (3 p)
    then show ?thesis by (simp add: unfold splits_def batches_one)
  next
    case (4 c p)
    then show ?thesis using not_fits_error [OF 4(3)] by (auto simp: encode_delta_batch_fitting.simps [of emit_batch max_size "[c]"] splits_def)
  next
    case (5 p)
    then have "splits emit_batch max_size (take (length batch div 2) batch @ drop (length batch div 2) batch)
        (append_payloads (encode_delta_batch_fitting emit_batch max_size (take (length batch div 2) batch))
           (encode_delta_batch_fitting emit_batch max_size (drop (length batch div 2) batch)))"
      using "1.IH" by (intro splits_append) auto
    then show ?thesis using 5 by (simp add: unfold)
  qed
qed

lemma splits_pack_loop: "splits emit_batch max_size (batch @ changes) (pack_loop emit_batch max_size changes batch est)"
proof (induction changes arbitrary: batch est)
  case Nil
  then show ?case using splits_batch [of emit_batch max_size batch] by (simp add: splits_def batches_Nil)
next
  case (Cons change changes)
  have "splits emit_batch max_size (batch @ [change] @ changes)
      (append_payloads (encode_delta_batch_fitting emit_batch max_size batch)
         (pack_loop emit_batch max_size changes [change] (saturating_add 0 (estimated_change_bytes change))))"
    by (intro splits_append splits_batch Cons.IH)
  then show ?case using Cons.IH [of "batch @ [change]"] by (simp add: Let_def)
qed

lemma pack_empty: "pack_delta_change_batches enc [] f max_size = Some (Inr [])"
  by (simp add: pack_delta_change_batches_def)

lemma splits_pack:
  "splits (\<lambda>b. enc (delta_message (normal_frame f) b)) max_size changes (pack_delta_change_batches enc changes f max_size)"
  using splits_pack_loop [of _ max_size "[]" changes 0] by (simp add: pack_delta_change_batches_def)
text \<open>The fragments of a split delta are encodings of its changes under the delta's own fields.\<close>

abbreviation emits :: "encoder \<Rightarrow> delta_frame \<Rightarrow> RegistryChange list \<Rightarrow> byte list result" where
  "emits enc f \<equiv> \<lambda>b. enc (delta_message (normal_frame f) b)"

definition conveys_full_sync ::
  "encoder \<Rightarrow> u64 \<Rightarrow> usize \<Rightarrow> bool \<Rightarrow> actor_pairs \<Rightarrow> actor_pairs \<Rightarrow> PeerId \<Rightarrow> string option \<Rightarrow> u64 \<Rightarrow> u64
   \<Rightarrow> GossipExtensionsV1 option \<Rightarrow> byte list list \<Rightarrow> bool" where
  "conveys_full_sync enc now_nanos max_size as_response l k sender bind_addr sequence wall ext ps \<longleftrightarrow>
     (\<exists>p qs. ps = p # qs
        \<and> enc (compact_full_sync as_response l k sender bind_addr sequence wall ext) = Inr p
        \<and> batches (emits enc (full_sync_frame sender sequence wall now_nanos ext as_response)) max_size
            (actor_pairs_to_added_changes l k) qs)"

definition conveys :: "encoder \<Rightarrow> u64 \<Rightarrow> usize \<Rightarrow> RegistryMessage \<Rightarrow> byte list list \<Rightarrow> bool" where
  "conveys enc now_nanos max_size message ps \<longleftrightarrow>
     (\<exists>p. ps = [p] \<and> enc message = Inr p)
     \<or> (case message of
          DeltaGossip d ext \<Rightarrow> batches (emits enc (delta_fragment_frame d ext False)) max_size (delta_changes d) ps
        | DeltaGossipResponse d ext \<Rightarrow> batches (emits enc (delta_fragment_frame d ext True)) max_size (delta_changes d) ps
        | FullSync l k sender bind_addr sequence wall ext \<Rightarrow>
            conveys_full_sync enc now_nanos max_size False l k sender bind_addr sequence wall ext ps
        | FullSyncResponse l k sender bind_addr sequence wall ext \<Rightarrow>
            conveys_full_sync enc now_nanos max_size True l k sender bind_addr sequence wall ext ps
        | _ \<Rightarrow> False)"

definition singles_fit :: "encoder \<Rightarrow> delta_frame \<Rightarrow> usize \<Rightarrow> RegistryChange list \<Rightarrow> bool" where
  "singles_fit enc f max_size changes \<longleftrightarrow>
     (\<forall>c p. c \<in> set changes \<longrightarrow> emits enc f [c] = Inr p \<longrightarrow> gossip_payload_fits (length p) max_size)"

definition full_sync_sendable ::
  "encoder \<Rightarrow> u64 \<Rightarrow> usize \<Rightarrow> bool \<Rightarrow> actor_pairs \<Rightarrow> actor_pairs \<Rightarrow> PeerId \<Rightarrow> string option \<Rightarrow> u64 \<Rightarrow> u64
   \<Rightarrow> GossipExtensionsV1 option \<Rightarrow> bool" where
  "full_sync_sendable enc now_nanos max_size as_response l k sender bind_addr sequence wall ext \<longleftrightarrow>
     (\<forall>p. enc (compact_full_sync as_response l k sender bind_addr sequence wall ext) = Inr p
        \<longrightarrow> gossip_payload_fits (length p) max_size)
     \<and> singles_fit enc (full_sync_frame sender sequence wall now_nanos ext as_response) max_size
         (actor_pairs_to_added_changes l k)"

text \<open>
  What a message needs to be sent: each change fits alone, and the names of a full sync fit without
  their metadata.
\<close>

fun sendable :: "encoder \<Rightarrow> u64 \<Rightarrow> usize \<Rightarrow> RegistryMessage \<Rightarrow> bool" where
  "sendable enc now_nanos max_size (DeltaGossip d ext) \<longleftrightarrow>
     delta_changes d \<noteq> [] \<and> singles_fit enc (delta_fragment_frame d ext False) max_size (delta_changes d)"
| "sendable enc now_nanos max_size (DeltaGossipResponse d ext) \<longleftrightarrow>
     delta_changes d \<noteq> [] \<and> singles_fit enc (delta_fragment_frame d ext True) max_size (delta_changes d)"
| "sendable enc now_nanos max_size (FullSync l k sender bind_addr sequence wall ext) \<longleftrightarrow>
     full_sync_sendable enc now_nanos max_size False l k sender bind_addr sequence wall ext"
| "sendable enc now_nanos max_size (FullSyncResponse l k sender bind_addr sequence wall ext) \<longleftrightarrow>
     full_sync_sendable enc now_nanos max_size True l k sender bind_addr sequence wall ext"
| "sendable enc now_nanos max_size message \<longleftrightarrow>
     (\<forall>p. enc message = Inr p \<longrightarrow> gossip_payload_fits (length p) max_size)"

lemma batches_fit: "batches emit_batch max_size xs ps \<Longrightarrow> p \<in> set ps \<Longrightarrow> gossip_payload_fits (length p) max_size"
  unfolding batches_def by (force simp: list_all2_conv_all_nth in_set_conv_nth)

text \<open>The contract of one encoding, and that both ways of splitting keep it.\<close>

definition meets ::
  "encoder \<Rightarrow> usize \<Rightarrow> (byte list list \<Rightarrow> bool) \<Rightarrow> bool \<Rightarrow> payloads \<Rightarrow> bool" where
  "meets enc max_size conveyed can_send out \<longleftrightarrow>
     out \<noteq> None
     \<and> (\<forall>ps. out = Some (Inr ps) \<longrightarrow> (\<forall>p \<in> set ps. gossip_payload_fits (length p) max_size) \<and> conveyed ps)
     \<and> ((\<forall>m. \<exists>p. enc m = Inr p) \<and> can_send \<longrightarrow> (\<exists>ps. out = Some (Inr ps)))"

lemma meets_delta:
  assumes "\<not> gossip_payload_fits n max_size"
  shows "meets enc max_size (batches (emits enc (delta_fragment_frame d ext b)) max_size (delta_changes d))
    (delta_changes d \<noteq> [] \<and> singles_fit enc (delta_fragment_frame d ext b) max_size (delta_changes d))
    (encode_large_delta enc n max_size b d ext)"
proof (cases "delta_changes d = []")
  case True
  then show ?thesis using not_fits_error [OF assms] by (auto simp: encode_large_delta_def meets_def)
next
  case False
  then show ?thesis
    using splits_pack [of enc "delta_fragment_frame d ext b" max_size "delta_changes d"]
    unfolding meets_def splits_def encode_large_delta_def singles_fit_def by (auto intro: batches_fit)
qed

lemma meets_full_sync:
  "meets enc max_size (conveys_full_sync enc n max_size b l k sender bind_addr sequence wall ext)
    (full_sync_sendable enc n max_size b l k sender bind_addr sequence wall ext)
    (encode_large_full_sync enc n max_size b l k sender bind_addr sequence wall ext)"
proof (cases "enc (compact_full_sync b l k sender bind_addr sequence wall ext)")
  case (Inl e)
  then have "\<not> (\<forall>m. \<exists>p. enc m = Inr p)" by (metis sum.distinct(1))
  then show ?thesis using Inl by (simp add: encode_large_full_sync_def meets_def)
next
  case (Inr compact)
  define out where "out = pack_delta_change_batches enc (actor_pairs_to_added_changes l k)
      (full_sync_frame sender sequence wall n ext b) max_size"
  have s: "splits (emits enc (full_sync_frame sender sequence wall n ext b)) max_size
      (actor_pairs_to_added_changes l k) out"
    unfolding out_def by (rule splits_pack)
  show ?thesis
  proof (cases "gossip_payload_fits (length compact) max_size")
    case False
    then show ?thesis using Inr not_fits_error [OF False]
      by (auto simp: encode_large_full_sync_def meets_def full_sync_sendable_def)
  next
    case True
    have eq: "encode_large_full_sync enc n max_size b l k sender bind_addr sequence wall ext
        = append_payloads (Some (Inr [compact])) out"
      using Inr True by (simp add: encode_large_full_sync_def out_def pack_empty Let_def)
    show ?thesis
      unfolding meets_def eq append_payloads_Inr conveys_full_sync_def
      using s True Inr append_payloads_Some [of "Some (Inr [compact])" out]
      by (auto simp: splits_def full_sync_sendable_def singles_fit_def intro: batches_fit)
  qed
qed
subsection \<open>Properties\<close>

text \<open>
  C39. Encoding an outbound gossip message never panics. If it succeeds, every payload fits the
  frame limit, and together they are the message: its own encoding, or for a delta consecutive
  pieces of its changes in order under its own sequence numbers, or for a full sync the complete
  set of names without metadata followed by every record in full. It succeeds whenever the encoder
  does, each change fits alone, and the bare names of a full sync fit.
\<close>

theorem outbound_gossip_fits_and_conveys:
  "encode_outbound_gossip_for_inline_limit enc now_nanos max_size message \<noteq> None
   \<and> (\<forall>ps. encode_outbound_gossip_for_inline_limit enc now_nanos max_size message = Some (Inr ps)
        \<longrightarrow> (\<forall>p \<in> set ps. gossip_payload_fits (length p) max_size)
            \<and> conveys enc now_nanos max_size message ps)
   \<and> ((\<forall>m. \<exists>p. enc m = Inr p) \<and> sendable enc now_nanos max_size message
        \<longrightarrow> (\<exists>ps. encode_outbound_gossip_for_inline_limit enc now_nanos max_size message = Some (Inr ps)))"
proof (cases "enc message")
  case (Inl e)
  then have "\<not> (\<forall>m. \<exists>p. enc m = Inr p)" by (metis sum.distinct(1))
  then show ?thesis using Inl by (simp add: encode_outbound_gossip_for_inline_limit_def)
next
  case (Inr p)
  show ?thesis
  proof (cases "gossip_payload_fits (length p) max_size")
    case True
    then show ?thesis using Inr by (simp add: encode_outbound_gossip_for_inline_limit_def conveys_def)
  next
    case False
    note err = not_fits_error [OF False]
    show ?thesis
      using Inr False err meets_delta [OF False] meets_full_sync
      unfolding meets_def encode_outbound_gossip_for_inline_limit_def conveys_def
      by (cases message) fastforce+
  qed
qed
theorem outbound_gossip_fits_and_conveys_witness:
  "let enc = (\<lambda>m. Inr (case m of DeltaGossip d _ \<Rightarrow> replicate (100 * length (delta_changes d)) 0 | _ \<Rightarrow> []));
       gone = (\<lambda>name. ActorRemoved name [] (PublicKey [1]) Normal);
       delta = \<lparr>since_sequence = 4, current_sequence = 5, delta_changes = [gone ''a'', gone ''b''],
                delta_sender_peer_id = PeerId [1], delta_wall_clock_time = 0, precise_timing_nanos = 0\<rparr>
   in \<exists>ps. encode_outbound_gossip_for_inline_limit enc 0 200 (DeltaGossip delta None) = Some (Inr ps)
        \<and> (\<forall>p \<in> set ps. gossip_payload_fits (length p) 200)"
proof -
  let ?enc = "\<lambda>m. Inr (case m of DeltaGossip d _ \<Rightarrow> replicate (100 * length (delta_changes d)) (0 :: byte) | _ \<Rightarrow> []) :: byte list result"
  have "gossip_payload_fits 100 200"
    by (simp add: gossip_payload_fits_def reject_oversize_for_inline_send_def saturating_add_def
        GOSSIP_HEADER_LEN_def USIZE_MAX_def)
  then have "singles_fit ?enc f 200 changes" if "\<not> frame_as_response f" for f changes
    using that by (simp add: singles_fit_def delta_message_def normal_frame_def)
  then have "sendable ?enc 0 200 (DeltaGossip d None)" if "delta_changes d \<noteq> []" for d
    using that by (simp add: delta_fragment_frame_def)
  moreover have "\<forall>m. \<exists>p. ?enc m = Inr p" by blast
  ultimately have "\<exists>ps. encode_outbound_gossip_for_inline_limit ?enc 0 200 (DeltaGossip d None) = Some (Inr ps)
      \<and> (\<forall>p \<in> set ps. gossip_payload_fits (length p) 200)" if "delta_changes d \<noteq> []" for d
    using outbound_gossip_fits_and_conveys [of ?enc 0 200 "DeltaGossip d None"] that by blast
  then show ?thesis unfolding Let_def by simp
qed











end
