(* ===== verification/Spec2Isabelle.thy ===== *)
theory Spec2Isabelle
  imports Correlation Routed_Ask Stream_Runs Read_Refinement Registry_Handle Reap_Protocol
    Directory_Properties Gossip_Messages
begin

text \<open>
  \<^bold>\<open>A verification of the actor transport \<^verbatim>\<open>icanact-remote\<close>.\<close>
  Paths are relative to the crate's root.

  \<^bold>\<open>The program.\<close> A node runs actors under names and talks to peers over authenticated
  connections. On a connection it writes and reads frames of the V5 wire format: tells, asks and
  responses of actors, gossip, and large payloads cut into chunks. An ask is paired with its
  response by a correlation id. Nodes replicate a directory of actor names by gossip, with vector
  clocks deciding between concurrent changes. Which peer a socket address belongs to is decided
  by a single task per node, which publishes its decisions in a lock-free snapshot.

  \<^bold>\<open>Foundations.\<close>
  \<^item> \<open>Prelude\<close>: machine integers and their byte encodings, results with early return, byte
    slices, association lists, and the interfaces that lift an invariant from single operations to
    runs (\<open>invariant_ops\<close>, \<open>monotone_ops\<close>, \<open>invariant_steps\<close>).
  \<^item> \<open>Wire_Types\<close>: identities, message types, the stream header and the errors of \<^verbatim>\<open>src/lib.rs\<close>.
  \<^item> \<open>Ordered_Map\<close>: the sorted map of the standard library that vector clocks are stored in.

  \<^bold>\<open>Frames\<close> (\<^verbatim>\<open>src/framing.rs\<close>, \<^verbatim>\<open>src/route_interning.rs\<close>, \<^verbatim>\<open>src/aligned.rs\<close>,
  \<^verbatim>\<open>src/handle.rs\<close>, \<^verbatim>\<open>src/connection_pool/stream_writer.rs\<close>).
  \<^item> \<open>Framing\<close>: the control word and all header writers; the control word round-trips.
  \<^item> \<open>Route_Table\<close>: the two tables of interned routes; slots are never reused and never rebound.
  \<^item> \<open>Aligned\<close>: receive buffers and their pool; the pool's accounting is exact, a buffer taken
    from it carries nothing of its previous use.
  \<^item> \<open>Frame_Parser\<close>: \<open>parse_message_from_pooled_buffer_with_routes\<close> and the reader used before a
    connection is set up; every written frame parses to its message or is refused where the
    protocol says so, and a refused frame has no effect.
  \<^item> \<open>Routed_Ask\<close>: the compact ask from the sender's table over the wire to the receiver's table;
    what arrives is what was asked, whatever fails on the way to the queue.

  \<^bold>\<open>Streams\<close> (\<^verbatim>\<open>src/protocol.rs\<close>, \<^verbatim>\<open>src/connection_pool/read_pipeline.rs\<close>).
  \<^item> \<open>Chunk_Bitmap\<close>, \<open>Stream_State\<close>: \<open>StreamingState\<close> with its active streams, tombstones of
    refused and reaped streams, and the reaper.
  \<^item> \<open>Stream_Assembly\<close>, \<open>Stream_Runs\<close>: budgets and absence of panics over any run, the assembled
    payload, completion in any order, draining of refused streams, exactness of the reaper.
  \<^item> \<open>Read_Pipeline\<close>, \<open>Read_Refinement\<close>: the incremental reader polled on a socket that returns
    bytes in any portions; it refines processing whole frames, and it ends.

  \<^bold>\<open>Asks\<close> (\<^verbatim>\<open>src/connection_pool/correlation.rs\<close>).
  \<^item> \<open>Correlation\<close>: allocation, completion, waiting and cancelling as programs of atomic accesses
    under every interleaving; a response is taken at most as often as it was published and by its
    own ask only; and a run in which a wait is stranded by a stale cancel.

  \<^bold>\<open>Addresses and peers\<close> (\<^verbatim>\<open>src/addr_ownership.rs\<close>, \<^verbatim>\<open>src/registry_owner.rs\<close>,
  \<^verbatim>\<open>src/net_security.rs\<close>, \<^verbatim>\<open>src/registry.rs\<close>).
  \<^item> \<open>Addr_Ownership\<close>, \<open>Registry_Owner\<close>: arbitration and every command of the owner task, on a
    record of its tables, the sharded snapshot and the calls on the routing publisher.
  \<^item> \<open>Registry_Invariant\<close>, \<open>Registry_Properties\<close>: snapshot, pins and routing agree with the tables
    after any commands; who can take an address from whom; teardown and configuration.
  \<^item> \<open>Registry_Handle\<close>, \<open>Reap_Protocol\<close>: the clients' view, in which every reported change is
    already published whether or not the task still runs, and the reservation of an address by
    the dead-peer sweep under every interleaving.
  \<^item> \<open>Net_Address\<close>: the filter of dial targets equals a table of address blocks; resolution of
    advertised addresses.
  \<^item> \<open>Peer_Info\<close>: peer records, sessions and the sequence gate.

  \<^bold>\<open>The actor directory\<close> (\<^verbatim>\<open>src/lib.rs\<close>, \<^verbatim>\<open>src/registry.rs\<close>,
  \<^verbatim>\<open>src/remote_actor_location.rs\<close>, \<^verbatim>\<open>src/priority.rs\<close>).
  \<^item> \<open>Vector_Clock\<close>: comparison is the causal order, merging converges; which equal clocks hash
    differently.
  \<^item> \<open>Gossip_State\<close>, \<open>Actor_Directory\<close>: the tables under the gossip lock and the operations that
    register, replicate, remove, reap, evict and expire actors, each as its sections: what happens
    in one critical section, and each access of an actor map outside the lock.
  \<^item> \<open>Directory_Claims\<close>: the projection of a claim on an address, which displaces the actors of
    the former owner, and the rollback of a rejected inbound claim.
  \<^item> \<open>Directory_Invariant\<close>, \<open>Directory_Removal\<close>, \<open>Directory_Properties\<close>: the accounts of
    admissions and charges under every interleaving of the sections, and the caps as long as no
    claim is rolled back; finality of a committed unregistration and the window before it; and
    the conditions under which a reap panics, the order of delivery decides, or an eviction leaves
    an actor that counts against no cap.
  \<^item> \<open>Gossip_Messages\<close>: which changes are sent and how a message is cut to the frame limit; every
    payload fits and nothing is lost.

  \<^bold>\<open>Conventions.\<close> A \<open>usize\<close> is a natural number and the arithmetic on it is bounded by
  \<open>USIZE_MAX\<close> where the code saturates, checks or could overflow; integers of fixed width are
  words. Errors are \<open>Inl\<close> values of \<open>GossipError\<close>; a panic is \<open>None\<close>. Hash maps that are iterated
  are association lists, others are maps; sets iterated in hash order are iterated in the order of
  their elements. Log output and counters for diagnostics are dropped. A critical section or a
  compare-and-swap loop is one step; where an operation gives up the lock or works outside it
  (registrations, unregistrations, full syncs, claims, cleanup, shutdown, correlation slots, reap
  reservations) its parts are separate steps.

  \<^bold>\<open>Parameters.\<close> Validity of Ed25519 keys, the rkyv encoder, SHA-256, the hasher of the
  snapshot's shards, clocks, the textual form of socket addresses, and the answers of the
  connection pool are arguments of the definitions that use them.

  \<^bold>\<open>Bounds.\<close> All recursions are structural or have a measure, so no definition runs out of
  fuel. The reader is run for a number of polls; one poll more than bytes and frames is proved to
  suffice.

  \<^bold>\<open>Not modelled.\<close> Tasks, timers and sockets (\<^verbatim>\<open>src/handle.rs\<close> apart from the parser,
  \<^verbatim>\<open>src/connection_pool/stream_writer.rs\<close> apart from routed asks, the rest of
  \<^verbatim>\<open>src/connection_pool\<close>), TLS and the hello handshake, gossip rounds and the supervisor of
  configured peers, peer discovery, publish/subscribe, reply leases, and the typed client API:
  they schedule or wrap the operations above through asynchronous calls, libraries and the
  operating system.
\<close>

end
